theory Spec2Isabelle
  imports Complex_Main "HOL-Library.Multiset" "HOL-Library.Char_ord" "HOL-Library.List_Lexorder"
begin

section \<open>JavaScript values and outcomes\<close>

text \<open>
  The records of a collection are JSON values. Numbers are the integer-valued ones (ids,
  scores, counters); an object is the list of its own properties in insertion order
  (the engine's rule that puts keys that look like array indices first is not
  modelled). Where JavaScript can yield \<open>undefined\<close> (a missing property), the model
  uses \<open>json option\<close> with \<open>None\<close> for \<open>undefined\<close>.
\<close>

datatype json =
    JNull
  | JBool bool
  | JNum int
  | JStr string
  | JArr "json list"
  | JObj "(string \<times> json) list"

text \<open>A thrown value: \<open>new Error(msg)\<close>, or an error raised by the platform.\<close>

datatype js_error =
    Error string
  | SyntaxError string
  | TypeError string
  | SystemError string

text \<open>
  How a call ends: it returns (an async function resolves), it throws (rejects), or the
  process is killed while it runs.
\<close>

datatype 'a outcome = Return 'a | Throw js_error | Crash

text \<open>Truthiness of a value, as \<open>if (v)\<close>, \<open>!v\<close> and \<open>v || d\<close> test it.\<close>

fun truthy :: "json option \<Rightarrow> bool" where
  "truthy None = False"
| "truthy (Some JNull) = False"
| "truthy (Some (JBool b)) = b"
| "truthy (Some (JNum n)) = (n \<noteq> 0)"
| "truthy (Some (JStr s)) = (s \<noteq> [])"
| "truthy (Some (JArr xs)) = True"
| "truthy (Some (JObj kvs)) = True"

section \<open>The file system and the store's state\<close>

text \<open>
  The text of a file is kept up to what \<open>JSON.parse\<close> makes of it: \<open>Json_text v\<close> is a
  text that parses to the value \<open>v\<close>, and it is the text \<open>JSON.stringify(v, null, 2)\<close>
  produces; \<open>Other_text s m\<close> is a text \<open>s\<close> that does not parse, with the message \<open>m\<close>
  of the \<open>SyntaxError\<close> the engine raises for it. That \<open>JSON.parse\<close> gives back the value
  \<open>JSON.stringify\<close> was given, as it does for the values of \<open>json\<close>, is built into
  this representation.
\<close>

datatype file_text = Json_text json | Other_text string string

definition JSON_stringify :: "json \<Rightarrow> file_text" where
  "JSON_stringify v = Json_text v"

fun JSON_parse :: "file_text \<Rightarrow> json outcome" where
  "JSON_parse (Json_text v) = Return v"
| "JSON_parse (Other_text s m) = Throw (SyntaxError m)"

text \<open>
  The state the module works on: the files of the data directory by path, the module's
  \<open>fileLocks\<close> map, and what was passed to \<open>console.error\<close>.
\<close>

record state =
  files :: "string \<rightharpoonup> file_text"
  fileLocks :: "string \<rightharpoonup> bool"
  console :: "(string \<times> js_error) list"

text \<open>
  I/O failures are an input of the model: a fault plan says whether the read of a file,
  the write of the temporary file and the rename fail, or whether the process is killed
  there. A failed or interrupted write may leave any text in the file it was writing
  (\<open>Some t\<close>), or leave it untouched (\<open>None\<close>). The rename is atomic: a process killed
  at the rename dies before it (\<open>Rename_killed\<close>) or after it (\<open>Renamed_killed\<close>).
\<close>

datatype write_fault =
    Write_ok
  | Write_fails js_error "file_text option"
  | Write_killed "file_text option"

datatype rename_fault = Rename_ok | Rename_fails js_error | Rename_killed | Renamed_killed

record faults =
  read_fault :: "js_error option"
  write_fault :: write_fault
  rename_fault :: rename_fault

definition no_faults :: faults where
  "no_faults = \<lparr>read_fault = None, write_fault = Write_ok, rename_fault = Rename_ok\<rparr>"

definition DATA_DIR :: string where
  "DATA_DIR = ''data''"

text \<open>\<open>path.join\<close> on a directory and a plain file name.\<close>

definition path_join :: "string \<Rightarrow> string \<Rightarrow> string" where
  "path_join dir name = dir @ ''/'' @ name"

definition existsSync :: "state \<Rightarrow> string \<Rightarrow> bool" where
  "existsSync s p = (files s p \<noteq> None)"

definition readFileSync :: "faults \<Rightarrow> state \<Rightarrow> string \<Rightarrow> file_text outcome" where
  "readFileSync fl s p =
     (case read_fault fl of
        Some e \<Rightarrow> Throw e
      | None \<Rightarrow> (case files s p of
                   None \<Rightarrow> Throw (SystemError ''ENOENT'')
                 | Some t \<Rightarrow> Return t))"

definition writeFileSync :: "faults \<Rightarrow> state \<Rightarrow> string \<Rightarrow> file_text \<Rightarrow> unit outcome \<times> state" where
  "writeFileSync fl s p t =
     (case write_fault fl of
        Write_ok \<Rightarrow> (Return (), s\<lparr>files := (files s)(p \<mapsto> t)\<rparr>)
      | Write_fails e None \<Rightarrow> (Throw e, s)
      | Write_fails e (Some t') \<Rightarrow> (Throw e, s\<lparr>files := (files s)(p \<mapsto> t')\<rparr>)
      | Write_killed None \<Rightarrow> (Crash, s)
      | Write_killed (Some t') \<Rightarrow> (Crash, s\<lparr>files := (files s)(p \<mapsto> t')\<rparr>))"

definition renameSync :: "faults \<Rightarrow> state \<Rightarrow> string \<Rightarrow> string \<Rightarrow> unit outcome \<times> state" where
  "renameSync fl s src dst =
     (case rename_fault fl of
        Rename_ok \<Rightarrow>
          (case files s src of
             None \<Rightarrow> (Throw (SystemError ''ENOENT''), s)
           | Some t \<Rightarrow> (Return (), s\<lparr>files := ((files s)(src := None))(dst \<mapsto> t)\<rparr>))
      | Rename_fails e \<Rightarrow> (Throw e, s)
      | Rename_killed \<Rightarrow> (Crash, s)
      | Renamed_killed \<Rightarrow>
          (case files s src of
             None \<Rightarrow> (Crash, s)
           | Some t \<Rightarrow> (Crash, s\<lparr>files := ((files s)(src := None))(dst \<mapsto> t)\<rparr>)))"

definition unlinkSync :: "state \<Rightarrow> string \<Rightarrow> unit outcome \<times> state" where
  "unlinkSync s p =
     (case files s p of
        None \<Rightarrow> (Throw (SystemError ''ENOENT''), s)
      | Some t \<Rightarrow> (Return (), s\<lparr>files := (files s)(p := None)\<rparr>))"

definition console_error :: "state \<Rightarrow> string \<Rightarrow> js_error \<Rightarrow> state" where
  "console_error s msg e = s\<lparr>console := console s @ [(msg, e)]\<rparr>"

section \<open>read\<close>

text \<open>The body of the \<open>try\<close> block of \<open>read\<close>.\<close>

definition read_try :: "faults \<Rightarrow> state \<Rightarrow> string \<Rightarrow> json \<Rightarrow> json outcome" where
  "read_try fl s filepath defaultValue =
     (if \<not> existsSync s filepath then Return defaultValue
      else (case readFileSync fl s filepath of
              Return data \<Rightarrow> JSON_parse data
            | Throw e \<Rightarrow> Throw e
            | Crash \<Rightarrow> Crash))"

definition read :: "faults \<Rightarrow> state \<Rightarrow> string \<Rightarrow> json \<Rightarrow> json outcome \<times> state" where
  "read fl s filename defaultValue =
     (let filepath = path_join DATA_DIR filename in
      case read_try fl s filepath defaultValue of
        Throw error \<Rightarrow>
          (Return defaultValue, console_error s (''Error reading '' @ filename @ '':'') error)
      | r \<Rightarrow> (r, s))"

section \<open>The per-file lock and write\<close>

text \<open>
  \<open>acquireLock\<close> polls the lock every 10 ms until it is free and then takes it. A call
  taken alone, with nothing else running that could release the lock, polls for ever when
  the lock is held: the loop is a partial function and not returning is \<open>None\<close>. The
  calls that run side by side are the subject of the event-loop model further down.
\<close>

partial_function (option) acquireLock :: "state \<Rightarrow> string \<Rightarrow> state option" where
  "acquireLock s filename =
     (if fileLocks s filename = Some True then acquireLock s filename
      else Some (s\<lparr>fileLocks := (fileLocks s)(filename \<mapsto> True)\<rparr>))"

definition releaseLock :: "state \<Rightarrow> string \<Rightarrow> state" where
  "releaseLock s filename = s\<lparr>fileLocks := (fileLocks s)(filename := None)\<rparr>"

text \<open>A number in decimal, as string concatenation and property keys render it.\<close>

definition digit :: "nat \<Rightarrow> char" where
  "digit d = char_of (48 + d)"

fun decimal :: "nat \<Rightarrow> string" where
  "decimal n = (if n < 10 then [digit n] else decimal (n div 10) @ [digit (n mod 10)])"

text \<open>The path of the temporary file: \<open>filepath + '.tmp.' + Date.now()\<close>.\<close>

definition temp_path :: "string \<Rightarrow> nat \<Rightarrow> string" where
  "temp_path filepath now = filepath @ ''.tmp.'' @ decimal now"

text \<open>The \<open>try\<close> block of \<open>write\<close>: the temporary file, then the rename.\<close>

definition write_try :: "faults \<Rightarrow> state \<Rightarrow> string \<Rightarrow> string \<Rightarrow> json \<Rightarrow> unit outcome \<times> state" where
  "write_try fl s tempPath filepath data =
     (case writeFileSync fl s tempPath (JSON_stringify data) of
        (Return u, s1) \<Rightarrow> renameSync fl s1 tempPath filepath
      | (Throw e, s1) \<Rightarrow> (Throw e, s1)
      | (Crash, s1) \<Rightarrow> (Crash, s1))"

text \<open>
  The \<open>catch\<close> block: log, remove the temporary file if there is one, rethrow. The
  \<open>unlinkSync\<close> of a file that \<open>existsSync\<close> has just seen is taken to succeed.
\<close>

definition write_catch :: "state \<Rightarrow> string \<Rightarrow> string \<Rightarrow> js_error \<Rightarrow> unit outcome \<times> state" where
  "write_catch s filename tempPath error =
     (let s1 = console_error s (''Error writing '' @ filename @ '':'') error in
      if existsSync s1 tempPath then
        (case unlinkSync s1 tempPath of
           (Return u, s2) \<Rightarrow> (Throw error, s2)
         | (Throw e, s2) \<Rightarrow> (Throw e, s2)
         | (Crash, s2) \<Rightarrow> (Crash, s2))
      else (Throw error, s1))"

text \<open>
  \<open>write\<close> from the point where the lock is held: \<open>try\<close>, \<open>catch\<close>, and the
  \<open>finally\<close> that releases the lock (a killed process runs no \<open>finally\<close>).
\<close>

definition write_locked ::
  "faults \<Rightarrow> state \<Rightarrow> string \<Rightarrow> string \<Rightarrow> string \<Rightarrow> json \<Rightarrow> unit outcome \<times> state" where
  "write_locked fl s filename tempPath filepath data =
     (case (case write_try fl s tempPath filepath data of
              (Throw error, s1) \<Rightarrow> write_catch s1 filename tempPath error
            | (Return u, s1) \<Rightarrow> (Return u, s1)
            | (Crash, s1) \<Rightarrow> (Crash, s1)) of
        (Crash, s2) \<Rightarrow> (Crash, s2)
      | (Return u, s2) \<Rightarrow> (Return u, releaseLock s2 filename)
      | (Throw e, s2) \<Rightarrow> (Throw e, releaseLock s2 filename))"

definition write_data :: "faults \<Rightarrow> nat \<Rightarrow> state \<Rightarrow> string \<Rightarrow> json \<Rightarrow> (unit outcome \<times> state) option" where
  "write_data fl now s filename data =
     (let filepath = path_join DATA_DIR filename;
          tempPath = temp_path filepath now in
      case acquireLock s filename of
        None \<Rightarrow> None
      | Some s1 \<Rightarrow> Some (write_locked fl s1 filename tempPath filepath data))"

section \<open>Array methods on what read returned\<close>

text \<open>
  \<open>read\<close> returns whatever the file parses to. The array methods exist on arrays only:
  on any other value the call is a \<open>TypeError\<close>.
\<close>

text \<open>The engine's message for reading a property of \<open>null\<close>.\<close>

definition null_read :: "string \<Rightarrow> js_error" where
  "null_read k =
     TypeError (''Cannot read properties of null (reading '' @ [CHR 0x27] @ k @ [CHR 0x27] @ '')'')"

definition not_an_array :: "string \<Rightarrow> js_error" where
  "not_an_array method = TypeError (''data.'' @ method @ '' is not a function'')"

fun array_of :: "string \<Rightarrow> json \<Rightarrow> json list outcome" where
  "array_of method (JArr xs) = Return xs"
| "array_of method JNull = Throw (null_read method)"
| "array_of method v = Throw (not_an_array method)"

text \<open>\<open>findIndex\<close>: the index of the first element the predicate holds for, or -1.\<close>

fun findIndex :: "('a \<Rightarrow> bool) \<Rightarrow> 'a list \<Rightarrow> int" where
  "findIndex P [] = - 1"
| "findIndex P (x # xs) =
     (if P x then 0 else (let i = findIndex P xs in if i = - 1 then - 1 else i + 1))"

text \<open>
  The own enumerable properties an object spread copies: those of an object, the indices
  of an array or of a string, none of a number, a boolean or \<open>null\<close>.
\<close>

fun own_props :: "json \<Rightarrow> (string \<times> json) list" where
  "own_props (JObj kvs) = kvs"
| "own_props (JArr xs) = zip (map decimal [0..<length xs]) xs"
| "own_props (JStr s) = zip (map decimal [0..<length s]) (map (\<lambda>c. JStr [c]) s)"
| "own_props v = []"

text \<open>Setting a property: an existing key keeps its place, a new one goes last.\<close>

fun set_prop :: "string \<Rightarrow> json \<Rightarrow> (string \<times> json) list \<Rightarrow> (string \<times> json) list" where
  "set_prop k v [] = [(k, v)]"
| "set_prop k v ((k', v') # kvs) =
     (if k = k' then (k, v) # kvs else (k', v') # set_prop k v kvs)"

definition copy_props :: "(string \<times> json) list \<Rightarrow> (string \<times> json) list \<Rightarrow> (string \<times> json) list" where
  "copy_props src target = fold (\<lambda>(k, v) acc. set_prop k v acc) src target"

text \<open>\<open>{ ...a, ...b }\<close>\<close>

definition spread2 :: "json \<Rightarrow> json \<Rightarrow> json" where
  "spread2 a b = JObj (copy_props (own_props b) (copy_props (own_props a) []))"

section \<open>insert, update, remove\<close>

definition insert_item :: "faults \<Rightarrow> nat \<Rightarrow> state \<Rightarrow> string \<Rightarrow> json \<Rightarrow> (json outcome \<times> state) option" where
  "insert_item fl now s filename item =
     (case read fl s filename (JArr []) of
        (Throw e, s1) \<Rightarrow> Some (Throw e, s1)
      | (Crash, s1) \<Rightarrow> Some (Crash, s1)
      | (Return data, s1) \<Rightarrow>
          (case array_of ''push'' data of
             Throw e \<Rightarrow> Some (Throw e, s1)
           | Crash \<Rightarrow> Some (Crash, s1)
           | Return xs \<Rightarrow>
               (case write_data fl now s1 filename (JArr (xs @ [item])) of
                  None \<Rightarrow> None
                | Some (Return u, s2) \<Rightarrow> Some (Return item, s2)
                | Some (Throw e, s2) \<Rightarrow> Some (Throw e, s2)
                | Some (Crash, s2) \<Rightarrow> Some (Crash, s2))))"

definition update_item ::
  "faults \<Rightarrow> nat \<Rightarrow> state \<Rightarrow> string \<Rightarrow> (json \<Rightarrow> bool) \<Rightarrow> json \<Rightarrow> (json outcome \<times> state) option" where
  "update_item fl now s filename predicate updates =
     (case read fl s filename (JArr []) of
        (Throw e, s1) \<Rightarrow> Some (Throw e, s1)
      | (Crash, s1) \<Rightarrow> Some (Crash, s1)
      | (Return data, s1) \<Rightarrow>
          (case array_of ''findIndex'' data of
             Throw e \<Rightarrow> Some (Throw e, s1)
           | Crash \<Rightarrow> Some (Crash, s1)
           | Return xs \<Rightarrow>
               (let index = findIndex predicate xs in
                if index = - 1 then Some (Return JNull, s1)
                else
                  (let merged = spread2 (xs ! nat index) updates in
                   case write_data fl now s1 filename (JArr (xs[nat index := merged])) of
                     None \<Rightarrow> None
                   | Some (Return u, s2) \<Rightarrow> Some (Return merged, s2)
                   | Some (Throw e, s2) \<Rightarrow> Some (Throw e, s2)
                   | Some (Crash, s2) \<Rightarrow> Some (Crash, s2)))))"

definition remove_item ::
  "faults \<Rightarrow> nat \<Rightarrow> state \<Rightarrow> string \<Rightarrow> (json \<Rightarrow> bool) \<Rightarrow> (bool outcome \<times> state) option" where
  "remove_item fl now s filename predicate =
     (case read fl s filename (JArr []) of
        (Throw e, s1) \<Rightarrow> Some (Throw e, s1)
      | (Crash, s1) \<Rightarrow> Some (Crash, s1)
      | (Return data, s1) \<Rightarrow>
          (case array_of ''findIndex'' data of
             Throw e \<Rightarrow> Some (Throw e, s1)
           | Crash \<Rightarrow> Some (Crash, s1)
           | Return xs \<Rightarrow>
               (let index = findIndex predicate xs in
                if index = - 1 then Some (Return False, s1)
                else
                  (case write_data fl now s1 filename (JArr (take (nat index) xs @ drop (nat index + 1) xs)) of
                     None \<Rightarrow> None
                   | Some (Return u, s2) \<Rightarrow> Some (Return True, s2)
                   | Some (Throw e, s2) \<Rightarrow> Some (Throw e, s2)
                   | Some (Crash, s2) \<Rightarrow> Some (Crash, s2)))))"

section \<open>paginate\<close>

text \<open>
  Property access \<open>v[k]\<close> on a JSON value, own properties only: \<open>undefined\<close> where the
  value has no such property, a \<open>TypeError\<close> on \<open>null\<close>. The names a value inherits
  from its prototype, such as \<open>toString\<close>, are outside the model; none of the names
  the code reads of a JSON value is one (the sort fields \<open>createdAt\<close> and \<open>title\<close>,
  and \<open>error\<close>, \<open>message\<close>, \<open>choices\<close>, \<open>0\<close>, \<open>content\<close>, \<open>userId\<close>).
\<close>

definition index_of_key :: "string \<Rightarrow> nat \<Rightarrow> nat option" where
  "index_of_key k n = List.find (\<lambda>i. decimal i = k) [0..<n]"

fun get_prop :: "json \<Rightarrow> string \<Rightarrow> json option outcome" where
  "get_prop JNull k = Throw (null_read k)"
| "get_prop (JObj kvs) k = Return (map_of kvs k)"
| "get_prop (JArr xs) k =
     Return (if k = ''length'' then Some (JNum (int (length xs)))
             else map_option (\<lambda>i. xs ! i) (index_of_key k (length xs)))"
| "get_prop (JStr s) k =
     Return (if k = ''length'' then Some (JNum (int (length s)))
             else map_option (\<lambda>i. JStr [s ! i]) (index_of_key k (length s)))"
| "get_prop (JBool b) k = Return None"
| "get_prop (JNum n) k = Return None"

text \<open>A number as arithmetic yields it: an integer, \<open>Infinity\<close> or \<open>NaN\<close>.\<close>

datatype js_number = Finite int | Infinity | NaN

text \<open>
  \<open>ToNumber\<close> where it needs no parsing: \<open>undefined\<close>, \<open>null\<close>, booleans and numbers.
  A string, an array or an object goes through string conversion; the model leaves that
  to the caller (\<open>None\<close>).
\<close>

fun to_number :: "json option \<Rightarrow> js_number option" where
  "to_number None = Some NaN"
| "to_number (Some JNull) = Some (Finite 0)"
| "to_number (Some (JBool b)) = Some (Finite (if b then 1 else 0))"
| "to_number (Some (JNum n)) = Some (Finite n)"
| "to_number (Some v) = None"

fun number_gt :: "js_number \<Rightarrow> js_number \<Rightarrow> bool" where
  "number_gt (Finite x) (Finite y) = (y < x)"
| "number_gt Infinity (Finite y) = True"
| "number_gt x y = False"

text \<open>Strings compare by their code units, the first difference deciding.\<close>

fun string_lt :: "string \<Rightarrow> string \<Rightarrow> bool" where
  "string_lt [] [] = False"
| "string_lt [] (y # ys) = True"
| "string_lt (x # xs) [] = False"
| "string_lt (x # xs) (y # ys) =
     ((of_char x :: nat) < of_char y \<or> (x = y \<and> string_lt xs ys))"

text \<open>
  \<open>a > b\<close>. Two strings compare as strings, and values that convert to numbers without
  parsing compare as numbers (anything against \<open>NaN\<close> is false). The comparisons that
  need a string parsed as a number, or an array or object converted to a string, are
  answered by the parameter \<open>conv_gt\<close>: the results below hold whatever it answers.
\<close>

definition js_gt ::
  "(json option \<Rightarrow> json option \<Rightarrow> bool) \<Rightarrow> json option \<Rightarrow> json option \<Rightarrow> bool" where
  "js_gt conv_gt a b =
     (case (a, b) of
        (Some (JStr x), Some (JStr y)) \<Rightarrow> string_lt y x
      | _ \<Rightarrow> (case (to_number a, to_number b) of
                 (Some x, Some y) \<Rightarrow> number_gt x y
               | _ \<Rightarrow> conv_gt a b))"

record sort_spec =
  field :: string
  order :: string

text \<open>The comparison function \<open>paginate\<close> hands to \<open>sort\<close>.\<close>

definition compare_fn ::
  "(json option \<Rightarrow> json option \<Rightarrow> bool) \<Rightarrow> sort_spec \<Rightarrow> json \<Rightarrow> json \<Rightarrow> int outcome" where
  "compare_fn conv_gt sortSpec a b =
     (if order sortSpec = ''desc'' then
        (case get_prop b (field sortSpec) of
           Throw e \<Rightarrow> Throw e
         | Crash \<Rightarrow> Crash
         | Return fb \<Rightarrow>
             (case get_prop a (field sortSpec) of
                Throw e \<Rightarrow> Throw e
              | Crash \<Rightarrow> Crash
              | Return fa \<Rightarrow> Return (if js_gt conv_gt fb fa then 1 else - 1)))
      else
        (case get_prop a (field sortSpec) of
           Throw e \<Rightarrow> Throw e
         | Crash \<Rightarrow> Crash
         | Return fa \<Rightarrow>
             (case get_prop b (field sortSpec) of
                Throw e \<Rightarrow> Throw e
              | Crash \<Rightarrow> Crash
              | Return fb \<Rightarrow> Return (if js_gt conv_gt fa fb then 1 else - 1))))"

text \<open>
  \<open>Array.prototype.sort\<close> with a comparison function, as the engine (V8) sorts an array
  of fewer than 64 elements. It takes the longest run at the start of the array that is
  ascending (each element compares \<open>>= 0\<close> with the one before it) or strictly descending
  (each compares \<open>< 0\<close>), which of the two decided by the first two elements, and
  reverses a descending run. Then it puts each further element into the sorted part by
  binary search: it goes left of the middle element when it compares \<open>< 0\<close> with it,
  right of it otherwise.

  A longer array the engine cuts into runs of 32 to 64 elements, made in this way, and
  merges them. The model sorts every array as one run: it is the engine's sort for
  arrays of up to 63 elements. Where the comparison function answers -1 both ways round
  for two elements, as the one of \<open>paginate\<close> does for keys neither of which is greater,
  the place of such elements in a longer array is the engine's and is not modelled.
\<close>

fun extend_run ::
  "('a \<Rightarrow> 'a \<Rightarrow> int outcome) \<Rightarrow> bool \<Rightarrow> 'a \<Rightarrow> 'a list \<Rightarrow> ('a list \<times> 'a list) outcome" where
  "extend_run cmp descending previous [] = Return ([], [])"
| "extend_run cmp descending previous (current # rest) =
     (case cmp current previous of
        Throw e \<Rightarrow> Throw e
      | Crash \<Rightarrow> Crash
      | Return ord \<Rightarrow>
          if (if descending then 0 \<le> ord else ord < 0) then Return ([], current # rest)
          else
            (case extend_run cmp descending current rest of
               Return (run, left) \<Rightarrow> Return (current # run, left)
             | Throw e \<Rightarrow> Throw e
             | Crash \<Rightarrow> Crash))"

fun count_and_make_run ::
  "('a \<Rightarrow> 'a \<Rightarrow> int outcome) \<Rightarrow> 'a list \<Rightarrow> ('a list \<times> 'a list) outcome" where
  "count_and_make_run cmp [] = Return ([], [])"
| "count_and_make_run cmp [x] = Return ([x], [])"
| "count_and_make_run cmp (x0 # x1 # rest) =
     (case cmp x1 x0 of
        Throw e \<Rightarrow> Throw e
      | Crash \<Rightarrow> Crash
      | Return ord \<Rightarrow>
          (case extend_run cmp (ord < 0) x1 rest of
             Return (run, left) \<Rightarrow>
               Return (if ord < 0 then rev (x0 # x1 # run) else x0 # x1 # run, left)
           | Throw e \<Rightarrow> Throw e
           | Crash \<Rightarrow> Crash))"

function binary_search ::
  "('a \<Rightarrow> 'a \<Rightarrow> int outcome) \<Rightarrow> 'a \<Rightarrow> 'a list \<Rightarrow> nat \<Rightarrow> nat \<Rightarrow> nat outcome" where
  "binary_search cmp pivot xs left right =
     (if left < right then
        (case cmp pivot (xs ! (left + (right - left) div 2)) of
           Throw e \<Rightarrow> Throw e
         | Crash \<Rightarrow> Crash
         | Return ord \<Rightarrow>
             if ord < 0 then binary_search cmp pivot xs left (left + (right - left) div 2)
             else binary_search cmp pivot xs (left + (right - left) div 2 + 1) right)
      else Return left)"
  by pat_completeness auto
termination
  by (relation "measure (\<lambda>(cmp, pivot, xs, left, right). right - left)") auto

fun binary_insertion_sort ::
  "('a \<Rightarrow> 'a \<Rightarrow> int outcome) \<Rightarrow> 'a list \<Rightarrow> 'a list \<Rightarrow> 'a list outcome" where
  "binary_insertion_sort cmp run [] = Return run"
| "binary_insertion_sort cmp run (pivot # rest) =
     (case binary_search cmp pivot run 0 (length run) of
        Return left \<Rightarrow> binary_insertion_sort cmp (take left run @ pivot # drop left run) rest
      | Throw e \<Rightarrow> Throw e
      | Crash \<Rightarrow> Crash)"

definition array_sort :: "('a \<Rightarrow> 'a \<Rightarrow> int outcome) \<Rightarrow> 'a list \<Rightarrow> 'a list outcome" where
  "array_sort cmp xs =
     (if length xs < 2 then Return xs
      else (case count_and_make_run cmp xs of
              Return (run, rest) \<Rightarrow> binary_insertion_sort cmp run rest
            | Throw e \<Rightarrow> Throw e
            | Crash \<Rightarrow> Crash))"

text \<open>\<open>xs.slice(start, end)\<close>: a negative index counts from the end of the array.\<close>

definition slice :: "'a list \<Rightarrow> int \<Rightarrow> int \<Rightarrow> 'a list" where
  "slice xs start end' =
     (let len = int (length xs);
          k = (if start < 0 then max (len + start) 0 else min start len);
          final = (if end' < 0 then max (len + end') 0 else min end' len)
      in take (nat (final - k)) (drop (nat k) xs))"

text \<open>\<open>Math.ceil(total / limit)\<close> for a length and an integer.\<close>

definition ceil_div :: "nat \<Rightarrow> int \<Rightarrow> js_number" where
  "ceil_div n d =
     (if d = 0 then (if n = 0 then NaN else Infinity)
      else Finite (- ((- int n) div d)))"

record page_result =
  items :: "json list"
  page :: int
  limit :: int
  total :: nat
  totalPages :: js_number

definition sort_data ::
  "(json option \<Rightarrow> json option \<Rightarrow> bool) \<Rightarrow> sort_spec option \<Rightarrow> json list \<Rightarrow> json list outcome" where
  "sort_data conv_gt sortSpec data =
     (case sortSpec of
        None \<Rightarrow> Return data
      | Some so \<Rightarrow> array_sort (compare_fn conv_gt so) data)"

definition paginate ::
  "(json option \<Rightarrow> json option \<Rightarrow> bool) \<Rightarrow> faults \<Rightarrow> state \<Rightarrow> string \<Rightarrow> (json \<Rightarrow> bool) \<Rightarrow>
   int \<Rightarrow> int \<Rightarrow> sort_spec option \<Rightarrow> page_result outcome \<times> state" where
  "paginate conv_gt fl s filename predicate pageNumber pageSize sortSpec =
     (case read fl s filename (JArr []) of
        (Throw e, s1) \<Rightarrow> (Throw e, s1)
      | (Crash, s1) \<Rightarrow> (Crash, s1)
      | (Return data0, s1) \<Rightarrow>
          (case array_of ''filter'' data0 of
             Throw e \<Rightarrow> (Throw e, s1)
           | Crash \<Rightarrow> (Crash, s1)
           | Return xs \<Rightarrow>
               (case sort_data conv_gt sortSpec (filter predicate xs) of
                  Throw e \<Rightarrow> (Throw e, s1)
                | Crash \<Rightarrow> (Crash, s1)
                | Return data \<Rightarrow>
                    (let total_n = length data;
                         total_pages = ceil_div total_n pageSize;
                         start = (pageNumber - 1) * pageSize;
                         page_items = slice data start (start + pageSize)
                     in (Return \<lparr>items = page_items, page = pageNumber, limit = pageSize,
                                  total = total_n, totalPages = total_pages\<rparr>, s1)))))"

text \<open>The sort key of a record, \<open>r[field]\<close>, for stating the order of a sorted page.\<close>

definition sort_key :: "string \<Rightarrow> json \<Rightarrow> json option" where
  "sort_key f r = (case get_prop r f of Return v \<Rightarrow> v | _ \<Rightarrow> None)"

fun is_text :: "json option \<Rightarrow> bool" where
  "is_text (Some (JStr s)) = True"
| "is_text v = False"

text \<open>
  The values \<open>></\<close> compares as numbers without parsing anything: numbers, \<open>null\<close>
  (as 0) and booleans (as 0 and 1).
\<close>

fun is_number_like :: "json option \<Rightarrow> bool" where
  "is_number_like (Some (JNum n)) = True"
| "is_number_like (Some JNull) = True"
| "is_number_like (Some (JBool b)) = True"
| "is_number_like v = False"

text \<open>
  \<open>></\<close> orders a list of keys: of two keys never each is greater than the other, and
  when \<open>a\<close> is not greater than \<open>b\<close> and \<open>b\<close> not greater than \<open>c\<close> then \<open>a\<close> is not
  greater than \<open>c\<close>.
\<close>

definition gt_orders :: "(json option \<Rightarrow> json option \<Rightarrow> bool) \<Rightarrow> json option list \<Rightarrow> bool" where
  "gt_orders conv_gt ks =
     ((\<forall>a\<in>set ks. \<forall>b\<in>set ks. \<not> (js_gt conv_gt a b \<and> js_gt conv_gt b a)) \<and>
      (\<forall>a\<in>set ks. \<forall>b\<in>set ks. \<forall>c\<in>set ks.
         \<not> js_gt conv_gt a b \<and> \<not> js_gt conv_gt b c \<longrightarrow> \<not> js_gt conv_gt a c))"

section \<open>The AI gateway: chat\<close>

text \<open>The keys and identifiers of \<open>AI_MODELS\<close>.\<close>

definition AI_MODELS :: "(string \<times> string) list" where
  "AI_MODELS =
     [(''deepseek-v3'', ''deepseek/deepseek-v3.2:thinking''),
      (''glm-4-7'', ''zai-org/glm-4.7:thinking''),
      (''llama-3-1-405b'', ''Meta-Llama-3-1-405B-Instruct-FP8''),
      (''llama-4-maverick'', ''llama-4-maverick''),
      (''llama-3-3-70b'', ''llama-3.3-70b''),
      (''minimax-m2'', ''minimax/minimax-m2.1''),
      (''mistral-large'', ''mistralai/mistral-large-3-675b-instruct-2512''),
      (''mistral-small'', ''mistral-small-31''),
      (''glm-4-5-air'', ''glm-4.5-air''),
      (''gpt-oss-120b'', ''gpt-oss-120b''),
      (''gpt-oss-20b'', ''gpt-oss-20b''),
      (''mimo-v2'', ''mimo-v2-flash-thinking''),
      (''kimi-k2'', ''moonshotai/kimi-k2-thinking'')]"

text \<open>
  The names \<open>AI_MODELS\<close> inherits from \<open>Object.prototype\<close>. Under each of them
  \<open>AI_MODELS[modelKey]\<close> finds a function, or the prototype itself under \<open>__proto__\<close>:
  a truthy value without an \<open>id\<close>.
\<close>

definition Object_prototype_names :: "string list" where
  "Object_prototype_names =
     [''constructor'', ''__defineGetter__'', ''__defineSetter__'', ''hasOwnProperty'',
      ''__lookupGetter__'', ''__lookupSetter__'', ''isPrototypeOf'', ''propertyIsEnumerable'',
      ''toString'', ''valueOf'', ''__proto__'', ''toLocaleString'']"

text \<open>
  \<open>AI_MODELS[modelKey]\<close>: \<open>None\<close> is \<open>undefined\<close>; otherwise the \<open>id\<close> of what was found,
  \<open>None\<close> when it has none.
\<close>

definition lookup_model :: "string \<Rightarrow> string option option" where
  "lookup_model modelKey =
     (case map_of AI_MODELS modelKey of
        Some model_id \<Rightarrow> Some (Some model_id)
      | None \<Rightarrow> if modelKey \<in> set Object_prototype_names then Some None else None)"

text \<open>How the promise \<open>chat\<close> returns settles; \<open>Resolved None\<close> is \<open>resolve(undefined)\<close>.\<close>

datatype settlement = Resolved "json option" | Rejected js_error

text \<open>What the HTTPS request does: a response with status and body, an error, a timeout.\<close>

datatype net_reply = Response int file_text | Net_error string | Net_timeout

fun message :: "js_error \<Rightarrow> string" where
  "message (Error m) = m"
| "message (SyntaxError m) = m"
| "message (TypeError m) = m"
| "message (SystemError m) = m"

definition decimal_int :: "int \<Rightarrow> string" where
  "decimal_int i = (if 0 \<le> i then decimal (nat i) else CHR ''-'' # decimal (nat (- i)))"

text \<open>
  \<open>String(v)\<close>, the message \<open>new Error(v)\<close> gets: an array is its elements joined by
  commas (\<open>null\<close> as the empty string), an object is \<open>[object Object]\<close>.
\<close>

fun to_String :: "json \<Rightarrow> string" where
  "to_String JNull = ''null''"
| "to_String (JBool b) = (if b then ''true'' else ''false'')"
| "to_String (JNum n) = decimal_int n"
| "to_String (JStr s) = s"
| "to_String (JObj kvs) = ''[object Object]''"
| "to_String (JArr xs) =
     (case map (\<lambda>x. if x = JNull then [] else to_String x) xs of
        [] \<Rightarrow> []
      | y # ys \<Rightarrow> y @ concat (map (\<lambda>z. '','' @ z) ys))"

definition invalid_format :: "settlement" where
  "invalid_format = Rejected (Error ''Invalid API response format'')"

text \<open>
  The \<open>try\<close> block of the handler of the response's \<open>end\<close> event. It settles the promise
  (\<open>Return\<close>), or an exception leaves it (\<open>Throw\<close>): from \<open>JSON.parse\<close>, or from reading a
  property of \<open>null\<close>.
\<close>

definition chat_end_try :: "int \<Rightarrow> file_text \<Rightarrow> settlement outcome" where
  "chat_end_try statusCode data =
     (case JSON_parse data of
        Throw e \<Rightarrow> Throw e
      | Crash \<Rightarrow> Crash
      | Return response \<Rightarrow>
          if statusCode \<noteq> 200 then
            (case get_prop response ''error'' of
               Throw e \<Rightarrow> Throw e
             | Crash \<Rightarrow> Crash
             | Return None \<Rightarrow> Return (Rejected (Error (''API error: '' @ decimal_int statusCode)))
             | Return (Some JNull) \<Rightarrow> Return (Rejected (Error (''API error: '' @ decimal_int statusCode)))
             | Return (Some err) \<Rightarrow>
                 (case get_prop err ''message'' of
                    Throw e \<Rightarrow> Throw e
                  | Crash \<Rightarrow> Crash
                  | Return m \<Rightarrow>
                      (case m of
                         Some mv \<Rightarrow>
                           if truthy m then Return (Rejected (Error (to_String mv)))
                           else Return (Rejected (Error (''API error: '' @ decimal_int statusCode)))
                       | None \<Rightarrow> Return (Rejected (Error (''API error: '' @ decimal_int statusCode))))))
          else
            (case get_prop response ''choices'' of
               Throw e \<Rightarrow> Throw e
             | Crash \<Rightarrow> Crash
             | Return None \<Rightarrow> Return invalid_format
             | Return (Some choices) \<Rightarrow>
                 if \<not> truthy (Some choices) then Return invalid_format
                 else
                   (case get_prop choices ''0'' of
                      Throw e \<Rightarrow> Throw e
                    | Crash \<Rightarrow> Crash
                    | Return None \<Rightarrow> Return invalid_format
                    | Return (Some choice) \<Rightarrow>
                        if \<not> truthy (Some choice) then Return invalid_format
                        else
                          (case get_prop choice ''message'' of
                             Throw e \<Rightarrow> Throw e
                           | Crash \<Rightarrow> Crash
                           | Return None \<Rightarrow> Return invalid_format
                           | Return (Some msg) \<Rightarrow>
                               if \<not> truthy (Some msg) then Return invalid_format
                               else
                                 (case get_prop msg ''content'' of
                                    Throw e \<Rightarrow> Throw e
                                  | Crash \<Rightarrow> Crash
                                  | Return content \<Rightarrow> Return (Resolved content))))))"

text \<open>The handler with its \<open>catch\<close>: an exception rejects the promise.\<close>

definition chat_end :: "int \<Rightarrow> file_text \<Rightarrow> settlement outcome" where
  "chat_end statusCode data =
     (case chat_end_try statusCode data of
        Return st \<Rightarrow> Return st
      | Throw e \<Rightarrow> Return (Rejected (Error (''Failed to parse API response: '' @ message e)))
      | Crash \<Rightarrow> Crash)"

text \<open>
  \<open>chat\<close>, given the value of \<open>NANO_API_KEY\<close> and what the request does. The model's
  \<open>id\<close>, the messages and the options only shape the request body.
\<close>

definition chat :: "string option \<Rightarrow> net_reply \<Rightarrow> string \<Rightarrow> settlement outcome" where
  "chat apiKey net modelKey =
     (case lookup_model modelKey of
        None \<Rightarrow> Return (Rejected (Error (''Invalid model key: '' @ modelKey)))
      | Some model \<Rightarrow>
          if apiKey = None \<or> apiKey = Some [] then
            Return (Rejected (Error ''NANO_API_KEY environment variable is not set''))
          else
            (case net of
               Response statusCode data \<Rightarrow> chat_end statusCode data
             | Net_error m \<Rightarrow> Return (Rejected (Error (''API request failed: '' @ m)))
             | Net_timeout \<Rightarrow> Return (Rejected (Error ''API request timed out''))))"

section \<open>Error responses\<close>

text \<open>\<open>Object.values\<close>\<close>

fun Object_values :: "json \<Rightarrow> json list" where
  "Object_values (JObj kvs) = map snd kvs"
| "Object_values (JArr xs) = xs"
| "Object_values (JStr s) = map (\<lambda>c. JStr [c]) s"
| "Object_values v = []"

text \<open>\<open>vs.map(e => e.message)\<close>; an \<open>undefined\<close> element is sent as \<open>null\<close> by \<open>res.json\<close>.\<close>

fun map_message :: "json list \<Rightarrow> json list outcome" where
  "map_message [] = Return []"
| "map_message (e # es) =
     (case get_prop e ''message'' of
        Throw err \<Rightarrow> Throw err
      | Crash \<Rightarrow> Crash
      | Return m \<Rightarrow>
          (case map_message es of
             Throw err \<Rightarrow> Throw err
           | Crash \<Rightarrow> Crash
           | Return ms \<Rightarrow> Return ((case m of None \<Rightarrow> JNull | Some v \<Rightarrow> v) # ms)))"

text \<open>\<open>a || b\<close>\<close>

definition or_else :: "json option \<Rightarrow> json \<Rightarrow> json" where
  "or_else a b = (case a of Some v \<Rightarrow> if truthy a then v else b | None \<Rightarrow> b)"

text \<open>
  \<open>errorHandler\<close>, given \<open>NODE_ENV\<close> and the error: the status and the body it sends.
  The error is an object; its \<open>name\<close>, \<open>message\<close> and the other fields are properties.
\<close>

definition errorHandler :: "string option \<Rightarrow> (string \<times> json) list \<Rightarrow> (json \<times> json) outcome" where
  "errorHandler node_env err =
     (let statusCode0 = or_else (map_of err ''statusCode'') (JNum 500);
          message0 = or_else (map_of err ''message'') (JStr ''Internal server error'');
          errors0 = or_else (map_of err ''errors'') (JArr []);
          validation = (map_of err ''name'' = Some (JStr ''ValidationError''))
      in case (if validation
               then map_message (Object_values (or_else (map_of err ''errors'') (JObj [])))
               else Return []) of
           Throw e \<Rightarrow> Throw e
         | Crash \<Rightarrow> Crash
         | Return mapped \<Rightarrow>
             (let statusCode1 = (if validation then JNum 400 else statusCode0);
                  message1 = (if validation then JStr ''Validation error'' else message0);
                  errors1 = (if validation then JArr mapped else errors0);
                  bad_json = (map_of err ''name'' = Some (JStr ''SyntaxError'') \<and>
                              map_of err ''status'' = Some (JNum 400) \<and>
                              ''body'' \<in> fst ` set err);
                  statusCode2 = (if bad_json then JNum 400 else statusCode1);
                  message2 = (if bad_json then JStr ''Invalid JSON'' else message1);
                  errors2 = (if bad_json then JArr [JStr ''Request body contains invalid JSON'']
                             else errors1);
                  hide = (node_env = Some ''production'' \<and> statusCode2 = JNum 500);
                  message3 = (if hide then JStr ''Internal server error'' else message2);
                  errors3 = (if hide then JArr [] else errors2)
              in Return (statusCode2,
                         JObj [(''success'', JBool False), (''message'', message3),
                               (''errors'', errors3)])))"

text \<open>
  \<open>authMiddleware\<close>, given \<open>req.session\<close>: the status and body it sends, or \<open>None\<close> when
  it calls \<open>next()\<close>. The test \<open>!req.session || !req.session.userId\<close> reads \<open>userId\<close>
  only of a session that is truthy.
\<close>

definition unauthenticated :: "int \<times> json" where
  "unauthenticated =
     (401, JObj [(''success'', JBool False),
                 (''message'', JStr ''Authentication required''),
                 (''errors'', JArr [JStr ''Please log in to access this resource''])])"

definition authMiddleware :: "json option \<Rightarrow> (int \<times> json) option outcome" where
  "authMiddleware session =
     (case session of
        None \<Rightarrow> Return (Some unauthenticated)
      | Some sv \<Rightarrow>
          if truthy (Some sv) then
            (case get_prop sv ''userId'' of
               Return userId \<Rightarrow>
                 if truthy userId then Return None else Return (Some unauthenticated)
             | Throw e \<Rightarrow> Throw e
             | Crash \<Rightarrow> Crash)
          else Return (Some unauthenticated))"

text \<open>The envelope: all four of \<open>success\<close>, \<open>data\<close>, \<open>message\<close> and \<open>errors\<close>.\<close>

fun is_string :: "json \<Rightarrow> bool" where
  "is_string (JStr s) = True"
| "is_string v = False"

definition has_envelope_shape :: "json \<Rightarrow> bool" where
  "has_envelope_shape body =
     (case body of
        JObj kvs \<Rightarrow>
          (case (map_of kvs ''success'', map_of kvs ''data'', map_of kvs ''message'',
                 map_of kvs ''errors'') of
             (Some (JBool b), Some (JObj d), Some (JStr m), Some (JArr es)) \<Rightarrow> list_all is_string es
           | _ \<Rightarrow> False)
      | _ \<Rightarrow> False)"

text \<open>
  The responses the routes send with \<open>res.json\<close>. Each call passes an object literal of
  one of two forms. The field values are a boolean, a string literal, the template
  \<^verbatim>\<open>`${deletedCount} lessons deleted`\<close>, an array literal of string literals, or an
  expression whose value is an object: an object literal, the result of \<open>paginate\<close>, or
  a variable bound to an object literal.
\<close>

datatype field_expr =
    Bool_lit bool
  | Str_lit string
  | Count_str string
  | Strs_lit "string list"
  | Obj_expr

text \<open>\<^verbatim>\<open>{ success: true, data: ..., message: ..., errors: [] }\<close>\<close>

definition ok_fields :: "field_expr \<Rightarrow> (string \<times> field_expr) list" where
  "ok_fields m =
     [(''success'', Bool_lit True), (''data'', Obj_expr), (''message'', m), (''errors'', Strs_lit [])]"

text \<open>\<^verbatim>\<open>{ success: false, message: ..., errors: [...] }\<close>\<close>

definition fail_fields :: "field_expr \<Rightarrow> string list \<Rightarrow> (string \<times> field_expr) list" where
  "fail_fields m es =
     [(''success'', Bool_lit False), (''message'', m), (''errors'', Strs_lit es)]"

text \<open>
  A response: the line of its \<open>.json(\<close> call in the file, the status (200 where the
  call sets none) and the fields of the object literal, in their order.
\<close>

datatype site = Site nat int "(string \<times> field_expr) list"

fun site_status :: "site \<Rightarrow> int" where
  "site_status (Site line_no st fs) = st"

text \<open>
  The value of a field, given the properties \<open>d\<close> of the object and the count \<open>n\<close>, and
  the body that goes out.
\<close>

fun field_value :: "(string \<times> json) list \<Rightarrow> nat \<Rightarrow> field_expr \<Rightarrow> json" where
  "field_value d n (Bool_lit b) = JBool b"
| "field_value d n (Str_lit m) = JStr m"
| "field_value d n (Count_str m) = JStr (decimal n @ m)"
| "field_value d n (Strs_lit es) = JArr (map JStr es)"
| "field_value d n Obj_expr = JObj d"

fun site_body :: "(string \<times> json) list \<Rightarrow> nat \<Rightarrow> site \<Rightarrow> json" where
  "site_body d n (Site line_no st fs) = JObj (map (\<lambda>(k, e). (k, field_value d n e)) fs)"

text \<open>
  In \<^verbatim>\<open>server/server.js\<close>: the body the rate limiter sends with its status 429
  (line 71), the health check and the 404 handler's JSON branch.
\<close>

definition server_sites :: "site list" where
  "server_sites =
     [Site 71 429 (fail_fields (Str_lit ''Too many requests, please try again later.'') []),
      Site 112 200 (ok_fields (Str_lit ''Server is running'')),
      Site 201 404 (fail_fields (Str_lit ''Not found'') [])]"

text \<open>
  The responses of the settings routes, which
  \<^verbatim>\<open>server/middleware/errorHandler.js\<close> holds below the handler.
\<close>

definition settings_sites :: "site list" where
  "settings_sites =
     [Site 58 404 (fail_fields (Str_lit ''User not found'') []),
      Site 65 200 (ok_fields (Str_lit ''Settings retrieved'')),
      Site 100 404 (fail_fields (Str_lit ''User not found'') []),
      Site 127 200 (ok_fields (Str_lit ''Settings updated'')),
      Site 160 200 (ok_fields (Str_lit ''Timezones retrieved'')),
      Site 180 404 (fail_fields (Str_lit ''User not found'') []),
      Site 190 400 (fail_fields (Str_lit ''Invalid password'') [''Password is incorrect'']),
      Site 242 200 (ok_fields (Str_lit ''Account deleted successfully''))]"

text \<open>The responses of \<^verbatim>\<open>server/routes/chat.js\<close>.\<close>

definition chat_sites :: "site list" where
  "chat_sites =
     [Site 35 200 (ok_fields (Str_lit ''Conversations retrieved'')),
      Site 57 404 (fail_fields (Str_lit ''Conversation not found'') []),
      Site 64 200 (ok_fields (Str_lit ''Conversation retrieved'')),
      Site 96 201 (ok_fields (Str_lit ''Conversation created'')),
      Site 116 400 (fail_fields (Str_lit ''Message content is required'') []),
      Site 128 404 (fail_fields (Str_lit ''Conversation not found'') []),
      Site 179 200 (ok_fields (Str_lit ''Message sent'')),
      Site 211 404 (fail_fields (Str_lit ''Conversation not found'') []),
      Site 219 400 (fail_fields (Str_lit ''No messages to regenerate'') []),
      Site 253 200 (ok_fields (Str_lit ''Response regenerated'')),
      Site 283 404 (fail_fields (Str_lit ''Conversation not found'') []),
      Site 290 200 (ok_fields (Str_lit ''Conversation updated'')),
      Site 312 404 (fail_fields (Str_lit ''Conversation not found'') []),
      Site 321 404 (fail_fields (Str_lit ''Message not found'') []),
      Site 333 200 (ok_fields (Str_lit ''Message deleted'')),
      Site 355 404 (fail_fields (Str_lit ''Conversation not found'') []),
      Site 362 200 (ok_fields (Str_lit ''Conversation deleted'')),
      Site 385 404 (fail_fields (Str_lit ''Conversation not found'') []),
      Site 392 200 (ok_fields (Str_lit ''Conversation cleared'')),
      Site 425 200 (ok_fields (Str_lit ''Prompts retrieved''))]"

text \<open>The responses of \<^verbatim>\<open>server/routes/quizzes.js\<close>.\<close>

definition quizzes_sites :: "site list" where
  "quizzes_sites =
     [Site 35 200 (ok_fields (Str_lit ''Quizzes retrieved'')),
      Site 57 404 (fail_fields (Str_lit ''Quiz not found'') []),
      Site 64 200 (ok_fields (Str_lit ''Quiz retrieved'')),
      Site 85 400 (fail_fields (Str_lit ''Validation error'') [''Subject is required'']),
      Site 134 201 (ok_fields (Str_lit ''Quiz generated successfully'')),
      Site 156 404 (fail_fields (Str_lit ''Quiz not found'') []),
      Site 164 400 (fail_fields (Str_lit ''Quiz already completed'')
         [''This quiz has already been completed'']),
      Site 182 200 (ok_fields (Str_lit ''Quiz started'')),
      Site 206 404 (fail_fields (Str_lit ''Quiz not found'') []),
      Site 214 400 (fail_fields (Str_lit ''Quiz already completed'')
         [''Cannot update answers for a completed quiz'']),
      Site 239 200 (ok_fields (Str_lit ''Answers saved'')),
      Site 263 404 (fail_fields (Str_lit ''Quiz not found'') []),
      Site 271 400 (fail_fields (Str_lit ''Quiz already completed'') []),
      Site 383 200 (ok_fields (Str_lit ''Quiz submitted successfully'')),
      Site 405 404 (fail_fields (Str_lit ''Quiz not found'') []),
      Site 413 400 (fail_fields (Str_lit ''Quiz not completed'')
         [''Complete the quiz to see results'']),
      Site 420 200 (ok_fields (Str_lit ''Results retrieved'')),
      Site 446 404 (fail_fields (Str_lit ''Quiz not found'') []),
      Site 475 201 (ok_fields (Str_lit ''Quiz retry created'')),
      Site 497 404 (fail_fields (Str_lit ''Quiz not found'') []),
      Site 504 200 (ok_fields (Str_lit ''Quiz deleted''))]"

text \<open>The responses of \<^verbatim>\<open>unnamed/part_000\<close>.\<close>

definition part_000_sites :: "site list" where
  "part_000_sites =
     [Site 39 200 (ok_fields (Str_lit ''Tests retrieved'')),
      Site 55 200 (ok_fields (Str_lit ''Sections retrieved'')),
      Site 74 404 (fail_fields (Str_lit ''Test not found'') []),
      Site 81 200 (ok_fields (Str_lit ''Test retrieved'')),
      Site 109 400 (fail_fields (Str_lit ''Validation error'')
         [''At least one section is required'']),
      Site 160 201 (ok_fields (Str_lit ''Practice test generated successfully'')),
      Site 182 404 (fail_fields (Str_lit ''Test not found'') []),
      Site 190 400 (fail_fields (Str_lit ''Test already completed'') []),
      Site 215 200 (ok_fields (Str_lit ''Test started'')),
      Site 240 404 (fail_fields (Str_lit ''Test not found'') []),
      Site 248 400 (fail_fields (Str_lit ''Invalid section'') []),
      Site 260 200 (ok_fields (Str_lit ''Answers saved'')),
      Site 285 404 (fail_fields (Str_lit ''Test not found'') []),
      Site 293 400 (fail_fields (Str_lit ''Invalid section'') []),
      Site 344 200 (ok_fields (Str_lit ''Section completed'')),
      Site 370 404 (fail_fields (Str_lit ''Test not found'') []),
      Site 448 200 (ok_fields (Str_lit ''Test submitted successfully'')),
      Site 475 404 (fail_fields (Str_lit ''Test not found'') []),
      Site 483 400 (fail_fields (Str_lit ''Test not completed'')
         [''Complete the test to see results'']),
      Site 490 200 (ok_fields (Str_lit ''Results retrieved'')),
      Site 517 404 (fail_fields (Str_lit ''Test not found'') []),
      Site 524 200 (ok_fields (Str_lit ''Test deleted''))]"

text \<open>The responses of \<^verbatim>\<open>unnamed/part_001\<close>.\<close>

definition part_001_sites :: "site list" where
  "part_001_sites =
     [Site 25 200 (ok_fields (Str_lit ''Study plans retrieved'')),
      Site 47 404 (fail_fields (Str_lit ''Study plan not found'') []),
      Site 54 200 (ok_fields (Str_lit ''Study plan retrieved'')),
      Site 87 400 (fail_fields (Str_lit ''Validation error'')
         [''Target score and test date are required'']),
      Site 133 201 (ok_fields (Str_lit ''Study plan generated successfully'')),
      Site 157 404 (fail_fields (Str_lit ''Study plan not found'') []),
      Site 181 200 (ok_fields (Str_lit ''Task completed'')),
      Site 205 404 (fail_fields (Str_lit ''Study plan not found'') []),
      Site 228 201 (ok_fields (Str_lit ''Task added'')),
      Site 252 404 (fail_fields (Str_lit ''Study plan not found'') []),
      Site 261 404 (fail_fields (Str_lit ''Task not found'') []),
      Site 279 200 (ok_fields (Str_lit ''Task updated'')),
      Site 301 404 (fail_fields (Str_lit ''Study plan not found'') []),
      Site 313 200 (ok_fields (Str_lit ''Task deleted'')),
      Site 342 404 (fail_fields (Str_lit ''Study plan not found'') []),
      Site 349 200 (ok_fields (Str_lit ''Study plan updated'')),
      Site 371 404 (fail_fields (Str_lit ''Study plan not found'') []),
      Site 378 200 (ok_fields (Str_lit ''Study plan deleted'')),
      Site 400 200 (ok_fields (Str_lit ''No active study plan'')),
      Site 435 200 (ok_fields (Str_lit ''Today's tasks retrieved''))]"

text \<open>The responses of \<^verbatim>\<open>unnamed/part_002\<close>.\<close>

definition part_002_sites :: "site list" where
  "part_002_sites =
     [Site 53 400 (fail_fields (Str_lit ''Validation error'')
         [''Username, email, and password are required'']),
      Site 61 400 (fail_fields (Str_lit ''Validation error'')
         [''Password must be at least 8 characters long'']),
      Site 74 400 (fail_fields (Str_lit ''User already exists'')
         [''A user with this email or username already exists'']),
      Site 141 201 (ok_fields (Str_lit ''Registration successful'')),
      Site 162 400 (fail_fields (Str_lit ''Validation error'')
         [''Email and password are required'']),
      Site 175 401 (fail_fields (Str_lit ''Invalid credentials'') [''Invalid email or password'']),
      Site 186 401 (fail_fields (Str_lit ''Invalid credentials'') [''Invalid email or password'']),
      Site 219 200 (ok_fields (Str_lit ''Login successful'')),
      Site 237 500 (fail_fields (Str_lit ''Logout failed'') [''Failed to destroy session'']),
      Site 245 200 (ok_fields (Str_lit ''Logout successful'')),
      Site 261 401 (fail_fields (Str_lit ''Not authenticated'') [''Please log in'']),
      Site 271 401 (fail_fields (Str_lit ''User not found'') [''User session is invalid'']),
      Site 280 200 (ok_fields (Str_lit ''User retrieved'')),
      Site 298 401 (fail_fields (Str_lit ''Not authenticated'') [''Please log in'']),
      Site 316 400 (fail_fields (Str_lit ''Email already in use'')
         [''This email is already associated with another account'']),
      Site 328 404 (fail_fields (Str_lit ''User not found'') []),
      Site 337 200 (ok_fields (Str_lit ''Profile updated'')),
      Site 355 401 (fail_fields (Str_lit ''Not authenticated'') [''Please log in'']),
      Site 363 400 (fail_fields (Str_lit ''No file uploaded'') [''Please select an image file'']),
      Site 388 200 (ok_fields (Str_lit ''Avatar uploaded'')),
      Site 406 401 (fail_fields (Str_lit ''Not authenticated'') [''Please log in'']),
      Site 416 400 (fail_fields (Str_lit ''Validation error'')
         [''Current password and new password are required'']),
      Site 424 400 (fail_fields (Str_lit ''Validation error'')
         [''New password must be at least 8 characters long'']),
      Site 434 404 (fail_fields (Str_lit ''User not found'') []),
      Site 444 400 (fail_fields (Str_lit ''Invalid password'')
         [''Current password is incorrect'']),
      Site 458 200 (ok_fields (Str_lit ''Password changed successfully''))]"

text \<open>The responses of \<^verbatim>\<open>unnamed/part_003\<close>.\<close>

definition part_003_sites :: "site list" where
  "part_003_sites =
     [Site 98 200 (ok_fields (Str_lit ''Lessons retrieved'')),
      Site 114 200 (ok_fields (Str_lit ''Topics retrieved'')),
      Site 127 200 (ok_fields (Str_lit ''Models retrieved'')),
      Site 146 404 (fail_fields (Str_lit ''Lesson not found'') []),
      Site 153 200 (ok_fields (Str_lit ''Lesson retrieved'')),
      Site 174 400 (fail_fields (Str_lit ''Validation error'') [''Subject is required'']),
      Site 183 400 (fail_fields (Str_lit ''Validation error'') [''Topic is required'']),
      Site 251 201 (ok_fields (Str_lit ''Lesson generated successfully'')),
      Site 281 404 (fail_fields (Str_lit ''Lesson not found'') []),
      Site 288 200 (ok_fields (Str_lit ''Lesson updated'')),
      Site 310 404 (fail_fields (Str_lit ''Lesson not found'') []),
      Site 317 200 (ok_fields (Str_lit ''Lesson deleted'')),
      Site 337 400 (fail_fields (Str_lit ''Validation error'') [''IDs array is required'']),
      Site 352 200 (ok_fields (Count_str '' lessons deleted''))]"

text \<open>The responses of \<^verbatim>\<open>unnamed/part_004\<close>.\<close>

definition part_004_sites :: "site list" where
  "part_004_sites =
     [Site 45 200 (ok_fields (Str_lit ''Flashcard decks retrieved'')),
      Site 67 404 (fail_fields (Str_lit ''Deck not found'') []),
      Site 74 200 (ok_fields (Str_lit ''Deck retrieved'')),
      Site 94 400 (fail_fields (Str_lit ''Title is required'') []),
      Site 125 201 (ok_fields (Str_lit ''Deck created'')),
      Site 145 400 (fail_fields (Str_lit ''Topic is required'') []),
      Site 180 201 (ok_fields (Str_lit ''Flashcards generated'')),
      Site 200 400 (fail_fields (Str_lit ''Front and back are required'') []),
      Site 212 404 (fail_fields (Str_lit ''Deck not found'') []),
      Site 236 201 (ok_fields (Str_lit ''Card added'')),
      Site 260 404 (fail_fields (Str_lit ''Deck not found'') []),
      Site 269 404 (fail_fields (Str_lit ''Card not found'') []),
      Site 284 200 (ok_fields (Str_lit ''Card updated'')),
      Site 306 404 (fail_fields (Str_lit ''Deck not found'') []),
      Site 318 200 (ok_fields (Str_lit ''Card deleted'')),
      Site 342 404 (fail_fields (Str_lit ''Deck not found'') []),
      Site 351 404 (fail_fields (Str_lit ''Card not found'') []),
      Site 397 200 (ok_fields (Str_lit ''Card reviewed'')),
      Site 419 404 (fail_fields (Str_lit ''Deck not found'') []),
      Site 437 200 (ok_fields (Str_lit ''Due cards retrieved'')),
      Site 467 404 (fail_fields (Str_lit ''Deck not found'') []),
      Site 474 200 (ok_fields (Str_lit ''Deck updated'')),
      Site 496 404 (fail_fields (Str_lit ''Deck not found'') []),
      Site 503 200 (ok_fields (Str_lit ''Deck deleted''))]"

text \<open>The responses of \<^verbatim>\<open>unnamed/part_005\<close>.\<close>

definition part_005_sites :: "site list" where
  "part_005_sites =
     [Site 31 200 (ok_fields (Str_lit ''Essays retrieved'')),
      Site 87 200 (ok_fields (Str_lit ''Prompts retrieved'')),
      Site 108 200 (ok_fields (Str_lit ''Prompt generated'')),
      Site 130 404 (fail_fields (Str_lit ''Essay not found'') []),
      Site 137 200 (ok_fields (Str_lit ''Essay retrieved'')),
      Site 174 201 (ok_fields (Str_lit ''Essay created'')),
      Site 198 404 (fail_fields (Str_lit ''Essay not found'') []),
      Site 220 200 (ok_fields (Str_lit ''Essay saved'')),
      Site 244 404 (fail_fields (Str_lit ''Essay not found'') []),
      Site 262 400 (fail_fields (Str_lit ''Essay too short'')
         [''Please write at least 50 words before submitting'']),
      Site 304 200 (ok_fields (Str_lit ''Essay submitted and graded'')),
      Site 328 404 (fail_fields (Str_lit ''Essay not found'') []),
      Site 343 200 (ok_fields (Str_lit ''Essay re-graded'')),
      Site 365 404 (fail_fields (Str_lit ''Essay not found'') []),
      Site 372 200 (ok_fields (Str_lit ''Essay deleted''))]"

text \<open>The responses of \<^verbatim>\<open>unnamed/part_006\<close>.\<close>

definition part_006_sites :: "site list" where
  "part_006_sites =
     [Site 25 404 (fail_fields (Str_lit ''Progress not found'') []),
      Site 32 200 (ok_fields (Str_lit ''Progress retrieved'')),
      Site 141 200 (ok_fields (Str_lit ''Analytics retrieved'')),
      Site 176 200 (ok_fields (Str_lit ''No activity'')),
      Site 187 200 (ok_fields (Str_lit ''Activity retrieved'')),
      Site 246 200 (ok_fields (Str_lit ''Study time logged'')),
      Site 288 200 (ok_fields (Str_lit ''Achievements retrieved'')),
      Site 339 200 (ok_fields (Str_lit ''Data exported''))]"

definition response_sites :: "site list" where
  "response_sites =
     server_sites @ settings_sites @ chat_sites @ quizzes_sites @ part_000_sites @
     part_001_sites @ part_002_sites @ part_003_sites @ part_004_sites @ part_005_sites @
     part_006_sites"

text \<open>
  The body of an error response: the three fields \<open>success\<close> (false), \<open>message\<close> (a
  string) and \<open>errors\<close> (an array of strings), and no other.
\<close>

definition error_shape :: "json \<Rightarrow> bool" where
  "error_shape body =
     (case body of
        JObj kvs \<Rightarrow>
          map fst kvs = [''success'', ''message'', ''errors''] \<and>
          (case (map_of kvs ''success'', map_of kvs ''message'', map_of kvs ''errors'') of
             (Some (JBool b), Some (JStr m), Some (JArr es)) \<Rightarrow> \<not> b \<and> list_all is_string es
           | _ \<Rightarrow> False)
      | _ \<Rightarrow> False)"

text \<open>
  An error whose fields \<open>errorHandler\<close> sends on as a string and an array of strings:
  its \<open>message\<close> is a string or falsy and its \<open>errors\<close> an array of strings or falsy;
  for a \<open>ValidationError\<close>, each value of \<open>errors\<close> has a string as its \<open>message\<close>.
\<close>

definition string_or_falsy :: "json option \<Rightarrow> bool" where
  "string_or_falsy v = (case v of Some (JStr m) \<Rightarrow> True | _ \<Rightarrow> \<not> truthy v)"

definition strings_or_falsy :: "json option \<Rightarrow> bool" where
  "strings_or_falsy v = (case v of Some (JArr es) \<Rightarrow> list_all is_string es | _ \<Rightarrow> \<not> truthy v)"

definition has_message :: "json \<Rightarrow> bool" where
  "has_message e = (case get_prop e ''message'' of Return (Some (JStr m)) \<Rightarrow> True | _ \<Rightarrow> False)"

definition typed_error :: "(string \<times> json) list \<Rightarrow> bool" where
  "typed_error err =
     (if map_of err ''name'' = Some (JStr ''ValidationError'')
      then list_all has_message (Object_values (or_else (map_of err ''errors'') (JObj [])))
      else string_or_falsy (map_of err ''message'') \<and> strings_or_falsy (map_of err ''errors''))"

text \<open>
  What a response of the routes is to look like: with status 200 or 201 the envelope of
  all four fields with \<open>success\<close> true, with any other status the body of an error
  response.
\<close>

definition well_formed :: "(string \<times> json) list \<Rightarrow> nat \<Rightarrow> site \<Rightarrow> bool" where
  "well_formed d n site =
     (if site_status site = 200 \<or> site_status site = 201
      then has_envelope_shape (site_body d n site) \<and>
           get_prop (site_body d n site) ''success'' = Return (Some (JBool True))
      else error_shape (site_body d n site) \<and>
           get_prop (site_body d n site) ''data'' = Return None)"

section \<open>Calls that run side by side: the event loop\<close>

text \<open>
  An async function runs until its first \<open>await\<close> when it is called, and each later
  stretch runs as a microtask, in the order the microtasks were queued. \<open>read\<close> has no
  \<open>await\<close> inside and runs to its end within the call. A continuation is the rest of a
  call of \<open>insert\<close> from one \<open>await\<close> on, with the values of its variables: the call's
  number, \<open>filename\<close>, \<open>item\<close>, and \<open>data\<close> and \<open>tempPath\<close> of \<open>write\<close>.
\<close>

datatype continuation =
    After_read nat string json "json outcome"
  | After_sleep nat string json json string
  | After_acquire nat string json json string
  | After_write nat json "unit outcome"

text \<open>
  The state of the process: the store, the microtask queue, the callbacks of the 10 ms
  timers in the order they were set, and the promises of the calls that have settled.
\<close>

record loop =
  store :: state
  microtasks :: "continuation list"
  timers :: "continuation list"
  settled :: "(nat \<times> json outcome) list"

text \<open>
  Calling \<open>insert(filename, item)\<close>: up to \<open>await read(filename, [])\<close>, with no I/O fault.
\<close>

definition call_insert :: "loop \<Rightarrow> nat \<Rightarrow> string \<Rightarrow> json \<Rightarrow> loop" where
  "call_insert w i filename item =
     (case read no_faults (store w) filename (JArr []) of
        (r, s1) \<Rightarrow> w\<lparr>store := s1, microtasks := microtasks w @ [After_read i filename item r]\<rparr>)"

text \<open>
  The loop of \<open>acquireLock\<close> from its test: a held lock sets the timer and waits for it, a
  free one is taken and \<open>write\<close> goes on after its \<open>await acquireLock(filename)\<close>.
\<close>

definition acquire_attempt :: "loop \<Rightarrow> nat \<Rightarrow> string \<Rightarrow> json \<Rightarrow> json \<Rightarrow> string \<Rightarrow> loop" where
  "acquire_attempt w i filename item data tempPath =
     (if fileLocks (store w) filename = Some True
      then w\<lparr>timers := timers w @ [After_sleep i filename item data tempPath]\<rparr>
      else w\<lparr>store := (store w)\<lparr>fileLocks := (fileLocks (store w))(filename \<mapsto> True)\<rparr>,
             microtasks := microtasks w @ [After_acquire i filename item data tempPath]\<rparr>)"

text \<open>Running one continuation; \<open>clock i\<close> is what \<open>Date.now()\<close> gives call \<open>i\<close>.\<close>

fun resume :: "(nat \<Rightarrow> nat) \<Rightarrow> continuation \<Rightarrow> loop \<Rightarrow> loop" where
  "resume clock (After_read i filename item r) w =
     (case r of
        Return data \<Rightarrow>
          (case array_of ''push'' data of
             Return xs \<Rightarrow>
               acquire_attempt w i filename item (JArr (xs @ [item]))
                 (temp_path (path_join DATA_DIR filename) (clock i))
           | Throw e \<Rightarrow> w\<lparr>settled := settled w @ [(i, Throw e)]\<rparr>
           | Crash \<Rightarrow> w\<lparr>settled := settled w @ [(i, Crash)]\<rparr>)
      | Throw e \<Rightarrow> w\<lparr>settled := settled w @ [(i, Throw e)]\<rparr>
      | Crash \<Rightarrow> w\<lparr>settled := settled w @ [(i, Crash)]\<rparr>)"
| "resume clock (After_sleep i filename item data tempPath) w =
     acquire_attempt w i filename item data tempPath"
| "resume clock (After_acquire i filename item data tempPath) w =
     (case write_locked no_faults (store w) filename tempPath (path_join DATA_DIR filename) data of
        (r, s1) \<Rightarrow> w\<lparr>store := s1, microtasks := microtasks w @ [After_write i item r]\<rparr>)"
| "resume clock (After_write i item r) w =
     (case r of
        Return u \<Rightarrow> w\<lparr>settled := settled w @ [(i, Return item)]\<rparr>
      | Throw e \<Rightarrow> w\<lparr>settled := settled w @ [(i, Throw e)]\<rparr>
      | Crash \<Rightarrow> w\<lparr>settled := settled w @ [(i, Crash)]\<rparr>)"

text \<open>
  One turn: the first microtask if there is one, else the timer that was set first (its
  callback resolves the promise the loop of \<open>acquireLock\<close> awaits).
\<close>

definition turn :: "(nat \<Rightarrow> nat) \<Rightarrow> loop \<Rightarrow> loop" where
  "turn clock w =
     (case microtasks w of
        c # cs \<Rightarrow> resume clock c (w\<lparr>microtasks := cs\<rparr>)
      | [] \<Rightarrow> (case timers w of
                 c # cs \<Rightarrow> w\<lparr>timers := cs, microtasks := [c]\<rparr>
               | [] \<Rightarrow> w))"

text \<open>The event loop runs until nothing is queued; not coming to rest is \<open>None\<close>.\<close>

partial_function (option) run_loop :: "(nat \<Rightarrow> nat) \<Rightarrow> loop \<Rightarrow> loop option" where
  "run_loop clock w =
     (if microtasks w = [] \<and> timers w = [] then Some w
      else run_loop clock (turn clock w))"

text \<open>
  \<open>insert(filename, item)\<close> called for each item in turn without awaiting any of the
  calls, as \<open>Promise.all(items.map(item => insert(filename, item)))\<close> does, and the event
  loop run until all is at rest.
\<close>

fun call_all :: "loop \<Rightarrow> nat \<Rightarrow> string \<Rightarrow> json list \<Rightarrow> loop" where
  "call_all w i filename [] = w"
| "call_all w i filename (item # rest) = call_all (call_insert w i filename item) (Suc i) filename rest"

definition concurrent_inserts :: "(nat \<Rightarrow> nat) \<Rightarrow> state \<Rightarrow> string \<Rightarrow> json list \<Rightarrow> loop option" where
  "concurrent_inserts clock s filename new_items =
     run_loop clock
       (call_all \<lparr>store = s, microtasks = [], timers = [], settled = []\<rparr> 0 filename new_items)"

section \<open>Sample data\<close>

text \<open>A store with one collection file and nothing else, and an empty store.\<close>

definition store_with :: "string \<Rightarrow> json \<Rightarrow> state" where
  "store_with filename v =
     \<lparr>files = [path_join DATA_DIR filename \<mapsto> JSON_stringify v],
      fileLocks = Map.empty, console = []\<rparr>"

definition empty_store :: state where
  "empty_store = \<lparr>files = Map.empty, fileLocks = Map.empty, console = []\<rparr>"

definition with_id :: "nat \<Rightarrow> json" where
  "with_id i = JObj [(''id'', JNum (int i))]"

definition with_score :: "int \<Rightarrow> json" where
  "with_score n = JObj [(''score'', JNum n)]"

text \<open>The default predicate of \<open>paginate\<close>, \<open>() => true\<close>.\<close>

definition accept_all :: "json \<Rightarrow> bool" where
  "accept_all r = True"

definition has_id :: "nat \<Rightarrow> json \<Rightarrow> bool" where
  "has_id i r = (get_prop r ''id'' = Return (Some (JNum (int i))))"

text \<open>A conversion oracle for runs that compare numbers with numbers only.\<close>

definition no_conversion :: "json option \<Rightarrow> json option \<Rightarrow> bool" where
  "no_conversion a b = False"

definition clock0 :: "nat \<Rightarrow> nat" where
  "clock0 i = 1700000000000"

definition corrupt_store :: "string \<Rightarrow> state" where
  "corrupt_store filename =
     \<lparr>files = [path_join DATA_DIR filename \<mapsto> Other_text ''['' ''Unexpected end of JSON input''],
      fileLocks = Map.empty, console = []\<rparr>"

text \<open>What a run leaves: the collection as \<open>read\<close> returns it, and how the calls settled.\<close>

definition final_collection :: "string \<Rightarrow> loop option \<Rightarrow> json outcome option" where
  "final_collection filename r =
     map_option (\<lambda>w. fst (read no_faults (store w) filename (JArr []))) r"

definition final_results :: "loop option \<Rightarrow> (nat \<times> json outcome) list option" where
  "final_results r = map_option settled r"

text \<open>
  Queue contents the proofs about the event loop speak of: the calls waiting after their
  \<open>read\<close>, all holding the same contents, and the calls asleep in \<open>acquireLock\<close>.
\<close>

definition reads :: "string \<Rightarrow> json outcome \<Rightarrow> (nat \<times> json) list \<Rightarrow> continuation list" where
  "reads filename r ixs = map (\<lambda>(i, x). After_read i filename x r) ixs"

definition sleeps ::
  "(nat \<Rightarrow> nat) \<Rightarrow> string \<Rightarrow> json list \<Rightarrow> (nat \<times> json) list \<Rightarrow> continuation list" where
  "sleeps clock filename xs ixs =
     map (\<lambda>(i, x). After_sleep i filename x (JArr (xs @ [x]))
                     (temp_path (path_join DATA_DIR filename) (clock i))) ixs"

text \<open>The calls of \<open>write\<close> on a file that hold its lock and have yet to write.\<close>

fun writes_to :: "string \<Rightarrow> continuation \<Rightarrow> bool" where
  "writes_to f (After_acquire i filename item data tempPath) = (filename = f)"
| "writes_to f c = False"

definition writers :: "loop \<Rightarrow> string \<Rightarrow> nat" where
  "writers w f = length (filter (writes_to f) (microtasks w @ timers w))"

definition one_writer :: "loop \<Rightarrow> bool" where
  "one_writer w =
     (\<forall>f. writers w f \<le> 1 \<and> (writers w f = 1 \<longrightarrow> fileLocks (store w) f = Some True))"


section \<open>Facts about the store\<close>

lemma acquireLock_free:
  "fileLocks s filename \<noteq> Some True \<Longrightarrow>
   acquireLock s filename = Some (s\<lparr>fileLocks := (fileLocks s)(filename \<mapsto> True)\<rparr>)"
  by (subst acquireLock.simps) simp

lemma acquireLock_Some_free:
  "acquireLock s filename = Some s' \<Longrightarrow> fileLocks s filename \<noteq> Some True"
proof -
  assume a: "acquireLock s filename = Some s'"
  show ?thesis
    by (rule acquireLock.raw_induct[where P = "\<lambda>s f y. fileLocks s f \<noteq> Some True", OF _ a])
       (auto split: if_splits)
qed

lemma acquireLock_held: "fileLocks s filename = Some True \<Longrightarrow> acquireLock s filename = None"
  using acquireLock_Some_free by (cases "acquireLock s filename") auto

lemma temp_path_neq: "temp_path p now \<noteq> p"
  by (simp add: temp_path_def)

lemma read_cases:
  "read fl s filename d =
     (let p = path_join DATA_DIR filename in
      case files s p of
        None \<Rightarrow> (Return d, s)
      | Some t \<Rightarrow>
          (case read_fault fl of
             Some e \<Rightarrow> (Return d, console_error s (''Error reading '' @ filename @ '':'') e)
           | None \<Rightarrow>
               (case t of
                  Json_text v \<Rightarrow> (Return v, s)
                | Other_text x m \<Rightarrow>
                    (Return d, console_error s (''Error reading '' @ filename @ '':'')
                                 (SyntaxError m)))))"
  by (simp add: read_def read_try_def existsSync_def readFileSync_def Let_def
      split: option.splits file_text.splits)

lemma read_Return: "\<exists>v s'. read fl s filename d = (Return v, s') \<and> files s' = files s \<and> fileLocks s' = fileLocks s"
  by (simp add: read_cases Let_def console_error_def split: option.splits file_text.splits)

lemma findIndex_ge: "- 1 \<le> findIndex P xs"
  by (induction xs) (auto simp: Let_def)

lemma findIndex_none: "(findIndex P xs = - 1) = (\<forall>x\<in>set xs. \<not> P x)"
proof (induction xs)
  case Nil show ?case by simp
next
  case (Cons x xs)
  have "- 1 \<le> findIndex P xs" by (rule findIndex_ge)
  with Cons show ?case by (auto simp: Let_def)
qed

lemma findIndex_first:
  "findIndex P xs \<noteq> - 1 \<Longrightarrow>
   nat (findIndex P xs) < length xs \<and> 0 \<le> findIndex P xs \<and> P (xs ! nat (findIndex P xs)) \<and>
   (\<forall>j < nat (findIndex P xs). \<not> P (xs ! j))"
proof (induction xs)
  case Nil then show ?case by simp
next
  case (Cons x xs)
  show ?case
  proof (cases "P x")
    case True then show ?thesis by simp
  next
    case False
    with Cons.prems have ne: "findIndex P xs \<noteq> - 1" by (auto simp: Let_def split: if_splits)
    note IH = Cons.IH[OF ne]
    from False ne have eq: "findIndex P (x # xs) = findIndex P xs + 1" by (simp add: Let_def)
    from IH have n: "nat (findIndex P xs + 1) = Suc (nat (findIndex P xs))" by linarith
    show ?thesis unfolding eq n using IH False
      by (auto simp: less_Suc_eq_0_disj)
  qed
qed

lemma write_data_ok:
  assumes "fileLocks s filename \<noteq> Some True" "write_fault fl = Write_ok" "rename_fault fl = Rename_ok"
  shows "write_data fl now s filename data =
     Some (Return (),
       s\<lparr>files := ((files s)(temp_path (path_join DATA_DIR filename) now := None))
                      (path_join DATA_DIR filename \<mapsto> JSON_stringify data),
         fileLocks := (fileLocks s)(filename := None)\<rparr>)"
  using assms
  by (simp add: write_data_def Let_def acquireLock_free write_locked_def write_try_def
      writeFileSync_def renameSync_def releaseLock_def fun_upd_twist temp_path_neq)

lemma read_files:
  "read_fault fl = None \<Longrightarrow> files s (path_join DATA_DIR filename) = Some (Json_text v) \<Longrightarrow>
   read fl s filename d = (Return v, s)"
  by (simp add: read_cases)

lemma read_fst_files:
  "files s (path_join DATA_DIR filename) = files s' (path_join DATA_DIR filename) \<Longrightarrow>
   fst (read fl s filename d) = fst (read fl s' filename d)"
  by (simp add: read_cases split: option.splits file_text.splits)

lemma read_snd_files:
  "files (snd (read fl s filename d)) = files s \<and> fileLocks (snd (read fl s filename d)) = fileLocks s"
  using read_Return[of fl s filename d] by auto

lemmas sample_defs =
  empty_store_def store_with_def corrupt_store_def no_faults_def JSON_stringify_def
  with_id_def has_id_def

subsection \<open>read swallows every failure\<close>

text \<open>
  C7. \<open>read\<close> always returns a value and leaves the files and the locks as they were,
  whatever the fault plan. When the file does not exist it returns the default and
  changes nothing; when the text of the file does not parse it returns the default and
  logs the error; when reading the file fails it returns the default and logs that error.
\<close>

theorem read_never_propagates:
  "(\<exists>v s'. read fl s filename d = (Return v, s') \<and> files s' = files s \<and> fileLocks s' = fileLocks s) \<and>
   (files s (path_join DATA_DIR filename) = None \<longrightarrow> read fl s filename d = (Return d, s)) \<and>
   (\<forall>t e. files s (path_join DATA_DIR filename) = Some t \<and> JSON_parse t = Throw e \<longrightarrow>
      fst (read fl s filename d) = Return d \<and> console (snd (read fl s filename d)) \<noteq> console s) \<and>
   (\<forall>t e. files s (path_join DATA_DIR filename) = Some t \<and> read_fault fl = Some e \<longrightarrow>
      read fl s filename d = (Return d, console_error s (''Error reading '' @ filename @ '':'') e))"
  by (auto simp: read_cases console_error_def split: option.splits file_text.splits)

theorem read_never_propagates_witness:
  "files empty_store (path_join DATA_DIR ''users.json'') = None \<and>
   read no_faults empty_store ''users.json'' (JArr []) = (Return (JArr []), empty_store) \<and>
   files (corrupt_store ''users.json'') (path_join DATA_DIR ''users.json'') =
     Some (Other_text ''['' ''Unexpected end of JSON input'') \<and>
   JSON_parse (Other_text ''['' ''Unexpected end of JSON input'') =
     Throw (SyntaxError ''Unexpected end of JSON input'') \<and>
   fst (read no_faults (corrupt_store ''users.json'') ''users.json'' (JArr [])) = Return (JArr []) \<and>
   console (snd (read no_faults (corrupt_store ''users.json'') ''users.json'' (JArr []))) \<noteq> []"
  using read_never_propagates[of no_faults empty_store "''users.json''" "JArr []"]
        read_never_propagates[of no_faults "corrupt_store ''users.json''" "''users.json''" "JArr []"]
  by (simp add: sample_defs)

subsection \<open>update and remove with no match\<close>

text \<open>
  C5. When \<open>read\<close> returns a sequence of records and the predicate holds for none of
  them, \<open>update\<close> returns \<open>null\<close> and \<open>remove\<close> returns \<open>false\<close>; neither writes: the
  state they leave is the one \<open>read\<close> left, with the files and the locks of the state
  they started in.
\<close>

theorem no_match_no_write:
  assumes "read fl s filename (JArr []) = (Return (JArr xs), s1)"
      and "\<forall>r\<in>set xs. \<not> predicate r"
  shows "update_item fl now s filename predicate updates = Some (Return JNull, s1) \<and>
         remove_item fl now s filename predicate = Some (Return False, s1) \<and>
         files s1 = files s \<and> fileLocks s1 = fileLocks s"
proof -
  from assms(2) have "findIndex predicate xs = - 1" by (simp add: findIndex_none)
  moreover from read_Return[of fl s filename "JArr []"] assms(1)
  have "files s1 = files s \<and> fileLocks s1 = fileLocks s" by auto
  ultimately show ?thesis using assms(1)
    by (simp add: update_item_def remove_item_def)
qed

theorem no_match_no_write_witness:
  "read no_faults (store_with ''users.json'' (JArr [with_id 1, with_id 2])) ''users.json'' (JArr []) =
     (Return (JArr [with_id 1, with_id 2]), store_with ''users.json'' (JArr [with_id 1, with_id 2])) \<and>
   \<not> has_id 7 (with_id 1) \<and> \<not> has_id 7 (with_id 2) \<and>
   update_item no_faults 1700000000000 (store_with ''users.json'' (JArr [with_id 1, with_id 2]))
     ''users.json'' (has_id 7) (JObj [(''name'', JStr ''Ada'')]) =
     Some (Return JNull, store_with ''users.json'' (JArr [with_id 1, with_id 2])) \<and>
   remove_item no_faults 1700000000000 (store_with ''users.json'' (JArr [with_id 1, with_id 2]))
     ''users.json'' (has_id 7) =
     Some (Return False, store_with ''users.json'' (JArr [with_id 1, with_id 2]))"
proof -
  let ?s = "store_with ''users.json'' (JArr [with_id 1, with_id 2])"
  have r: "read no_faults ?s ''users.json'' (JArr []) = (Return (JArr [with_id 1, with_id 2]), ?s)"
    by (simp add: read_cases sample_defs)
  have n: "\<forall>r\<in>set [with_id 1, with_id 2]. \<not> has_id 7 r"
    by (simp add: sample_defs)
  show ?thesis
    using r n no_match_no_write[OF r n, of 1700000000000 "JObj [(''name'', JStr ''Ada'')]"]
    by simp
qed

subsection \<open>insert, then read\<close>

text \<open>
  C6. When \<open>read\<close> returns the sequence \<open>xs\<close>, the lock of the file is free and the
  write and the rename do not fail, \<open>insert\<close> returns the record it was given, and a
  \<open>read\<close> that follows returns \<open>xs\<close> with that record appended: one longer, the last
  element equal to the record.
\<close>

theorem insert_then_read:
  assumes "read fl s filename (JArr []) = (Return (JArr xs), s1)"
      and "fileLocks s filename \<noteq> Some True"
      and "write_fault fl = Write_ok" and "rename_fault fl = Rename_ok"
      and "read_fault fl' = None"
  shows "\<exists>s2 ys. insert_item fl now s filename item = Some (Return item, s2) \<and>
           read fl' s2 filename d = (Return (JArr ys), s2) \<and>
           ys = xs @ [item] \<and> length ys = length xs + 1 \<and> last ys = item \<and>
           fileLocks s2 filename = None"
proof -
  from read_Return[of fl s filename "JArr []"] assms(1)
  have s1: "files s1 = files s" "fileLocks s1 = fileLocks s" by auto
  with assms(2) have free: "fileLocks s1 filename \<noteq> Some True" by simp
  note w = write_data_ok[OF free assms(3,4), of now "JArr (xs @ [item])"]
  show ?thesis using assms(1,5)
    by (simp add: insert_item_def w read_files JSON_stringify_def)
qed

theorem insert_then_read_witness:
  "read no_faults empty_store ''users.json'' (JArr []) = (Return (JArr []), empty_store) \<and>
   fileLocks empty_store ''users.json'' \<noteq> Some True \<and>
   write_fault no_faults = Write_ok \<and> rename_fault no_faults = Rename_ok \<and>
   read_fault no_faults = None \<and>
   (\<exists>s2. insert_item no_faults 1700000000000 empty_store ''users.json'' (with_id 1) =
            Some (Return (with_id 1), s2) \<and>
         read no_faults s2 ''users.json'' (JArr []) = (Return (JArr [with_id 1]), s2))"
proof -
  have r: "read no_faults empty_store ''users.json'' (JArr []) = (Return (JArr []), empty_store)"
    by (simp add: read_cases sample_defs)
  have l: "fileLocks empty_store ''users.json'' \<noteq> Some True" by (simp add: sample_defs)
  have w: "write_fault no_faults = Write_ok" "rename_fault no_faults = Rename_ok"
    "read_fault no_faults = None" by (simp_all add: no_faults_def)
  from insert_then_read[OF r l w, of 1700000000000 "with_id 1" "JArr []"]
  show ?thesis using r l w by auto
qed

subsection \<open>update and remove touch one record\<close>

text \<open>
  C10. When \<open>read\<close> returns the sequence \<open>xs\<close>, the predicate holds for some record,
  the lock is free and the write and the rename do not fail: with \<open>i\<close> the index of the
  first record the predicate holds for, \<open>update\<close> returns the merged record and leaves a
  sequence of the same length with the merged record at \<open>i\<close> and every other record as
  it was and where it was; \<open>remove\<close> returns \<open>true\<close> and leaves the records before \<open>i\<close>
  followed by those after \<open>i\<close>, in their order.
\<close>

theorem update_remove_frame:
  assumes "read fl s filename (JArr []) = (Return (JArr xs), s1)"
      and "\<exists>r\<in>set xs. predicate r"
      and "fileLocks s filename \<noteq> Some True"
      and "write_fault fl = Write_ok" and "rename_fault fl = Rename_ok"
      and "read_fault fl' = None"
  shows "\<exists>i. i < length xs \<and> predicate (xs ! i) \<and> (\<forall>j<i. \<not> predicate (xs ! j)) \<and>
           (\<exists>s2 ys. update_item fl now s filename predicate updates =
                       Some (Return (spread2 (xs ! i) updates), s2) \<and>
                    read fl' s2 filename d = (Return (JArr ys), s2) \<and>
                    length ys = length xs \<and> ys ! i = spread2 (xs ! i) updates \<and>
                    (\<forall>j<length xs. j \<noteq> i \<longrightarrow> ys ! j = xs ! j)) \<and>
           (\<exists>s3 zs. remove_item fl now s filename predicate = Some (Return True, s3) \<and>
                    read fl' s3 filename d = (Return (JArr zs), s3) \<and>
                    zs = take i xs @ drop (Suc i) xs \<and>
                    length zs + 1 = length xs \<and>
                    (\<forall>j<i. zs ! j = xs ! j) \<and>
                    (\<forall>j. i \<le> j \<and> j < length zs \<longrightarrow> zs ! j = xs ! (j + 1)))"
proof -
  let ?ix = "findIndex predicate xs"
  let ?i = "nat ?ix"
  from assms(2) have ne: "?ix \<noteq> - 1" by (simp add: findIndex_none)
  note first = findIndex_first[OF ne]
  from read_Return[of fl s filename "JArr []"] assms(1)
  have s1: "files s1 = files s" "fileLocks s1 = fileLocks s" by auto
  with assms(3) have free: "fileLocks s1 filename \<noteq> Some True" by simp
  note w = write_data_ok[OF free assms(4,5)]
  have upd: "\<exists>s2 ys. update_item fl now s filename predicate updates =
                       Some (Return (spread2 (xs ! ?i) updates), s2) \<and>
                    read fl' s2 filename d = (Return (JArr ys), s2) \<and>
                    length ys = length xs \<and> ys ! ?i = spread2 (xs ! ?i) updates \<and>
                    (\<forall>j<length xs. j \<noteq> ?i \<longrightarrow> ys ! j = xs ! j)"
    using assms(1,6) ne first
    by (simp add: update_item_def Let_def w read_files JSON_stringify_def)
  have len: "length (take ?i xs @ drop (Suc ?i) xs) + 1 = length xs"
    using first by auto
  have before: "\<forall>j<?i. (take ?i xs @ drop (Suc ?i) xs) ! j = xs ! j"
    using first by (simp add: nth_append)
  have after: "\<forall>j. ?i \<le> j \<and> j < length (take ?i xs @ drop (Suc ?i) xs) \<longrightarrow>
                 (take ?i xs @ drop (Suc ?i) xs) ! j = xs ! (j + 1)"
    using first by (auto simp: nth_append min_def)
  have rem: "\<exists>s3 zs. remove_item fl now s filename predicate = Some (Return True, s3) \<and>
                    read fl' s3 filename d = (Return (JArr zs), s3) \<and>
                    zs = take ?i xs @ drop (Suc ?i) xs \<and>
                    length zs + 1 = length xs \<and>
                    (\<forall>j<?i. zs ! j = xs ! j) \<and>
                    (\<forall>j. ?i \<le> j \<and> j < length zs \<longrightarrow> zs ! j = xs ! (j + 1))"
    using assms(1,6) ne len before after
    by (simp add: remove_item_def Let_def w read_files JSON_stringify_def)
  from first upd rem show ?thesis by blast
qed

theorem update_remove_frame_witness:
  "read no_faults (store_with ''users.json'' (JArr [with_id 1, with_id 2, with_id 3])) ''users.json'' (JArr []) =
     (Return (JArr [with_id 1, with_id 2, with_id 3]),
      store_with ''users.json'' (JArr [with_id 1, with_id 2, with_id 3])) \<and>
   has_id 2 (with_id 2) \<and>
   fileLocks (store_with ''users.json'' (JArr [with_id 1, with_id 2, with_id 3])) ''users.json'' \<noteq> Some True \<and>
   (\<exists>s2. update_item no_faults 1700000000000
            (store_with ''users.json'' (JArr [with_id 1, with_id 2, with_id 3]))
            ''users.json'' (has_id 2) (JObj [(''name'', JStr ''Ada'')]) =
            Some (Return (JObj [(''id'', JNum 2), (''name'', JStr ''Ada'')]), s2) \<and>
         read no_faults s2 ''users.json'' (JArr []) =
           (Return (JArr [with_id 1, JObj [(''id'', JNum 2), (''name'', JStr ''Ada'')], with_id 3]), s2)) \<and>
   (\<exists>s3. remove_item no_faults 1700000000000
            (store_with ''users.json'' (JArr [with_id 1, with_id 2, with_id 3]))
            ''users.json'' (has_id 2) = Some (Return True, s3) \<and>
         read no_faults s3 ''users.json'' (JArr []) = (Return (JArr [with_id 1, with_id 3]), s3))"
proof -
  let ?xs = "[with_id 1, with_id 2, with_id 3]"
  let ?s = "store_with ''users.json'' (JArr ?xs)"
  have r: "read no_faults ?s ''users.json'' (JArr []) = (Return (JArr ?xs), ?s)"
    by (simp add: read_cases sample_defs)
  have m: "\<exists>r\<in>set ?xs. has_id 2 r" by (simp add: sample_defs)
  have l: "fileLocks ?s ''users.json'' \<noteq> Some True" by (simp add: sample_defs)
  have w: "write_fault no_faults = Write_ok" "rename_fault no_faults = Rename_ok"
    "read_fault no_faults = None" by (simp_all add: no_faults_def)
  have h1: "\<not> has_id 2 (with_id 1)" and h2: "has_id 2 (with_id 2)" by (simp_all add: sample_defs)
  from update_remove_frame[OF r m l w, of 1700000000000 "JObj [(''name'', JStr ''Ada'')]" "JArr []"]
  obtain i s2 ys s3 zs where i: "i < length ?xs" "has_id 2 (?xs ! i)" "\<forall>j<i. \<not> has_id 2 (?xs ! j)"
    and u: "update_item no_faults 1700000000000 ?s ''users.json'' (has_id 2) (JObj [(''name'', JStr ''Ada'')]) =
              Some (Return (spread2 (?xs ! i) (JObj [(''name'', JStr ''Ada'')])), s2)"
           "read no_faults s2 ''users.json'' (JArr []) = (Return (JArr ys), s2)"
           "length ys = length ?xs" "ys ! i = spread2 (?xs ! i) (JObj [(''name'', JStr ''Ada'')])"
           "\<forall>j<length ?xs. j \<noteq> i \<longrightarrow> ys ! j = ?xs ! j"
    and d: "remove_item no_faults 1700000000000 ?s ''users.json'' (has_id 2) = Some (Return True, s3)"
           "read no_faults s3 ''users.json'' (JArr []) = (Return (JArr zs), s3)"
           "zs = take i ?xs @ drop (Suc i) ?xs"
    by blast
  have "i = 1"
  proof -
    from i(1) have "i = 0 \<or> i = 1 \<or> i = 2" by auto
    with i(2,3) h1 h2 show ?thesis by (auto simp: sample_defs)
  qed
  have sp: "spread2 (with_id 2) (JObj [(''name'', JStr ''Ada'')]) =
            JObj [(''id'', JNum 2), (''name'', JStr ''Ada'')]"
    by (simp add: spread2_def copy_props_def with_id_def)
  have ys: "ys = [with_id 1, JObj [(''id'', JNum 2), (''name'', JStr ''Ada'')], with_id 3]"
  proof (rule nth_equalityI)
    show "length ys = length [with_id 1, JObj [(''id'', JNum 2), (''name'', JStr ''Ada'')], with_id 3]"
      using u(3) by simp
  next
    fix j assume "j < length ys"
    with u(3) have "j = 0 \<or> j = 1 \<or> j = 2" by auto
    then show "ys ! j = [with_id 1, JObj [(''id'', JNum 2), (''name'', JStr ''Ada'')], with_id 3] ! j"
      using u(4,5) \<open>i = 1\<close> sp by auto
  qed
  from d(3) \<open>i = 1\<close> have zs: "zs = [with_id 1, with_id 3]" by simp
  show ?thesis
    using r h2 l u(1,2) d(1,2) \<open>i = 1\<close> sp ys zs by auto
qed

subsection \<open>write replaces the file in one step\<close>

lemma write_locked_cases:
  assumes "tempPath \<noteq> filepath"
  shows "case write_locked fl s filename tempPath filepath data of (r, s') \<Rightarrow>
      (files s' filepath = files s filepath \<or> files s' filepath = Some (JSON_stringify data)) \<and>
      (r = Return () \<longrightarrow> files s' filepath = Some (JSON_stringify data) \<and> files s' tempPath = None) \<and>
      (\<forall>e. r = Throw e \<longrightarrow> files s' filepath = files s filepath \<and> files s' tempPath = None) \<and>
      (\<forall>e lo. write_fault fl = Write_fails e lo \<longrightarrow> r = Throw e) \<and>
      (r \<noteq> Crash \<longrightarrow> fileLocks s' filename = None)"
  using assms
  by (auto simp: write_locked_def write_try_def write_catch_def writeFileSync_def renameSync_def
      unlinkSync_def existsSync_def console_error_def releaseLock_def Let_def
      split: write_fault.splits rename_fault.splits option.splits)

text \<open>
  C2. With the lock free, \<open>write\<close> returns under every fault plan, also when the process
  is killed while it runs, and the file of the collection then holds its old text or the
  whole new text, so that a \<open>read\<close> returns what it returned before or the new contents.
  The new text is in the temporary file before the rename: a process killed just before
  the rename leaves it there, with the file of the collection as it was. When \<open>write\<close> returns
  normally the file holds the new text. When the write of the temporary file fails,
  \<open>write\<close> throws that error, no temporary file is left, and the file of the collection
  is as it was. Unless the process was killed, the lock is free again. With no fault
  \<open>write\<close> returns normally: the new text is on the file of the collection, the
  temporary file is gone with the rename, the lock is free and nothing else has
  changed; and it returns normally only when neither the write of the temporary file
  nor the rename fails or is cut short.
\<close>

theorem write_atomic:
  assumes "fileLocks s filename \<noteq> Some True"
  shows "\<exists>r s'. write_data fl now s filename data = Some (r, s') \<and>
      (files s' (path_join DATA_DIR filename) = files s (path_join DATA_DIR filename) \<or>
       files s' (path_join DATA_DIR filename) = Some (JSON_stringify data)) \<and>
      (fst (read fl' s' filename d) = fst (read fl' s filename d) \<or>
       fst (read fl' s' filename d) = fst (read fl' (store_with filename data) filename d)) \<and>
      (r = Return () \<longrightarrow> files s' (path_join DATA_DIR filename) = Some (JSON_stringify data)) \<and>
      (write_fault fl = Write_ok \<and> rename_fault fl = Rename_killed \<longrightarrow>
         r = Crash \<and>
         files s' (temp_path (path_join DATA_DIR filename) now) = Some (JSON_stringify data) \<and>
         files s' (path_join DATA_DIR filename) = files s (path_join DATA_DIR filename)) \<and>
      (\<forall>e left. write_fault fl = Write_fails e left \<longrightarrow>
         r = Throw e \<and> files s' (temp_path (path_join DATA_DIR filename) now) = None \<and>
         files s' (path_join DATA_DIR filename) = files s (path_join DATA_DIR filename)) \<and>
      (r \<noteq> Crash \<longrightarrow> fileLocks s' filename = None) \<and>
      (write_fault fl = Write_ok \<and> rename_fault fl = Rename_ok \<longrightarrow>
         r = Return () \<and>
         s' = s\<lparr>files := ((files s)(temp_path (path_join DATA_DIR filename) now := None))
                             (path_join DATA_DIR filename \<mapsto> JSON_stringify data),
                 fileLocks := (fileLocks s)(filename := None)\<rparr> \<and>
         files s' (path_join DATA_DIR filename) = Some (JSON_stringify data) \<and>
         files s' (temp_path (path_join DATA_DIR filename) now) = None \<and>
         fst (read no_faults s' filename d) = Return data) \<and>
      (r = Return () \<longrightarrow> write_fault fl = Write_ok \<and> rename_fault fl = Rename_ok)"
proof -
  let ?p = "path_join DATA_DIR filename"
  let ?tmp = "temp_path ?p now"
  let ?s1 = "s\<lparr>fileLocks := (fileLocks s)(filename \<mapsto> True)\<rparr>"
  obtain r s' where rs: "write_locked fl ?s1 filename ?tmp ?p data = (r, s')"
    by (cases "write_locked fl ?s1 filename ?tmp ?p data")
  have w: "write_data fl now s filename data = Some (r, s')"
    using assms rs by (simp add: write_data_def Let_def acquireLock_free)
  from write_locked_cases[OF temp_path_neq[of ?p now], where fl = fl and s = "?s1" and filename = filename and data = data] rs
  have c: "files s' ?p = files s ?p \<or> files s' ?p = Some (JSON_stringify data)"
          "r = Return () \<longrightarrow> files s' ?p = Some (JSON_stringify data)"
          "\<forall>e. r = Throw e \<longrightarrow> files s' ?p = files s ?p \<and> files s' ?tmp = None"
          "\<forall>e left. write_fault fl = Write_fails e left \<longrightarrow> r = Throw e"
          "r \<noteq> Crash \<longrightarrow> fileLocks s' filename = None"
    by simp_all
  have k: "write_fault fl = Write_ok \<and> rename_fault fl = Rename_killed \<longrightarrow>
         r = Crash \<and> files s' ?tmp = Some (JSON_stringify data) \<and> files s' ?p = files s ?p"
    using rs temp_path_neq[of ?p now]
    by (auto simp: write_locked_def write_try_def writeFileSync_def renameSync_def)
  have rd: "fst (read fl' s' filename d) = fst (read fl' s filename d) \<or>
            fst (read fl' s' filename d) = fst (read fl' (store_with filename data) filename d)"
  proof -
    from c(1) show ?thesis
    proof
      assume "files s' ?p = files s ?p"
      then show ?thesis by (auto dest: read_fst_files)
    next
      assume "files s' ?p = Some (JSON_stringify data)"
      then have "files s' ?p = files (store_with filename data) ?p" by (simp add: store_with_def)
      then show ?thesis by (auto dest: read_fst_files)
    qed
  qed
  have ok: "write_fault fl = Write_ok \<and> rename_fault fl = Rename_ok \<longrightarrow>
         r = Return () \<and>
         s' = s\<lparr>files := ((files s)(?tmp := None))(?p \<mapsto> JSON_stringify data),
                 fileLocks := (fileLocks s)(filename := None)\<rparr> \<and>
         files s' ?p = Some (JSON_stringify data) \<and> files s' ?tmp = None \<and>
         fst (read no_faults s' filename d) = Return data"
  proof
    assume f: "write_fault fl = Write_ok \<and> rename_fault fl = Rename_ok"
    from write_data_ok[OF assms, of fl now data] f w
    have e: "r = Return ()"
      "s' = s\<lparr>files := ((files s)(?tmp := None))(?p \<mapsto> JSON_stringify data),
              fileLocks := (fileLocks s)(filename := None)\<rparr>"
      by simp_all
    from e(2) have fs: "files s' ?p = Some (JSON_stringify data)" "files s' ?tmp = None"
      using temp_path_neq[of ?p now] by simp_all
    from fs(1) have "fst (read no_faults s' filename d) = Return data"
      by (simp add: read_cases JSON_stringify_def no_faults_def)
    with e fs show "r = Return () \<and>
         s' = s\<lparr>files := ((files s)(?tmp := None))(?p \<mapsto> JSON_stringify data),
                 fileLocks := (fileLocks s)(filename := None)\<rparr> \<and>
         files s' ?p = Some (JSON_stringify data) \<and> files s' ?tmp = None \<and>
         fst (read no_faults s' filename d) = Return data"
      by simp
  qed
  have only: "r = Return () \<longrightarrow> write_fault fl = Write_ok \<and> rename_fault fl = Rename_ok"
    using rs
    by (auto simp: write_locked_def write_try_def write_catch_def writeFileSync_def renameSync_def
        unlinkSync_def existsSync_def console_error_def releaseLock_def Let_def
        split: write_fault.splits rename_fault.splits option.splits if_splits)
  from w c k rd ok only show ?thesis by blast
qed

theorem write_atomic_witness:
  "fileLocks (store_with ''users.json'' (JArr [with_id 1])) ''users.json'' \<noteq> Some True \<and>
   (\<exists>s'. write_data (no_faults\<lparr>write_fault := Write_fails (SystemError ''ENOSPC'') (Some (Other_text ''['' ''Unexpected end of JSON input''))\<rparr>)
            1700000000000 (store_with ''users.json'' (JArr [with_id 1])) ''users.json''
            (JArr [with_id 1, with_id 2]) = Some (Throw (SystemError ''ENOSPC''), s') \<and>
         files s' (temp_path (path_join DATA_DIR ''users.json'') 1700000000000) = None \<and>
         files s' (path_join DATA_DIR ''users.json'') = Some (JSON_stringify (JArr [with_id 1])) \<and>
         fileLocks s' ''users.json'' = None) \<and>
   (\<exists>s'. write_data (no_faults\<lparr>rename_fault := Rename_killed\<rparr>)
            1700000000000 (store_with ''users.json'' (JArr [with_id 1])) ''users.json''
            (JArr [with_id 1, with_id 2]) = Some (Crash, s') \<and>
         files s' (temp_path (path_join DATA_DIR ''users.json'') 1700000000000) =
           Some (JSON_stringify (JArr [with_id 1, with_id 2])) \<and>
         files s' (path_join DATA_DIR ''users.json'') = Some (JSON_stringify (JArr [with_id 1]))) \<and>
   write_fault no_faults = Write_ok \<and> rename_fault no_faults = Rename_ok \<and>
   (\<exists>s'. write_data no_faults 1700000000000 (store_with ''users.json'' (JArr [with_id 1]))
            ''users.json'' (JArr [with_id 1, with_id 2]) = Some (Return (), s') \<and>
         files s' (path_join DATA_DIR ''users.json'') =
           Some (JSON_stringify (JArr [with_id 1, with_id 2])) \<and>
         files s' (temp_path (path_join DATA_DIR ''users.json'') 1700000000000) = None \<and>
         fileLocks s' ''users.json'' = None \<and>
         fst (read no_faults s' ''users.json'' (JArr [])) = Return (JArr [with_id 1, with_id 2]))"
proof -
  let ?s = "store_with ''users.json'' (JArr [with_id 1])"
  have l: "fileLocks ?s ''users.json'' \<noteq> Some True" by (simp add: sample_defs)
  have old: "files ?s (path_join DATA_DIR ''users.json'') = Some (JSON_stringify (JArr [with_id 1]))"
    by (simp add: store_with_def)
  from write_atomic[OF l, of "no_faults\<lparr>write_fault := Write_fails (SystemError ''ENOSPC'') (Some (Other_text ''['' ''Unexpected end of JSON input''))\<rparr>"
      1700000000000 "JArr [with_id 1, with_id 2]" no_faults "JArr []"]
  have a: "\<exists>s'. write_data (no_faults\<lparr>write_fault := Write_fails (SystemError ''ENOSPC'') (Some (Other_text ''['' ''Unexpected end of JSON input''))\<rparr>)
            1700000000000 ?s ''users.json'' (JArr [with_id 1, with_id 2]) = Some (Throw (SystemError ''ENOSPC''), s') \<and>
         files s' (temp_path (path_join DATA_DIR ''users.json'') 1700000000000) = None \<and>
         files s' (path_join DATA_DIR ''users.json'') = Some (JSON_stringify (JArr [with_id 1])) \<and>
         fileLocks s' ''users.json'' = None"
    using old by (auto simp: no_faults_def)
  from write_atomic[OF l, of "no_faults\<lparr>rename_fault := Rename_killed\<rparr>"
      1700000000000 "JArr [with_id 1, with_id 2]" no_faults "JArr []"]
  have b: "\<exists>s'. write_data (no_faults\<lparr>rename_fault := Rename_killed\<rparr>)
            1700000000000 ?s ''users.json'' (JArr [with_id 1, with_id 2]) = Some (Crash, s') \<and>
         files s' (temp_path (path_join DATA_DIR ''users.json'') 1700000000000) =
           Some (JSON_stringify (JArr [with_id 1, with_id 2])) \<and>
         files s' (path_join DATA_DIR ''users.json'') = Some (JSON_stringify (JArr [with_id 1]))"
    using old by (auto simp: no_faults_def)
  have nf: "write_fault no_faults = Write_ok" "rename_fault no_faults = Rename_ok"
    by (simp_all add: no_faults_def)
  from write_atomic[OF l, of no_faults 1700000000000 "JArr [with_id 1, with_id 2]" no_faults "JArr []"]
  have c: "\<exists>s'. write_data no_faults 1700000000000 ?s ''users.json'' (JArr [with_id 1, with_id 2]) =
              Some (Return (), s') \<and>
         files s' (path_join DATA_DIR ''users.json'') =
           Some (JSON_stringify (JArr [with_id 1, with_id 2])) \<and>
         files s' (temp_path (path_join DATA_DIR ''users.json'') 1700000000000) = None \<and>
         fileLocks s' ''users.json'' = None \<and>
         fst (read no_faults s' ''users.json'' (JArr [])) = Return (JArr [with_id 1, with_id 2])"
    using nf by auto
  from l a b nf c show ?thesis by blast
qed

section \<open>Facts about paginate\<close>

lemma ceil_div_pos: "1 \<le> d \<Longrightarrow> ceil_div n d = Finite \<lceil>real n / real_of_int d\<rceil>"
  by (simp add: ceil_div_def ceiling_divide_eq_div[of "int n" d, simplified])

lemma slice_nonneg:
  assumes "0 \<le> a" "0 \<le> l"
  shows "slice ys a (a + l) = take (nat l) (drop (nat a) ys)"
proof (cases "a \<le> int (length ys)")
  case True
  with assms show ?thesis
    by (auto simp: slice_def Let_def min_def)
next
  case False
  with assms show ?thesis
    by (auto simp: slice_def Let_def min_def)
qed

lemma slice_page:
  assumes "1 \<le> p" "1 \<le> l"
  shows "slice ys ((p - 1) * l) ((p - 1) * l + l) = take (nat l) (drop (nat ((p - 1) * l)) ys)"
  using assms by (intro slice_nonneg) auto

lemma slice_page0:
  assumes "1 \<le> l"
  shows "slice ys ((0 - 1) * l) ((0 - 1) * l + l) = []"
  using assms by (auto simp: slice_def Let_def)

declare binary_search.simps [simp del]

lemma extend_run_append:
  "extend_run cmp d previous rest = Return (run, left) \<Longrightarrow> run @ left = rest"
proof (induction rest arbitrary: previous run left)
  case Nil
  then show ?case by simp
next
  case (Cons current rest)
  then show ?case
    by (auto split: outcome.splits if_splits prod.splits)
qed

lemma count_and_make_run_mset:
  "count_and_make_run cmp xs = Return (run, left) \<Longrightarrow> mset run + mset left = mset xs"
proof (induction cmp xs rule: count_and_make_run.induct)
  case (3 cmp x0 x1 rest)
  then show ?case
    by (auto split: outcome.splits if_splits prod.splits dest!: extend_run_append)
qed simp_all

lemma binary_insertion_sort_mset:
  "binary_insertion_sort cmp run rest = Return ys \<Longrightarrow> mset ys = mset run + mset rest"
proof (induction rest arbitrary: run ys)
  case Nil
  then show ?case by simp
next
  case (Cons pivot rest)
  from Cons.prems obtain p where
    p: "binary_insertion_sort cmp (take p run @ pivot # drop p run) rest = Return ys"
    by (auto split: outcome.splits)
  have "mset (take p run @ pivot # drop p run) = add_mset pivot (mset run)"
    by (metis append_take_drop_id mset.simps(2) mset_append union_mset_add_mset_right)
  with Cons.IH[OF p] show ?case by simp
qed

lemma array_sort_mset: "array_sort cmp xs = Return ys \<Longrightarrow> mset ys = mset xs"
  by (auto simp: array_sort_def split: if_splits outcome.splits prod.splits
      dest!: count_and_make_run_mset binary_insertion_sort_mset)

lemma sort_data_length: "sort_data cg sp xs = Return ys \<Longrightarrow> length ys = length xs"
  by (auto simp: sort_data_def split: option.splits dest!: array_sort_mset dest: mset_eq_length)

lemma extend_run_sorted:
  assumes cmp: "\<forall>x\<in>S. \<forall>y\<in>S. \<exists>c. cmp x y = Return c \<and> (c < 0 \<longleftrightarrow> le x y)"
      and tot: "\<And>a b. le a b \<or> le b a"
      and tr: "\<And>a b c. le a b \<Longrightarrow> le b c \<Longrightarrow> le a c"
      and "previous \<in> S" "set rest \<subseteq> S"
  shows "\<exists>run left. extend_run cmp d previous rest = Return (run, left) \<and>
           sorted_wrt (\<lambda>a b. if d then le b a else le a b) (previous # run)"
  using assms(4,5)
proof (induction rest arbitrary: previous)
  case Nil
  then show ?case by simp
next
  case (Cons current rest)
  from Cons.prems cmp obtain c where c: "cmp current previous = Return c" "c < 0 \<longleftrightarrow> le current previous"
    by (meson list.set_intros(1) subsetD)
  show ?case
  proof (cases "if d then 0 \<le> c else c < 0")
    case True
    with c(1) show ?thesis by simp
  next
    case False
    from Cons.prems have "current \<in> S" "set rest \<subseteq> S" by simp_all
    from Cons.IH[OF this] obtain run left where
      r: "extend_run cmp d current rest = Return (run, left)"
         "sorted_wrt (\<lambda>a b. if d then le b a else le a b) (current # run)" by blast
    from False c(2) tot[of current previous]
    have step: "if d then le current previous else le previous current"
      by (auto split: if_splits)
    have "\<forall>x\<in>set run. if d then le x previous else le previous x"
    proof
      fix x assume "x \<in> set run"
      with r(2) have "if d then le x current else le current x" by simp
      with step tr show "if d then le x previous else le previous x"
        by (auto split: if_splits)
    qed
    with r step False c(1) show ?thesis by (auto split: if_splits)
  qed
qed

lemma count_and_make_run_sorted:
  assumes cmp: "\<forall>x\<in>S. \<forall>y\<in>S. \<exists>c. cmp x y = Return c \<and> (c < 0 \<longleftrightarrow> le x y)"
      and tot: "\<And>a b. le a b \<or> le b a"
      and tr: "\<And>a b c. le a b \<Longrightarrow> le b c \<Longrightarrow> le a c"
      and "set xs \<subseteq> S"
  shows "\<exists>run left. count_and_make_run cmp xs = Return (run, left) \<and> sorted_wrt le run"
proof (cases xs rule: remdups_adj.cases)
  case 1
  then show ?thesis by simp
next
  case (2 x)
  then show ?thesis by simp
next
  case (3 x0 x1 rest)
  then have xs: "xs = x0 # x1 # rest" by simp
  with assms(4) have inS: "x0 \<in> S" "x1 \<in> S" "set rest \<subseteq> S" by simp_all
  from cmp inS obtain c where c: "cmp x1 x0 = Return c" "c < 0 \<longleftrightarrow> le x1 x0" by blast
  have "\<exists>run left. extend_run cmp (c < 0) x1 rest = Return (run, left) \<and>
           sorted_wrt (\<lambda>a b. if c < 0 then le b a else le a b) (x1 # run)"
    using cmp tot tr inS(2,3) by (rule extend_run_sorted)
  then obtain run left where
    r: "extend_run cmp (c < 0) x1 rest = Return (run, left)"
       "sorted_wrt (\<lambda>a b. if c < 0 then le b a else le a b) (x1 # run)" by blast
  show ?thesis
  proof (cases "c < 0")
    case True
    with c(2) have "le x1 x0" by simp
    with r(2) True tr have "sorted_wrt (\<lambda>a b. le b a) (x0 # x1 # run)" by auto
    then have "sorted_wrt le (rev (x0 # x1 # run))"
      unfolding sorted_wrt_rev .
    with True c(1) r(1) xs show ?thesis by simp
  next
    case False
    with c(2) tot[of x0 x1] have "le x0 x1" by blast
    with r(2) False tr have "sorted_wrt le (x0 # x1 # run)" by auto
    with False c(1) r(1) xs show ?thesis by simp
  qed
qed

lemma binary_search_rel:
  assumes cmp: "\<forall>x\<in>S. \<forall>y\<in>S. \<exists>c. cmp x y = Return c \<and> (c < 0 \<longleftrightarrow> le x y)"
      and tot: "\<And>a b. le a b \<or> le b a"
      and tr: "\<And>a b c. le a b \<Longrightarrow> le b c \<Longrightarrow> le a c"
      and "pivot \<in> S" "set xs \<subseteq> S" "sorted_wrt le xs"
      and "left \<le> right" "right \<le> length xs"
      and "\<forall>i<left. le (xs ! i) pivot"
      and "\<forall>i. right \<le> i \<and> i < length xs \<longrightarrow> le pivot (xs ! i)"
  shows "\<exists>p. binary_search cmp pivot xs left right = Return p \<and> p \<le> length xs \<and>
             (\<forall>i<p. le (xs ! i) pivot) \<and>
             (\<forall>i. p \<le> i \<and> i < length xs \<longrightarrow> le pivot (xs ! i))"
  using assms(1,4-10)
proof (induction cmp pivot xs left right rule: binary_search.induct)
  case (1 cmp pivot xs left right)
  note sim = binary_search.simps[of cmp pivot xs left right]
  show ?case
  proof (cases "left < right")
    case False
    with "1.prems" have "left = right" by simp
    with "1.prems" show ?thesis by (simp add: binary_search.simps)
  next
    case True
    let ?mid = "left + (right - left) div 2"
    from True "1.prems" have mid: "left \<le> ?mid" "?mid < right" "?mid < length xs" by auto
    then have "xs ! ?mid \<in> S" using "1.prems"(3) by (meson nth_mem subsetD)
    with "1.prems"(1,2) obtain c where
      c: "cmp pivot (xs ! ?mid) = Return c" "c < 0 \<longleftrightarrow> le pivot (xs ! ?mid)" by blast
    show ?thesis
    proof (cases "c < 0")
      case lt: True
      with c(2) have pm: "le pivot (xs ! ?mid)" by simp
      have up: "\<forall>i. ?mid \<le> i \<and> i < length xs \<longrightarrow> le pivot (xs ! i)"
      proof (intro allI impI)
        fix i assume i: "?mid \<le> i \<and> i < length xs"
        show "le pivot (xs ! i)"
        proof (cases "i = ?mid")
          case True with pm show ?thesis by simp
        next
          case False
          with i have "?mid < i" by simp
          with i "1.prems"(4) have "le (xs ! ?mid) (xs ! i)"
            by (simp add: sorted_wrt_iff_nth_less)
          with pm tr show ?thesis by blast
        qed
      qed
      from "1.IH"(1)[OF True c(1) lt "1.prems"(1,2,3,4) mid(1) _ "1.prems"(7) up] mid
      obtain p where "binary_search cmp pivot xs left ?mid = Return p" "p \<le> length xs"
        "\<forall>i<p. le (xs ! i) pivot" "\<forall>i. p \<le> i \<and> i < length xs \<longrightarrow> le pivot (xs ! i)"
        by auto
      with True c(1) lt show ?thesis by (simp add: sim)
    next
      case ge: False
      with c(2) tot[of pivot "xs ! ?mid"] have mp: "le (xs ! ?mid) pivot" by blast
      have low: "\<forall>i<?mid + 1. le (xs ! i) pivot"
      proof (intro allI impI)
        fix i assume i: "i < ?mid + 1"
        show "le (xs ! i) pivot"
        proof (cases "i = ?mid")
          case True with mp show ?thesis by simp
        next
          case False
          with i have "i < ?mid" by simp
          with mid "1.prems"(4) have "le (xs ! i) (xs ! ?mid)"
            by (simp add: sorted_wrt_iff_nth_less)
          with mp tr show ?thesis by blast
        qed
      qed
      from mid have m1: "?mid + 1 \<le> right" by simp
      from "1.IH"(2)[OF True c(1) ge "1.prems"(1,2,3,4) m1 "1.prems"(6) low "1.prems"(8)]
      obtain p where "binary_search cmp pivot xs (?mid + 1) right = Return p" "p \<le> length xs"
        "\<forall>i<p. le (xs ! i) pivot" "\<forall>i. p \<le> i \<and> i < length xs \<longrightarrow> le pivot (xs ! i)"
        by auto
      with True c(1) ge show ?thesis by (simp add: sim)
    qed
  qed
qed

lemma insert_at_sorted:
  assumes "sorted_wrt le xs" "p \<le> length xs"
      and "\<forall>i<p. le (xs ! i) pivot"
      and "\<forall>i. p \<le> i \<and> i < length xs \<longrightarrow> le pivot (xs ! i)"
  shows "sorted_wrt le (take p xs @ pivot # drop p xs)"
proof -
  from assms(1) have "sorted_wrt le (take p xs @ drop p xs)" by simp
  then have s: "sorted_wrt le (take p xs)" "sorted_wrt le (drop p xs)"
    "\<forall>x\<in>set (take p xs). \<forall>y\<in>set (drop p xs). le x y"
    unfolding sorted_wrt_append by simp_all
  have a: "\<forall>x\<in>set (take p xs). le x pivot"
    using assms(2,3) by (auto simp: in_set_conv_nth)
  have b: "\<forall>y\<in>set (drop p xs). le pivot y"
  proof
    fix y assume "y \<in> set (drop p xs)"
    then obtain i where "i < length xs - p" "y = xs ! (p + i)"
      using assms(2) by (auto simp: in_set_conv_nth)
    with assms(4) show "le pivot y" by simp
  qed
  from s a b show ?thesis by (simp add: sorted_wrt_append)
qed

lemma binary_insertion_sort_rel:
  assumes cmp: "\<forall>x\<in>S. \<forall>y\<in>S. \<exists>c. cmp x y = Return c \<and> (c < 0 \<longleftrightarrow> le x y)"
      and tot: "\<And>a b. le a b \<or> le b a"
      and tr: "\<And>a b c. le a b \<Longrightarrow> le b c \<Longrightarrow> le a c"
      and "set run \<subseteq> S" "set rest \<subseteq> S" "sorted_wrt le run"
  shows "\<exists>ys. binary_insertion_sort cmp run rest = Return ys \<and> sorted_wrt le ys"
  using assms(4-6)
proof (induction rest arbitrary: run)
  case Nil
  then show ?case by simp
next
  case (Cons pivot rest)
  from Cons.prems have inS: "pivot \<in> S" "set rest \<subseteq> S" by simp_all
  have "\<exists>p. binary_search cmp pivot run 0 (length run) = Return p \<and> p \<le> length run \<and>
             (\<forall>i<p. le (run ! i) pivot) \<and>
             (\<forall>i. p \<le> i \<and> i < length run \<longrightarrow> le pivot (run ! i))"
    using cmp tot tr inS(1) Cons.prems(1,3) by (rule binary_search_rel) auto
  then obtain p where p: "binary_search cmp pivot run 0 (length run) = Return p" "p \<le> length run"
    "\<forall>i<p. le (run ! i) pivot" "\<forall>i. p \<le> i \<and> i < length run \<longrightarrow> le pivot (run ! i)"
    by auto
  have s: "sorted_wrt le (take p run @ pivot # drop p run)"
    using Cons.prems(3) p(2,3,4) by (rule insert_at_sorted)
  have "set (take p run @ pivot # drop p run) \<subseteq> S"
    using Cons.prems(1) inS(1) by (auto dest: in_set_takeD in_set_dropD)
  from Cons.IH[OF this inS(2) s] p(1) show ?case by simp
qed

lemma array_sort_rel:
  assumes "\<forall>x\<in>set xs. \<forall>y\<in>set xs. \<exists>c. cmp x y = Return c \<and> (c < 0 \<longleftrightarrow> le x y)"
      and "\<And>a b. le a b \<or> le b a"
      and "\<And>a b c. le a b \<Longrightarrow> le b c \<Longrightarrow> le a c"
  shows "\<exists>ys. array_sort cmp xs = Return ys \<and> mset ys = mset xs \<and> sorted_wrt le ys"
proof (cases "length xs < 2")
  case True
  then have "sorted_wrt le xs"
    by (cases xs) (auto simp: Suc_less_eq2 less_Suc_eq_0_disj)
  with True show ?thesis by (simp add: array_sort_def)
next
  case False
  have "\<exists>run left. count_and_make_run cmp xs = Return (run, left) \<and> sorted_wrt le run"
    using assms subset_refl by (rule count_and_make_run_sorted)
  then obtain run left where
    r: "count_and_make_run cmp xs = Return (run, left)" "sorted_wrt le run" by blast
  from count_and_make_run_mset[OF r(1)] have m: "mset run + mset left = mset xs" .
  then have "set run \<union> set left = set xs" by (metis set_mset_mset set_mset_union)
  then have sub: "set run \<subseteq> set xs" "set left \<subseteq> set xs" by auto
  have "\<exists>ys. binary_insertion_sort cmp run left = Return ys \<and> sorted_wrt le ys"
    using assms sub r(2) by (rule binary_insertion_sort_rel)
  then obtain ys where
    ys: "binary_insertion_sort cmp run left = Return ys" "sorted_wrt le ys" by blast
  from binary_insertion_sort_mset[OF ys(1)] m have "mset ys = mset xs" by simp
  with False r(1) ys show ?thesis by (simp add: array_sort_def)
qed

subsection \<open>The pages of paginate\<close>

text \<open>
  C3, as the code has it. When \<open>read\<close> returns a sequence of records, the records that
  pass the predicate (sorted, when a sort is asked for) are \<open>ys\<close> and the page size is at
  least 1: for every page number from 1 on, \<open>paginate\<close> returns the records of \<open>ys\<close> at the
  indices from \<open>(pageNumber - 1) * pageSize\<close> up to, not including,
  \<open>pageNumber * pageSize\<close>, with \<open>total\<close> the number of records that pass the predicate
  and \<open>totalPages\<close> the ceiling of \<open>total / pageSize\<close>; a page past the last one is empty;
  page 0 is empty.
\<close>

theorem paginate_pages:
  assumes "read fl s filename (JArr []) = (Return (JArr xs), s1)"
      and "sort_data conv_gt sortSpec (filter predicate xs) = Return ys"
      and "1 \<le> pageSize"
  shows "(1 \<le> pageNumber \<longrightarrow>
            paginate conv_gt fl s filename predicate pageNumber pageSize sortSpec =
              (Return \<lparr>items = take (nat pageSize) (drop (nat ((pageNumber - 1) * pageSize)) ys),
                        page = pageNumber, limit = pageSize,
                        total = length (filter predicate xs),
                        totalPages = Finite \<lceil>real (length (filter predicate xs)) / real_of_int pageSize\<rceil>\<rparr>, s1)) \<and>
         (1 \<le> pageNumber \<and> int (length (filter predicate xs)) \<le> (pageNumber - 1) * pageSize \<longrightarrow>
            take (nat pageSize) (drop (nat ((pageNumber - 1) * pageSize)) ys) = []) \<and>
         (pageNumber = 0 \<longrightarrow>
            paginate conv_gt fl s filename predicate pageNumber pageSize sortSpec =
              (Return \<lparr>items = [], page = 0, limit = pageSize,
                        total = length (filter predicate xs),
                        totalPages = Finite \<lceil>real (length (filter predicate xs)) / real_of_int pageSize\<rceil>\<rparr>, s1))"
proof -
  note len = sort_data_length[OF assms(2)]
  have a: "1 \<le> pageNumber \<Longrightarrow> ?thesis"
    using assms len by (simp add: paginate_def Let_def slice_page ceil_div_pos)
  have b: "pageNumber = 0 \<Longrightarrow> ?thesis"
    using assms len slice_page0[OF assms(3), of ys] by (simp add: paginate_def Let_def ceil_div_pos)
  show ?thesis using a b by (cases "1 \<le> pageNumber"; cases "pageNumber = 0") auto
qed

theorem paginate_pages_witness:
  "read no_faults (store_with ''lessons.json'' (JArr (map with_id [0..<25]))) ''lessons.json'' (JArr []) =
     (Return (JArr (map with_id [0..<25])), store_with ''lessons.json'' (JArr (map with_id [0..<25]))) \<and>
   sort_data no_conversion None (filter accept_all (map with_id [0..<25])) = Return (map with_id [0..<25]) \<and>
   (1::int) \<le> 10 \<and> (1::int) \<le> 3 \<and>
   fst (paginate no_conversion no_faults (store_with ''lessons.json'' (JArr (map with_id [0..<25])))
          ''lessons.json'' accept_all 1 10 None) =
     Return \<lparr>items = map with_id [0..<10], page = 1, limit = 10, total = 25, totalPages = Finite 3\<rparr> \<and>
   fst (paginate no_conversion no_faults (store_with ''lessons.json'' (JArr (map with_id [0..<25])))
          ''lessons.json'' accept_all 3 10 None) =
     Return \<lparr>items = map with_id [20..<25], page = 3, limit = 10, total = 25, totalPages = Finite 3\<rparr> \<and>
   fst (paginate no_conversion no_faults (store_with ''lessons.json'' (JArr (map with_id [0..<25])))
          ''lessons.json'' accept_all 4 10 None) =
     Return \<lparr>items = [], page = 4, limit = 10, total = 25, totalPages = Finite 3\<rparr> \<and>
   fst (paginate no_conversion no_faults (store_with ''lessons.json'' (JArr (map with_id [0..<25])))
          ''lessons.json'' accept_all 0 10 None) =
     Return \<lparr>items = [], page = 0, limit = 10, total = 25, totalPages = Finite 3\<rparr>"
proof -
  let ?xs = "map with_id [0..<25]"
  let ?s = "store_with ''lessons.json'' (JArr ?xs)"
  have r: "read no_faults ?s ''lessons.json'' (JArr []) = (Return (JArr ?xs), ?s)"
    by (simp add: read_cases store_with_def JSON_stringify_def no_faults_def)
  have f: "filter accept_all ?xs = ?xs" by (simp add: accept_all_def)
  have sd: "sort_data no_conversion None (filter accept_all ?xs) = Return ?xs"
    by (simp add: sort_data_def f)
  have p: "(1::int) \<le> 10" by simp
  have d10: "take 10 ?xs = map with_id [0..<10]" by (simp add: take_map)
  have d20: "take 10 (drop 20 ?xs) = map with_id [20..<25]" by (simp add: drop_map)
  have d30: "take 10 (drop 30 ?xs) = []" by simp
  have c: "\<lceil>(25::real) / 10\<rceil> = 3" by simp
  note t = paginate_pages[OF r sd p]
  have p1: "fst (paginate no_conversion no_faults ?s ''lessons.json'' accept_all 1 10 None) =
     Return \<lparr>items = map with_id [0..<10], page = 1, limit = 10, total = 25, totalPages = Finite 3\<rparr>"
    using t[of 1] d10 c by (simp add: f)
  have p3: "fst (paginate no_conversion no_faults ?s ''lessons.json'' accept_all 3 10 None) =
     Return \<lparr>items = map with_id [20..<25], page = 3, limit = 10, total = 25, totalPages = Finite 3\<rparr>"
    using t[of 3] d20 c by (simp add: f)
  have p4: "fst (paginate no_conversion no_faults ?s ''lessons.json'' accept_all 4 10 None) =
     Return \<lparr>items = [], page = 4, limit = 10, total = 25, totalPages = Finite 3\<rparr>"
    using t[of 4] d30 c by (simp add: f)
  have p0: "fst (paginate no_conversion no_faults ?s ''lessons.json'' accept_all 0 10 None) =
     Return \<lparr>items = [], page = 0, limit = 10, total = 25, totalPages = Finite 3\<rparr>"
    using t[of 0] c by (simp add: f)
  from r sd p1 p3 p4 p0 show ?thesis by simp
qed

text \<open>
  Below page 0, and with a page size below 1, the page is not that index range:
  \<open>slice\<close> counts a negative index from the end. Of 25 records, page -1 of size 10 is the
  ten records at indices 5 to 14, neither empty nor the last page; page 1 of size -10 is
  the fifteen records at indices 0 to 14.
\<close>

theorem paginate_negative_page:
  "fst (paginate no_conversion no_faults (store_with ''lessons.json'' (JArr (map with_id [0..<25])))
          ''lessons.json'' accept_all (- 1) 10 None) =
     Return \<lparr>items = map with_id [5..<15], page = - 1, limit = 10, total = 25, totalPages = Finite 3\<rparr> \<and>
   map with_id [5..<15] \<noteq> [] \<and>
   map with_id [5..<15] \<noteq> drop 20 (map with_id [0..<25]) \<and>
   fst (paginate no_conversion no_faults (store_with ''lessons.json'' (JArr (map with_id [0..<25])))
          ''lessons.json'' accept_all 1 (- 10) None) =
     Return \<lparr>items = map with_id [0..<15], page = 1, limit = - 10, total = 25,
             totalPages = Finite (- 2)\<rparr>"
  by code_simp

lemma string_lt_less: "string_lt a b = (a < b)"
  by (induction a b rule: string_lt.induct) (auto simp: less_char_def)

lemma js_gt_number_like:
  assumes "is_number_like a" "is_number_like b"
  shows "\<exists>x y. to_number a = Some (Finite x) \<and> to_number b = Some (Finite y) \<and>
               js_gt cg a b = (y < x)"
  using assms
  by (cases a rule: is_number_like.cases; cases b rule: is_number_like.cases)
     (simp_all add: js_gt_def)

lemma js_gt_strings: "js_gt cg (Some (JStr x)) (Some (JStr y)) = (y < x)"
  by (simp add: js_gt_def string_lt_less)

lemma number_like_orders:
  assumes "\<forall>k\<in>set ks. is_number_like k"
  shows "gt_orders cg ks"
proof -
  have asym: "\<not> (js_gt cg a b \<and> js_gt cg b a)" if "a \<in> set ks" "b \<in> set ks" for a b
    using js_gt_number_like[of a b cg] js_gt_number_like[of b a cg] that assms by auto
  have ntr: "\<not> js_gt cg a c"
    if "a \<in> set ks" "b \<in> set ks" "c \<in> set ks" "\<not> js_gt cg a b" "\<not> js_gt cg b c" for a b c
    using js_gt_number_like[of a b cg] js_gt_number_like[of b c cg] js_gt_number_like[of a c cg]
      that assms by auto
  from asym ntr show ?thesis unfolding gt_orders_def by blast
qed

lemma text_orders:
  assumes "\<forall>k\<in>set ks. is_text k"
  shows "gt_orders cg ks"
proof -
  have str: "\<exists>x. a = Some (JStr x)" if "a \<in> set ks" for a
    using that assms by (cases a rule: is_text.cases) auto
  have asym: "\<not> (js_gt cg a b \<and> js_gt cg b a)" if "a \<in> set ks" "b \<in> set ks" for a b
    using str[OF that(1)] str[OF that(2)] by (auto simp: js_gt_strings)
  have ntr: "\<not> js_gt cg a c"
    if "a \<in> set ks" "b \<in> set ks" "c \<in> set ks" "\<not> js_gt cg a b" "\<not> js_gt cg b c" for a b c
    using str[OF that(1)] str[OF that(2)] str[OF that(3)] that(4,5)
    by (auto simp: js_gt_strings)
  from asym ntr show ?thesis unfolding gt_orders_def by blast
qed

lemma get_prop_sort_key: "r \<noteq> JNull \<Longrightarrow> get_prop r f = Return (sort_key f r)"
  by (cases r) (simp_all add: sort_key_def)

lemma sort_key_null: "\<not> is_number_like (sort_key f JNull) \<and> \<not> is_text (sort_key f JNull)"
  by (simp add: sort_key_def)

lemma compare_fn_keys:
  assumes "get_prop a f = Return ka" "get_prop b f = Return kb"
  shows "compare_fn cg \<lparr>field = f, order = ord\<rparr> a b =
           Return (if ord = ''desc'' then (if js_gt cg kb ka then 1 else - 1)
                   else (if js_gt cg ka kb then 1 else - 1))"
  using assms by (simp add: compare_fn_def)

text \<open>
  Where \<open>></\<close> orders the keys, the sort returns the records in the order asked for.
\<close>

lemma sort_data_ordered:
  assumes nn: "\<forall>r\<in>set data. r \<noteq> JNull"
      and ord: "gt_orders cg (map (sort_key f) data)"
  shows "\<exists>ys. sort_data cg (Some \<lparr>field = f, order = ord\<rparr>) data = Return ys \<and>
              mset ys = mset data \<and>
              (if ord = ''desc''
               then sorted_wrt (\<lambda>a b. \<not> js_gt cg (sort_key f b) (sort_key f a)) ys
               else sorted_wrt (\<lambda>a b. \<not> js_gt cg (sort_key f a) (sort_key f b)) ys)"
proof -
  let ?K = "sort_key f ` set data"
  let ?sp = "\<lparr>field = f, order = ord\<rparr>"
  define known where "known = (\<lambda>a. sort_key f a \<in> ?K)"
  define before where "before = (\<lambda>a b.
      if ord = ''desc'' then \<not> js_gt cg (sort_key f b) (sort_key f a)
      else \<not> js_gt cg (sort_key f a) (sort_key f b))"
  define le where "le = (\<lambda>a b. \<not> known a \<or> (known b \<and> before a b))"
  have K: "set (map (sort_key f) data) = ?K" by simp
  from ord have o1: "\<forall>a\<in>?K. \<forall>b\<in>?K. \<not> (js_gt cg a b \<and> js_gt cg b a)"
    and o2: "\<forall>a\<in>?K. \<forall>b\<in>?K. \<forall>c\<in>?K.
         \<not> js_gt cg a b \<and> \<not> js_gt cg b c \<longrightarrow> \<not> js_gt cg a c"
    unfolding gt_orders_def K by blast+
  have asym: "\<not> (js_gt cg a b \<and> js_gt cg b a)" if "a \<in> ?K" "b \<in> ?K" for a b
    using o1 that by blast
  have ntr: "\<not> js_gt cg a c"
    if "a \<in> ?K" "b \<in> ?K" "c \<in> ?K" "\<not> js_gt cg a b" "\<not> js_gt cg b c" for a b c
    using o2 that by blast
  have keys: "get_prop a f = Return (sort_key f a)" if "a \<in> set data" for a
    using nn that by (simp add: get_prop_sort_key)
  have cmp: "\<forall>a\<in>set data. \<forall>b\<in>set data.
               \<exists>c. compare_fn cg ?sp a b = Return c \<and> (c < 0 \<longleftrightarrow> le a b)"
  proof (intro ballI)
    fix a b assume ab: "a \<in> set data" "b \<in> set data"
    then have "known a" "known b" by (simp_all add: known_def)
    then show "\<exists>c. compare_fn cg ?sp a b = Return c \<and> (c < 0 \<longleftrightarrow> le a b)"
      using keys[OF ab(1)] keys[OF ab(2)] by (simp add: compare_fn_keys le_def before_def)
  qed
  have btot: "before a b \<or> before b a" if "known a" "known b" for a b
    using asym[of "sort_key f a" "sort_key f b"] asym[of "sort_key f b" "sort_key f a"] that
    by (auto simp: before_def known_def)
  have btr: "before a c" if "known a" "known b" "known c" "before a b" "before b c" for a b c
  proof (cases "ord = ''desc''")
    case True
    with that have "\<not> js_gt cg (sort_key f c) (sort_key f b)"
      "\<not> js_gt cg (sort_key f b) (sort_key f a)" by (simp_all add: before_def)
    from ntr[OF _ _ _ this] that(1-3) True show ?thesis
      by (simp add: before_def known_def)
  next
    case False
    with that have "\<not> js_gt cg (sort_key f a) (sort_key f b)"
      "\<not> js_gt cg (sort_key f b) (sort_key f c)" by (simp_all add: before_def)
    from ntr[OF _ _ _ this] that(1-3) False show ?thesis
      by (simp add: before_def known_def)
  qed
  have tot: "le a b \<or> le b a" for a b
    using btot[of a b] by (auto simp: le_def)
  have tr: "le a b \<Longrightarrow> le b c \<Longrightarrow> le a c" for a b c
    using btr[of a b c] by (auto simp: le_def)
  have "\<exists>ys. array_sort (compare_fn cg ?sp) data = Return ys \<and> mset ys = mset data \<and>
             sorted_wrt le ys"
    using cmp tot tr by (rule array_sort_rel)
  then obtain ys where ys: "array_sort (compare_fn cg ?sp) data = Return ys" "mset ys = mset data"
    "sorted_wrt le ys" by blast
  have "set ys = set data" using ys(2) by (metis set_mset_mset)
  then have inK: "\<forall>a\<in>set ys. known a" by (simp add: known_def)
  have "sorted_wrt before ys"
    by (rule sorted_wrt_mono_rel[OF _ ys(3)]) (use inK in \<open>auto simp: le_def\<close>)
  then have "if ord = ''desc''
               then sorted_wrt (\<lambda>a b. \<not> js_gt cg (sort_key f b) (sort_key f a)) ys
               else sorted_wrt (\<lambda>a b. \<not> js_gt cg (sort_key f a) (sort_key f b)) ys"
    by (cases "ord = ''desc''") (simp_all add: before_def)
  with ys(1,2) show ?thesis by (auto simp: sort_data_def)
qed

subsection \<open>The order of a sorted page\<close>

text \<open>
  C4, as the code has it. \<open>read\<close> returns a sequence of records, and among the sort keys
  of the records that pass the predicate \<open>></\<close> is an order: the keys are all numbers,
  \<open>null\<close> or booleans, or they are all strings, or no record is \<open>null\<close> and of two keys
  never each is greater than the other and "not greater" carries over from \<open>a\<close>, \<open>b\<close>
  and \<open>b\<close>, \<open>c\<close> to \<open>a\<close>, \<open>c\<close>. Then \<open>paginate\<close> with a sort on that field cuts its pages
  (page number and page size at least 1) from a rearrangement \<open>ys\<close> of the records that
  pass the predicate, ordered by the field with \<open>></\<close>: when the order asked for is
  \<open>desc\<close> no record is followed by one with a greater key, otherwise no record is
  followed by one with a smaller key. The comparison is a strict greater-than: for two
  records neither of whose keys is greater, and so for two records with equal keys, it
  answers -1 whichever way round, and no other field breaks the tie. Records with the
  scores 3, 1, 2 come out as 3, 2, 1 descending and 1, 2, 3 ascending.
\<close>

theorem paginate_sorts:
  assumes "read fl s filename (JArr []) = (Return (JArr xs), s1)"
      and "(\<forall>r\<in>set (filter predicate xs). is_number_like (sort_key f r)) \<or>
           (\<forall>r\<in>set (filter predicate xs). is_text (sort_key f r)) \<or>
           ((\<forall>r\<in>set (filter predicate xs). r \<noteq> JNull) \<and>
            gt_orders conv_gt (map (sort_key f) (filter predicate xs)))"
      and "1 \<le> pageNumber" and "1 \<le> pageSize"
  shows "\<exists>ys. mset ys = mset (filter predicate xs) \<and>
              (if ord = ''desc''
               then sorted_wrt (\<lambda>a b. \<not> js_gt conv_gt (sort_key f b) (sort_key f a)) ys
               else sorted_wrt (\<lambda>a b. \<not> js_gt conv_gt (sort_key f a) (sort_key f b)) ys) \<and>
              fst (paginate conv_gt fl s filename predicate pageNumber pageSize
                     (Some \<lparr>field = f, order = ord\<rparr>)) =
                Return \<lparr>items = take (nat pageSize) (drop (nat ((pageNumber - 1) * pageSize)) ys),
                        page = pageNumber, limit = pageSize,
                        total = length ys,
                        totalPages = Finite \<lceil>real (length ys) / real_of_int pageSize\<rceil>\<rparr> \<and>
              (\<forall>a\<in>set ys. \<forall>b\<in>set ys.
                 \<not> js_gt conv_gt (sort_key f a) (sort_key f b) \<and>
                 \<not> js_gt conv_gt (sort_key f b) (sort_key f a) \<longrightarrow>
                 compare_fn conv_gt \<lparr>field = f, order = ord\<rparr> a b = Return (- 1) \<and>
                 compare_fn conv_gt \<lparr>field = f, order = ord\<rparr> b a = Return (- 1)) \<and>
              (\<forall>a\<in>set ys. \<forall>b\<in>set ys. sort_key f a = sort_key f b \<longrightarrow>
                 compare_fn conv_gt \<lparr>field = f, order = ord\<rparr> a b = Return (- 1) \<and>
                 compare_fn conv_gt \<lparr>field = f, order = ord\<rparr> b a = Return (- 1))"
proof -
  let ?data = "filter predicate xs"
  let ?sp = "\<lparr>field = f, order = ord\<rparr>"
  have nn: "\<forall>r\<in>set ?data. r \<noteq> JNull"
    using assms(2) sort_key_null[of f] by blast
  have go: "gt_orders conv_gt (map (sort_key f) ?data)"
  proof -
    from assms(2) consider
        (n) "\<forall>k\<in>set (map (sort_key f) ?data). is_number_like k"
      | (t) "\<forall>k\<in>set (map (sort_key f) ?data). is_text k"
      | (o) "gt_orders conv_gt (map (sort_key f) ?data)"
      by auto
    then show ?thesis
    proof cases
      case n then show ?thesis by (rule number_like_orders)
    next
      case t then show ?thesis by (rule text_orders)
    next
      case o then show ?thesis .
    qed
  qed
  from sort_data_ordered[OF nn go, of ord]
  obtain ys where ys: "sort_data conv_gt (Some ?sp) ?data = Return ys" "mset ys = mset ?data"
    "if ord = ''desc''
       then sorted_wrt (\<lambda>a b. \<not> js_gt conv_gt (sort_key f b) (sort_key f a)) ys
       else sorted_wrt (\<lambda>a b. \<not> js_gt conv_gt (sort_key f a) (sort_key f b)) ys"
    by blast
  have len: "length ys = length ?data" using ys(2) by (rule mset_eq_length)
  have pg: "fst (paginate conv_gt fl s filename predicate pageNumber pageSize (Some ?sp)) =
                Return \<lparr>items = take (nat pageSize) (drop (nat ((pageNumber - 1) * pageSize)) ys),
                        page = pageNumber, limit = pageSize,
                        total = length ys,
                        totalPages = Finite \<lceil>real (length ys) / real_of_int pageSize\<rceil>\<rparr>"
    using assms(1,3,4) ys(1) len
    by (simp add: paginate_def Let_def slice_page ceil_div_pos)
  have sets: "set ys = set ?data" using ys(2) by (metis set_mset_mset)
  have ties: "\<forall>a\<in>set ys. \<forall>b\<in>set ys.
                 \<not> js_gt conv_gt (sort_key f a) (sort_key f b) \<and>
                 \<not> js_gt conv_gt (sort_key f b) (sort_key f a) \<longrightarrow>
                 compare_fn conv_gt ?sp a b = Return (- 1) \<and>
                 compare_fn conv_gt ?sp b a = Return (- 1)"
  proof (intro ballI impI)
    fix a b assume ab: "a \<in> set ys" "b \<in> set ys"
      and ng: "\<not> js_gt conv_gt (sort_key f a) (sort_key f b) \<and>
               \<not> js_gt conv_gt (sort_key f b) (sort_key f a)"
    from ab sets nn have g: "get_prop a f = Return (sort_key f a)" "get_prop b f = Return (sort_key f b)"
      by (simp_all add: get_prop_sort_key)
    from ng show "compare_fn conv_gt ?sp a b = Return (- 1) \<and> compare_fn conv_gt ?sp b a = Return (- 1)"
      by (simp add: compare_fn_keys[OF g] compare_fn_keys[OF g(2) g(1)])
  qed
  have equal: "\<forall>a\<in>set ys. \<forall>b\<in>set ys. sort_key f a = sort_key f b \<longrightarrow>
                 compare_fn conv_gt ?sp a b = Return (- 1) \<and>
                 compare_fn conv_gt ?sp b a = Return (- 1)"
  proof (intro ballI impI)
    fix a b assume ab: "a \<in> set ys" "b \<in> set ys" and eq: "sort_key f a = sort_key f b"
    from ab sets have "sort_key f a \<in> set (map (sort_key f) ?data)" by auto
    with go have "\<not> (js_gt conv_gt (sort_key f a) (sort_key f a) \<and>
                     js_gt conv_gt (sort_key f a) (sort_key f a))"
      unfolding gt_orders_def by blast
    with eq have "\<not> js_gt conv_gt (sort_key f a) (sort_key f b) \<and>
                  \<not> js_gt conv_gt (sort_key f b) (sort_key f a)" by simp
    with ties ab show "compare_fn conv_gt ?sp a b = Return (- 1) \<and>
                       compare_fn conv_gt ?sp b a = Return (- 1)" by blast
  qed
  from ys(2,3) pg ties equal show ?thesis by blast
qed

theorem paginate_sorts_witness:
  "read no_faults (store_with ''quizzes.json'' (JArr (map with_score [3, 1, 2]))) ''quizzes.json'' (JArr []) =
     (Return (JArr (map with_score [3, 1, 2])), store_with ''quizzes.json'' (JArr (map with_score [3, 1, 2]))) \<and>
   is_number_like (sort_key ''score'' (with_score 3)) \<and>
   is_number_like (sort_key ''score'' (with_score 1)) \<and>
   is_number_like (sort_key ''score'' (with_score 2)) \<and>
   (1::int) \<le> 1 \<and> (1::int) \<le> 10 \<and>
   fst (paginate no_conversion no_faults (store_with ''quizzes.json'' (JArr (map with_score [3, 1, 2])))
          ''quizzes.json'' accept_all 1 10 (Some \<lparr>field = ''score'', order = ''desc''\<rparr>)) =
     Return \<lparr>items = map with_score [3, 2, 1], page = 1, limit = 10, total = 3, totalPages = Finite 1\<rparr> \<and>
   fst (paginate no_conversion no_faults (store_with ''quizzes.json'' (JArr (map with_score [3, 1, 2])))
          ''quizzes.json'' accept_all 1 10 (Some \<lparr>field = ''score'', order = ''asc''\<rparr>)) =
     Return \<lparr>items = map with_score [1, 2, 3], page = 1, limit = 10, total = 3, totalPages = Finite 1\<rparr>"
proof -
  let ?xs = "map with_score [3, 1, 2]"
  let ?s = "store_with ''quizzes.json'' (JArr ?xs)"
  have r: "read no_faults ?s ''quizzes.json'' (JArr []) = (Return (JArr ?xs), ?s)"
    by (simp add: read_cases store_with_def JSON_stringify_def no_faults_def)
  have g: "is_number_like (sort_key ''score'' (with_score 3))"
          "is_number_like (sort_key ''score'' (with_score 1))"
          "is_number_like (sort_key ''score'' (with_score 2))"
    by (simp_all add: with_score_def sort_key_def)
  have k: "(\<forall>r\<in>set (filter accept_all ?xs). is_number_like (sort_key ''score'' r)) \<or>
           (\<forall>r\<in>set (filter accept_all ?xs). is_text (sort_key ''score'' r)) \<or>
           ((\<forall>r\<in>set (filter accept_all ?xs). r \<noteq> JNull) \<and>
            gt_orders no_conversion (map (sort_key ''score'') (filter accept_all ?xs)))"
    using g by (simp add: accept_all_def)
  have p: "(1::int) \<le> 1" "(1::int) \<le> 10" by simp_all
  from paginate_sorts[OF r k p, of "''desc''"]
  obtain ys where ys: "mset ys = mset (filter accept_all ?xs)"
    "sorted_wrt (\<lambda>a b. \<not> js_gt no_conversion (sort_key ''score'' b) (sort_key ''score'' a)) ys"
    "fst (paginate no_conversion no_faults ?s ''quizzes.json'' accept_all 1 10
            (Some \<lparr>field = ''score'', order = ''desc''\<rparr>)) =
       Return \<lparr>items = take (nat 10) (drop (nat ((1 - 1) * 10)) ys), page = 1, limit = 10,
               total = length ys, totalPages = Finite \<lceil>real (length ys) / real_of_int 10\<rceil>\<rparr>"
    by auto
  have d: "fst (paginate no_conversion no_faults ?s ''quizzes.json'' accept_all 1 10
            (Some \<lparr>field = ''score'', order = ''desc''\<rparr>)) =
     Return \<lparr>items = map with_score [3, 2, 1], page = 1, limit = 10, total = 3, totalPages = Finite 1\<rparr>"
    by code_simp
  have a: "fst (paginate no_conversion no_faults ?s ''quizzes.json'' accept_all 1 10
            (Some \<lparr>field = ''score'', order = ''asc''\<rparr>)) =
     Return \<lparr>items = map with_score [1, 2, 3], page = 1, limit = 10, total = 3, totalPages = Finite 1\<rparr>"
    by code_simp
  from r g p d a ys show ?thesis by simp
qed

text \<open>
  Where \<open>></\<close> does not order the keys the page is not in order. Of four quizzes the
  second has no score, and \<open>undefined\<close> is neither greater nor smaller than a number:
  the scores 5, none, 7, 1 come out ascending as 1, 7, none, 5, with 7 ahead of 5.
\<close>

theorem paginate_mixed_keys_unsorted:
  "fst (paginate no_conversion no_faults
          (store_with ''quizzes.json'' (JArr [with_score 5, with_id 2, with_score 7, with_score 1]))
          ''quizzes.json'' accept_all 1 10 (Some \<lparr>field = ''score'', order = ''asc''\<rparr>)) =
     Return \<lparr>items = [with_score 1, with_score 7, with_id 2, with_score 5],
             page = 1, limit = 10, total = 4, totalPages = Finite 1\<rparr> \<and>
   js_gt no_conversion (sort_key ''score'' (with_score 7)) (sort_key ''score'' (with_score 5)) \<and>
   sort_key ''score'' (with_id 2) = None \<and>
   \<not> gt_orders no_conversion
        (map (sort_key ''score'') [with_score 5, with_id 2, with_score 7, with_score 1])"
  by code_simp

text \<open>
  Two quizzes with the same score come back in the opposite order: as the comparison
  answers -1 for them, the sort takes the two for a descending run and reverses it.
\<close>

lemma paginate_reverses_tie:
  "fst (paginate no_conversion no_faults
          (store_with ''quizzes.json''
             (JArr [JObj [(''id'', JNum 1), (''score'', JNum 2)],
                    JObj [(''id'', JNum 2), (''score'', JNum 2)]]))
          ''quizzes.json'' accept_all 1 10 (Some \<lparr>field = ''score'', order = ''asc''\<rparr>)) =
     Return \<lparr>items = [JObj [(''id'', JNum 2), (''score'', JNum 2)],
                      JObj [(''id'', JNum 1), (''score'', JNum 2)]],
             page = 1, limit = 10, total = 2, totalPages = Finite 1\<rparr>"
  by code_simp
section \<open>Facts about the AI gateway and the error responses\<close>

subsection \<open>chat and a completion without content\<close>

text \<open>
  C8. A response with status 200 whose body parses and has a first choice with a message
  settles the promise with that message's \<open>content\<close> whatever it is: with \<open>null\<close> when
  the content is \<open>null\<close>, with \<open>undefined\<close> when the message has no content. The
  format error is raised only when \<open>choices\<close>, its first element or the message is
  missing. A body that is the JSON \<open>null\<close> is rejected as a parse failure.
\<close>

theorem chat_resolves_null:
  "chat (Some ''secret'')
     (Response 200 (Json_text (JObj [(''choices'',
        JArr [JObj [(''message'', JObj [(''role'', JStr ''assistant''), (''content'', JNull)])]])])))
     ''deepseek-v3'' = Return (Resolved (Some JNull)) \<and>
   chat (Some ''secret'')
     (Response 200 (Json_text (JObj [(''choices'',
        JArr [JObj [(''message'', JObj [(''role'', JStr ''assistant'')])]])])))
     ''deepseek-v3'' = Return (Resolved None) \<and>
   chat (Some ''secret'') (Response 200 (Json_text JNull)) ''deepseek-v3'' =
     Return (Rejected (Error
       ''Failed to parse API response: Cannot read properties of null (reading 'choices')''))"
  by code_simp

text \<open>
  A key that \<open>AI_MODELS\<close> only inherits passes the check of the model key, and the
  request is sent; a key that is neither its own nor inherited is rejected.
\<close>

lemma chat_inherited_key:
  "chat (Some ''secret'')
     (Response 200 (Json_text (JObj [(''choices'',
        JArr [JObj [(''message'', JObj [(''content'', JStr ''hello'')])]])])))
     ''toString'' = Return (Resolved (Some (JStr ''hello''))) \<and>
   chat (Some ''secret'') Net_timeout ''gpt-5'' =
     Return (Rejected (Error ''Invalid model key: gpt-5''))"
  by code_simp

lemma chat_content_or_format_error:
  assumes "chat (Some key) (Response 200 (Json_text response)) modelKey = Return (Resolved content)"
  shows "\<exists>choices choice msg. get_prop response ''choices'' = Return (Some choices) \<and>
           get_prop choices ''0'' = Return (Some choice) \<and>
           get_prop choice ''message'' = Return (Some msg) \<and>
           get_prop msg ''content'' = Return content"
  using assms
  by (auto simp: chat_def chat_end_def chat_end_try_def invalid_format_def
      split: option.splits if_splits outcome.splits)

subsection \<open>The bodies of the responses\<close>

lemma no_data_field:
  "\<not> has_envelope_shape (JObj [(''success'', b), (''message'', m), (''errors'', es)])"
  by (simp add: has_envelope_shape_def split: json.splits)

lemma errorHandler_body:
  assumes "errorHandler node_env err = Return (st, body)"
  shows "\<exists>m es. body = JObj [(''success'', JBool False), (''message'', m), (''errors'', es)]"
  using assms by (auto simp: errorHandler_def Let_def split: outcome.splits)

lemma authMiddleware_body:
  assumes "authMiddleware session = Return (Some (st, body))"
  shows "st = 401 \<and>
         body = JObj [(''success'', JBool False), (''message'', JStr ''Authentication required''),
                      (''errors'', JArr [JStr ''Please log in to access this resource''])]"
  using assms
  by (auto simp: authMiddleware_def unauthenticated_def split: option.splits if_splits outcome.splits)

lemma error_shape_fields:
  "error_shape (JObj [(''success'', JBool False), (''message'', JStr m), (''errors'', JArr es)]) =
     list_all is_string es"
  by (simp add: error_shape_def)

lemma map_message_typed:
  "list_all has_message es \<Longrightarrow> \<exists>ms. map_message es = Return ms \<and> list_all is_string ms"
proof (induction es)
  case Nil
  then show ?case by simp
next
  case (Cons e es)
  then obtain ms where ms: "map_message es = Return ms" "list_all is_string ms" by auto
  from Cons.prems obtain m where "get_prop e ''message'' = Return (Some (JStr m))"
    by (auto simp: has_message_def split: outcome.splits option.splits json.splits)
  with ms show ?case by simp
qed

lemma or_else_string:
  "string_or_falsy v \<Longrightarrow> \<exists>m. or_else v (JStr d) = JStr m"
  by (cases v; cases "the v") (auto simp: string_or_falsy_def or_else_def)

lemma or_else_strings:
  "strings_or_falsy v \<Longrightarrow> \<exists>es. or_else v (JArr []) = JArr es \<and> list_all is_string es"
  by (cases v; cases "the v") (auto simp: strings_or_falsy_def or_else_def)

lemma errorHandler_typed:
  assumes "typed_error err"
  shows "\<exists>st body. errorHandler node_env err = Return (st, body) \<and> error_shape body"
proof (cases "map_of err ''name'' = Some (JStr ''ValidationError'')")
  case True
  with assms have "list_all has_message (Object_values (or_else (map_of err ''errors'') (JObj [])))"
    by (simp add: typed_error_def)
  from map_message_typed[OF this] obtain ms where
    ms: "map_message (Object_values (or_else (map_of err ''errors'') (JObj []))) = Return ms"
        "list_all is_string ms" by blast
  with True show ?thesis
    by (simp add: errorHandler_def Let_def error_shape_fields)
next
  case False
  with assms have t: "string_or_falsy (map_of err ''message'')" "strings_or_falsy (map_of err ''errors'')"
    by (simp_all add: typed_error_def)
  from or_else_string[OF t(1)] obtain m where
    m: "or_else (map_of err ''message'') (JStr ''Internal server error'') = JStr m" by blast
  from or_else_strings[OF t(2)] obtain es where
    es: "or_else (map_of err ''errors'') (JArr []) = JArr es" "list_all is_string es" by blast
  from False m es show ?thesis
    by (simp add: errorHandler_def Let_def error_shape_fields)
qed

lemma server_sites_well_formed: "\<forall>site\<in>set server_sites. well_formed d n site"
  by (simp add: server_sites_def well_formed_def ok_fields_def fail_fields_def
      has_envelope_shape_def error_shape_def)

lemma settings_sites_well_formed: "\<forall>site\<in>set settings_sites. well_formed d n site"
  by (simp add: settings_sites_def well_formed_def ok_fields_def fail_fields_def
      has_envelope_shape_def error_shape_def)

lemma chat_sites_well_formed: "\<forall>site\<in>set chat_sites. well_formed d n site"
  by (simp add: chat_sites_def well_formed_def ok_fields_def fail_fields_def
      has_envelope_shape_def error_shape_def)

lemma quizzes_sites_well_formed: "\<forall>site\<in>set quizzes_sites. well_formed d n site"
  by (simp add: quizzes_sites_def well_formed_def ok_fields_def fail_fields_def
      has_envelope_shape_def error_shape_def)

lemma part_000_sites_well_formed: "\<forall>site\<in>set part_000_sites. well_formed d n site"
  by (simp add: part_000_sites_def well_formed_def ok_fields_def fail_fields_def
      has_envelope_shape_def error_shape_def)

lemma part_001_sites_well_formed: "\<forall>site\<in>set part_001_sites. well_formed d n site"
  by (simp add: part_001_sites_def well_formed_def ok_fields_def fail_fields_def
      has_envelope_shape_def error_shape_def)

lemma part_002_sites_well_formed: "\<forall>site\<in>set part_002_sites. well_formed d n site"
  by (simp add: part_002_sites_def well_formed_def ok_fields_def fail_fields_def
      has_envelope_shape_def error_shape_def)

lemma part_003_sites_well_formed: "\<forall>site\<in>set part_003_sites. well_formed d n site"
  by (simp add: part_003_sites_def well_formed_def ok_fields_def fail_fields_def
      has_envelope_shape_def error_shape_def)

lemma part_004_sites_well_formed: "\<forall>site\<in>set part_004_sites. well_formed d n site"
  by (simp add: part_004_sites_def well_formed_def ok_fields_def fail_fields_def
      has_envelope_shape_def error_shape_def)

lemma part_005_sites_well_formed: "\<forall>site\<in>set part_005_sites. well_formed d n site"
  by (simp add: part_005_sites_def well_formed_def ok_fields_def fail_fields_def
      has_envelope_shape_def error_shape_def)

lemma part_006_sites_well_formed: "\<forall>site\<in>set part_006_sites. well_formed d n site"
  by (simp add: part_006_sites_def well_formed_def ok_fields_def fail_fields_def
      has_envelope_shape_def error_shape_def)

lemma response_sites_well_formed: "\<forall>site\<in>set response_sites. well_formed d n site"
  using server_sites_well_formed[of d n] settings_sites_well_formed[of d n]
    chat_sites_well_formed[of d n] quizzes_sites_well_formed[of d n]
    part_000_sites_well_formed[of d n] part_001_sites_well_formed[of d n]
    part_002_sites_well_formed[of d n] part_003_sites_well_formed[of d n]
    part_004_sites_well_formed[of d n] part_005_sites_well_formed[of d n]
    part_006_sites_well_formed[of d n]
  unfolding response_sites_def set_append by blast

text \<open>
  C9, as the code has it. Every body a route sends with \<open>res.json\<close>, whatever the object
  under \<open>data\<close> holds: with status 200 or 201 it is the envelope of all four fields,
  \<open>success\<close> (true), \<open>data\<close> (an object), \<open>message\<close> (a string) and \<open>errors\<close> (an array
  of strings); with any other status (400, 401, 404, 429, 500) it has the three fields
  \<open>success\<close> (false), \<open>message\<close> (a string) and \<open>errors\<close> (an array of strings) and no
  \<open>data\<close>. The body \<open>errorHandler\<close> sends has the three fields \<open>success\<close> (false),
  \<open>message\<close> and \<open>errors\<close>, in that order, and no \<open>data\<close>; it sends one, with a string as
  \<open>message\<close> and an array of strings as \<open>errors\<close>, for every error whose \<open>message\<close> is a
  string or falsy and whose \<open>errors\<close> is an array of strings or falsy, and for every
  \<open>ValidationError\<close> whose part errors each have a string as \<open>message\<close>. The body
  \<open>authMiddleware\<close> sends with status 401 is of the same three fields.
\<close>

theorem response_bodies:
  "(\<forall>site\<in>set response_sites.
      if site_status site = 200 \<or> site_status site = 201
      then has_envelope_shape (site_body d n site) \<and>
           get_prop (site_body d n site) ''success'' = Return (Some (JBool True))
      else error_shape (site_body d n site) \<and>
           get_prop (site_body d n site) ''data'' = Return None) \<and>
   (errorHandler node_env err = Return (st, body) \<longrightarrow>
      (\<exists>m es. body = JObj [(''success'', JBool False), (''message'', m), (''errors'', es)]) \<and>
      get_prop body ''data'' = Return None \<and> \<not> has_envelope_shape body) \<and>
   (typed_error err \<longrightarrow>
      (\<exists>st2 body2. errorHandler node_env err = Return (st2, body2) \<and> error_shape body2)) \<and>
   (authMiddleware session = Return (Some (st', body')) \<longrightarrow>
      st' = 401 \<and>
      body' = JObj [(''success'', JBool False), (''message'', JStr ''Authentication required''),
                    (''errors'', JArr [JStr ''Please log in to access this resource''])] \<and>
      get_prop body' ''data'' = Return None \<and> \<not> has_envelope_shape body' \<and>
      error_shape body')"
proof (intro conjI impI)
  show "\<forall>site\<in>set response_sites.
      if site_status site = 200 \<or> site_status site = 201
      then has_envelope_shape (site_body d n site) \<and>
           get_prop (site_body d n site) ''success'' = Return (Some (JBool True))
      else error_shape (site_body d n site) \<and>
           get_prop (site_body d n site) ''data'' = Return None"
    using response_sites_well_formed[of d n] unfolding well_formed_def .
next
  assume a: "errorHandler node_env err = Return (st, body)"
  from errorHandler_body[OF a] obtain m es where
    b: "body = JObj [(''success'', JBool False), (''message'', m), (''errors'', es)]" by blast
  then show "\<exists>m es. body = JObj [(''success'', JBool False), (''message'', m), (''errors'', es)]"
    by blast
  from b show "get_prop body ''data'' = Return None" by simp
  from b show "\<not> has_envelope_shape body" by (simp add: no_data_field)
next
  assume "typed_error err"
  then show "\<exists>st2 body2. errorHandler node_env err = Return (st2, body2) \<and> error_shape body2"
    by (rule errorHandler_typed)
next
  assume a: "authMiddleware session = Return (Some (st', body'))"
  note b = authMiddleware_body[OF a]
  from b show "st' = 401" by simp
  from b show "body' = JObj [(''success'', JBool False), (''message'', JStr ''Authentication required''),
                    (''errors'', JArr [JStr ''Please log in to access this resource''])]" by simp
  from b show "get_prop body' ''data'' = Return None" by simp
  from b show "\<not> has_envelope_shape body'" by (simp add: no_data_field)
  from b show "error_shape body'" by (simp add: error_shape_fields)
qed

theorem response_bodies_witness:
  "Site 112 200 (ok_fields (Str_lit ''Server is running'')) \<in> set response_sites \<and>
   site_body [(''status'', JStr ''healthy''), (''timestamp'', JStr ''2026-01-01T00:00:00.000Z'')] 0
       (Site 112 200 (ok_fields (Str_lit ''Server is running''))) =
     JObj [(''success'', JBool True),
           (''data'', JObj [(''status'', JStr ''healthy''),
                            (''timestamp'', JStr ''2026-01-01T00:00:00.000Z'')]),
           (''message'', JStr ''Server is running''), (''errors'', JArr [])] \<and>
   has_envelope_shape
     (JObj [(''success'', JBool True),
            (''data'', JObj [(''status'', JStr ''healthy''),
                             (''timestamp'', JStr ''2026-01-01T00:00:00.000Z'')]),
            (''message'', JStr ''Server is running''), (''errors'', JArr [])]) \<and>
   Site 201 404 (fail_fields (Str_lit ''Not found'') []) \<in> set response_sites \<and>
   error_shape (JObj [(''success'', JBool False), (''message'', JStr ''Not found''),
                      (''errors'', JArr [])]) \<and>
   typed_error [(''name'', JStr ''Error''), (''message'', JStr ''boom'')] \<and>
   errorHandler (Some ''production'') [(''name'', JStr ''Error''), (''message'', JStr ''boom'')] =
     Return (JNum 500, JObj [(''success'', JBool False), (''message'', JStr ''Internal server error''),
                             (''errors'', JArr [])]) \<and>
   get_prop (JObj [(''success'', JBool False), (''message'', JStr ''Internal server error''),
                   (''errors'', JArr [])]) ''data'' = Return None \<and>
   error_shape (JObj [(''success'', JBool False), (''message'', JStr ''Internal server error''),
                      (''errors'', JArr [])]) \<and>
   authMiddleware None =
     Return (Some (401, JObj [(''success'', JBool False), (''message'', JStr ''Authentication required''),
                      (''errors'', JArr [JStr ''Please log in to access this resource''])])) \<and>
   error_shape (JObj [(''success'', JBool False), (''message'', JStr ''Authentication required''),
                      (''errors'', JArr [JStr ''Please log in to access this resource''])])"
proof -
  let ?d = "[(''status'', JStr ''healthy''), (''timestamp'', JStr ''2026-01-01T00:00:00.000Z'')]"
  let ?err = "[(''name'', JStr ''Error''), (''message'', JStr ''boom'')]"
  let ?body = "JObj [(''success'', JBool False), (''message'', JStr ''Internal server error''),
                     (''errors'', JArr [])]"
  let ?body401 = "JObj [(''success'', JBool False), (''message'', JStr ''Authentication required''),
                        (''errors'', JArr [JStr ''Please log in to access this resource''])]"
  have h: "Site 112 200 (ok_fields (Str_lit ''Server is running'')) \<in> set response_sites"
    by (simp add: response_sites_def server_sites_def)
  have nf: "Site 201 404 (fail_fields (Str_lit ''Not found'') []) \<in> set response_sites"
    by (simp add: response_sites_def server_sites_def)
  have b1: "site_body ?d 0 (Site 112 200 (ok_fields (Str_lit ''Server is running''))) =
     JObj [(''success'', JBool True), (''data'', JObj ?d),
           (''message'', JStr ''Server is running''), (''errors'', JArr [])]"
    by (simp add: ok_fields_def)
  have b2: "site_body ?d 0 (Site 201 404 (fail_fields (Str_lit ''Not found'') [])) =
     JObj [(''success'', JBool False), (''message'', JStr ''Not found''), (''errors'', JArr [])]"
    by (simp add: fail_fields_def)
  have t: "typed_error ?err"
    by (simp add: typed_error_def string_or_falsy_def strings_or_falsy_def)
  have e: "errorHandler (Some ''production'') ?err = Return (JNum 500, ?body)"
    by (simp add: errorHandler_def or_else_def Let_def)
  have a: "authMiddleware None = Return (Some (401, ?body401))"
    by (simp add: authMiddleware_def unauthenticated_def)
  note r = response_bodies[of ?d 0 "Some ''production''" ?err "JNum 500" ?body None 401 ?body401]
  from bspec[OF r[THEN conjunct1] h]
  have "has_envelope_shape (site_body ?d 0 (Site 112 200 (ok_fields (Str_lit ''Server is running''))))"
    by simp
  then have s1: "has_envelope_shape
     (JObj [(''success'', JBool True), (''data'', JObj ?d),
            (''message'', JStr ''Server is running''), (''errors'', JArr [])])"
    unfolding b1 .
  from bspec[OF r[THEN conjunct1] nf]
  have "error_shape (site_body ?d 0 (Site 201 404 (fail_fields (Str_lit ''Not found'') [])))"
    by simp
  then have s2: "error_shape (JObj [(''success'', JBool False), (''message'', JStr ''Not found''),
                      (''errors'', JArr [])])"
    unfolding b2 .
  from r e t have s3: "get_prop ?body ''data'' = Return None" "error_shape ?body" by simp_all
  from r a have s4: "error_shape ?body401" by simp
  from h b1 s1 nf s2 t e s3 a s4 show ?thesis by simp
qed

text \<open>
  An error passed to \<open>errorHandler\<close> outside production: the body that goes out has no
  \<open>data\<close> field. And \<open>errorHandler\<close> sends on what it finds in the error: the \<open>errors\<close>
  of an \<open>AggregateError\<close>, which are error objects and not strings; \<open>null\<close> for a part of
  a \<open>ValidationError\<close> that has no \<open>message\<close>; a \<open>message\<close> that is an object.
\<close>

theorem error_body_lacks_data:
  "errorHandler None [(''name'', JStr ''Error''), (''message'', JStr ''boom'')] =
     Return (JNum 500, JObj [(''success'', JBool False), (''message'', JStr ''boom''),
                             (''errors'', JArr [])]) \<and>
   get_prop (JObj [(''success'', JBool False), (''message'', JStr ''boom''), (''errors'', JArr [])])
     ''data'' = Return None \<and>
   \<not> has_envelope_shape
        (JObj [(''success'', JBool False), (''message'', JStr ''boom''), (''errors'', JArr [])]) \<and>
   errorHandler None [(''name'', JStr ''AggregateError''),
                      (''message'', JStr ''All promises were rejected''),
                      (''errors'', JArr [JObj []])] =
     Return (JNum 500, JObj [(''success'', JBool False),
                             (''message'', JStr ''All promises were rejected''),
                             (''errors'', JArr [JObj []])]) \<and>
   \<not> list_all is_string [JObj []] \<and>
   errorHandler None [(''name'', JStr ''ValidationError''),
                      (''errors'', JObj [(''email'', JObj [(''kind'', JStr ''required'')])])] =
     Return (JNum 400, JObj [(''success'', JBool False), (''message'', JStr ''Validation error''),
                             (''errors'', JArr [JNull])]) \<and>
   \<not> list_all is_string [JNull] \<and>
   errorHandler None [(''message'', JObj [(''code'', JNum 1)])] =
     Return (JNum 500, JObj [(''success'', JBool False), (''message'', JObj [(''code'', JNum 1)]),
                             (''errors'', JArr [])]) \<and>
   \<not> is_string (JObj [(''code'', JNum 1)])"
  by (simp add: errorHandler_def or_else_def Let_def has_envelope_shape_def)
section \<open>Facts about calls that run side by side\<close>

lemma run_loop_rest: "microtasks w = [] \<Longrightarrow> timers w = [] \<Longrightarrow> run_loop clock w = Some w"
  by (subst run_loop.simps) simp

lemma run_loop_turn: "microtasks w \<noteq> [] \<or> timers w \<noteq> [] \<Longrightarrow> run_loop clock w = run_loop clock (turn clock w)"
  by (subst run_loop.simps) auto

lemma call_all_shape:
  "\<exists>s'. call_all w i filename new_items =
          w\<lparr>store := s',
            microtasks := microtasks w @
               reads filename (fst (read no_faults (store w) filename (JArr [])))
                 (zip [i..<i + length new_items] new_items)\<rparr> \<and>
        files s' = files (store w) \<and> fileLocks s' = fileLocks (store w)"
proof (induction new_items arbitrary: w i)
  case Nil
  show ?case by (intro exI[of _ "store w"]) (simp add: reads_def)
next
  case (Cons x rest)
  let ?w1 = "call_insert w i filename x"
  let ?r = "fst (read no_faults (store w) filename (JArr []))"
  have w1: "?w1 = w\<lparr>store := snd (read no_faults (store w) filename (JArr [])),
                     microtasks := microtasks w @ [After_read i filename x ?r]\<rparr>"
    by (simp add: call_insert_def split: prod.splits)
  have fl: "files (store ?w1) = files (store w)" "fileLocks (store ?w1) = fileLocks (store w)"
    using read_snd_files[of no_faults "store w" filename "JArr []"] by (simp_all add: w1)
  have r1: "fst (read no_faults (store ?w1) filename (JArr [])) = ?r"
    by (rule read_fst_files) (simp add: fl)
  from Cons.IH[of ?w1 "Suc i"] obtain s' where
    s': "call_all ?w1 (Suc i) filename rest =
          ?w1\<lparr>store := s',
            microtasks := microtasks ?w1 @ reads filename ?r (zip [Suc i..<Suc i + length rest] rest)\<rparr>"
       "files s' = files (store ?w1)" "fileLocks s' = fileLocks (store ?w1)"
    unfolding r1 by blast
  have z: "zip [i..<i + length (x # rest)] (x # rest) = (i, x) # zip [Suc i..<Suc i + length rest] rest"
    by (simp add: upt_rec)
  have "call_all w i filename (x # rest) = call_all ?w1 (Suc i) filename rest" by simp
  also note s'(1)
  also have "?w1\<lparr>store := s',
            microtasks := microtasks ?w1 @ reads filename ?r (zip [Suc i..<Suc i + length rest] rest)\<rparr> =
        w\<lparr>store := s', microtasks := microtasks w @
               reads filename ?r (zip [i..<i + length (x # rest)] (x # rest))\<rparr>"
    unfolding z by (simp add: w1 reads_def)
  finally show ?case using s'(2,3) fl by auto
qed

lemma write_locked_ok:
  "write_locked no_faults s filename tempPath filepath data =
     (Return (), s\<lparr>files := ((files s)(tempPath := None))(filepath \<mapsto> JSON_stringify data),
                    fileLocks := (fileLocks s)(filename := None)\<rparr>)"
  by (simp add: write_locked_def write_try_def writeFileSync_def renameSync_def no_faults_def
      releaseLock_def)

text \<open>While the lock is held, every call that comes to its write goes to sleep.\<close>

lemma absorb_reads:
  assumes "fileLocks (store w) filename = Some True"
      and "microtasks w = reads filename (Return (JArr xs)) ixs @ q" and "q \<noteq> []"
  shows "run_loop clock w =
         run_loop clock (w\<lparr>microtasks := q, timers := timers w @ sleeps clock filename xs ixs\<rparr>)"
  using assms
proof (induction ixs arbitrary: w)
  case Nil
  then have "w\<lparr>microtasks := q, timers := timers w @ sleeps clock filename xs []\<rparr> = w"
    by (cases w) (simp add: reads_def sleeps_def)
  then show ?case by simp
next
  case (Cons ix ixs)
  obtain i x where ix: "ix = (i, x)" by (cases ix)
  let ?w1 = "w\<lparr>microtasks := reads filename (Return (JArr xs)) ixs @ q,
               timers := timers w @ sleeps clock filename xs [(i, x)]\<rparr>"
  have t: "turn clock w = ?w1"
    using Cons.prems(1,2)
    by (simp add: turn_def ix reads_def sleeps_def acquire_attempt_def)
  have "run_loop clock w = run_loop clock (turn clock w)"
    using Cons.prems(2) by (intro run_loop_turn) (simp add: reads_def)
  also have "\<dots> = run_loop clock ?w1" by (simp only: t)
  also have "\<dots> = run_loop clock (?w1\<lparr>microtasks := q, timers := timers ?w1 @ sleeps clock filename xs ixs\<rparr>)"
    using Cons.prems(1,3) by (intro Cons.IH) simp_all
  also have "?w1\<lparr>microtasks := q, timers := timers ?w1 @ sleeps clock filename xs ixs\<rparr> =
             w\<lparr>microtasks := q, timers := timers w @ sleeps clock filename xs (ix # ixs)\<rparr>"
    by (simp add: ix sleeps_def)
  finally show ?case .
qed

text \<open>A call that holds the lock writes, releases the lock and settles.\<close>

lemma write_and_settle:
  assumes "microtasks w = [After_acquire i filename x data tempPath]"
  shows "run_loop clock w =
         run_loop clock
           (w\<lparr>store := (store w)\<lparr>files := ((files (store w))(tempPath := None))
                                      (path_join DATA_DIR filename \<mapsto> JSON_stringify data),
                                   fileLocks := (fileLocks (store w))(filename := None)\<rparr>,
              microtasks := [],
              settled := settled w @ [(i, Return x)]\<rparr>)"
proof -
  let ?s1 = "(store w)\<lparr>files := ((files (store w))(tempPath := None))
                                      (path_join DATA_DIR filename \<mapsto> JSON_stringify data),
                                   fileLocks := (fileLocks (store w))(filename := None)\<rparr>"
  let ?w1 = "w\<lparr>store := ?s1, microtasks := [After_write i x (Return ())]\<rparr>"
  have t1: "turn clock w = ?w1" using assms by (simp add: turn_def write_locked_ok)
  have t2: "turn clock ?w1 = w\<lparr>store := ?s1, microtasks := [], settled := settled w @ [(i, Return x)]\<rparr>"
    by (simp add: turn_def)
  have "run_loop clock w = run_loop clock (turn clock w)" using assms by (intro run_loop_turn) simp
  also have "\<dots> = run_loop clock (turn clock ?w1)" unfolding t1 by (intro run_loop_turn) simp
  finally show ?thesis unfolding t2 .
qed

text \<open>The sleepers wake one after another; each finds the lock free and writes.\<close>

lemma wake_sleepers:
  assumes "microtasks w = []" and "timers w = sleeps clock filename xs ixs"
      and "fileLocks (store w) filename \<noteq> Some True"
  shows "\<exists>w'. run_loop clock w = Some w' \<and>
              settled w' = settled w @ map (\<lambda>(i, x). (i, Return x)) ixs \<and>
              files (store w') (path_join DATA_DIR filename) =
                (if ixs = [] then files (store w) (path_join DATA_DIR filename)
                 else Some (JSON_stringify (JArr (xs @ [snd (last ixs)])))) \<and>
              fileLocks (store w') filename \<noteq> Some True \<and>
              microtasks w' = [] \<and> timers w' = []"
  using assms
proof (induction ixs arbitrary: w)
  case Nil
  then show ?case by (simp add: sleeps_def run_loop_rest)
next
  case (Cons ix ixs)
  obtain i x where ix: "ix = (i, x)" by (cases ix)
  let ?p = "path_join DATA_DIR filename"
  let ?tmp = "temp_path ?p (clock i)"
  let ?data = "JArr (xs @ [x])"
  let ?wa = "w\<lparr>timers := sleeps clock filename xs ixs,
               microtasks := [After_sleep i filename x ?data ?tmp]\<rparr>"
  let ?wb = "w\<lparr>timers := sleeps clock filename xs ixs,
               store := (store w)\<lparr>fileLocks := (fileLocks (store w))(filename \<mapsto> True)\<rparr>,
               microtasks := [After_acquire i filename x ?data ?tmp]\<rparr>"
  let ?wc = "?wb\<lparr>store := (store ?wb)\<lparr>files := ((files (store ?wb))(?tmp := None))
                                      (?p \<mapsto> JSON_stringify ?data),
                                   fileLocks := (fileLocks (store ?wb))(filename := None)\<rparr>,
              microtasks := [],
              settled := settled ?wb @ [(i, Return x)]\<rparr>"
  have ta: "turn clock w = ?wa" using Cons.prems(1,2) by (simp add: turn_def ix sleeps_def)
  have tb: "turn clock ?wa = ?wb" using Cons.prems(3) by (simp add: turn_def acquire_attempt_def)
  have "run_loop clock w = run_loop clock (turn clock w)"
    using Cons.prems(2) by (intro run_loop_turn) (simp add: sleeps_def)
  also have "\<dots> = run_loop clock (turn clock ?wa)" unfolding ta by (intro run_loop_turn) simp
  also have "\<dots> = run_loop clock ?wc" unfolding tb by (intro write_and_settle) simp
  finally have r: "run_loop clock w = run_loop clock ?wc" .
  have "\<exists>w'. run_loop clock ?wc = Some w' \<and>
              settled w' = settled ?wc @ map (\<lambda>(i, x). (i, Return x)) ixs \<and>
              files (store w') ?p =
                (if ixs = [] then files (store ?wc) ?p
                 else Some (JSON_stringify (JArr (xs @ [snd (last ixs)])))) \<and>
              fileLocks (store w') filename \<noteq> Some True \<and>
              microtasks w' = [] \<and> timers w' = []"
    by (intro Cons.IH) simp_all
  then obtain w' where w': "run_loop clock ?wc = Some w'"
      "settled w' = settled ?wc @ map (\<lambda>(i, x). (i, Return x)) ixs"
      "files (store w') ?p = (if ixs = [] then files (store ?wc) ?p
                 else Some (JSON_stringify (JArr (xs @ [snd (last ixs)]))))"
      "fileLocks (store w') filename \<noteq> Some True" "microtasks w' = []" "timers w' = []"
    by blast
  show ?case
    by (intro exI[of _ w']) (use r w' in \<open>simp add: ix\<close>)
qed

lemma snd_last_zip:
  "rest \<noteq> [] \<Longrightarrow> snd (last (zip [a..<a + length rest] rest)) = last rest"
  by (simp add: last_conv_nth)

lemma zip_from_0:
  "zip [0..<0 + length (x0 # rest)] (x0 # rest) = (0, x0) # zip [Suc 0..<Suc (length rest)] rest"
  by (subst upt_conv_Cons) auto

lemma map_Return_zip:
  "map (\<lambda>(i, x). (i, Return x)) (zip (is :: nat list) rest) = zip is (map Return rest)"
  by (simp add: zip_map2 case_prod_unfold)

lemma settled_zip:
  "(0, Return x0) # map (\<lambda>(i, x). (i, Return x)) (zip [Suc 0..<Suc (length rest)] rest) =
   zip [0..<length (x0 # rest)] (map Return (x0 # rest))"
  unfolding map_Return_zip by (subst (2) upt_conv_Cons) auto

lemma concurrent_inserts_last_wins:
  assumes "fst (read no_faults s filename (JArr [])) = Return (JArr xs)"
      and "fileLocks s filename \<noteq> Some True"
      and "new_items \<noteq> []"
  shows "\<exists>w. concurrent_inserts clock s filename new_items = Some w \<and>
             settled w = zip [0..<length new_items] (map Return new_items) \<and>
             files (store w) (path_join DATA_DIR filename) =
               Some (JSON_stringify (JArr (xs @ [last new_items]))) \<and>
             fileLocks (store w) filename \<noteq> Some True \<and> microtasks w = [] \<and> timers w = []"
proof -
  from assms(3) obtain x0 rest where items: "new_items = x0 # rest" by (cases new_items) auto
  let ?p = "path_join DATA_DIR filename"
  let ?w0 = "\<lparr>store = s, microtasks = [], timers = [], settled = []\<rparr>"
  define ixs where "ixs = zip [Suc 0..<Suc (length rest)] rest"
  have ixs_empty: "(ixs = []) = (rest = [])" unfolding ixs_def by (cases rest) auto
  let ?tmp = "temp_path ?p (clock 0)"
  let ?data = "JArr (xs @ [x0])"
  from call_all_shape[of ?w0 0 filename new_items] assms(1) obtain s' where
    s': "call_all ?w0 0 filename new_items =
           \<lparr>store = s', microtasks = After_read 0 filename x0 (Return (JArr xs)) #
                                      reads filename (Return (JArr xs)) ixs,
            timers = [], settled = []\<rparr>"
        "files s' = files s" "fileLocks s' = fileLocks s"
    unfolding items zip_from_0 ixs_def by (auto simp: reads_def)
  let ?w1 = "\<lparr>store = s', microtasks = After_read 0 filename x0 (Return (JArr xs)) #
                                      reads filename (Return (JArr xs)) ixs,
            timers = [], settled = []\<rparr>"
  let ?s2 = "s'\<lparr>fileLocks := (fileLocks s')(filename \<mapsto> True)\<rparr>"
  let ?w2 = "\<lparr>store = ?s2,
              microtasks = reads filename (Return (JArr xs)) ixs @
                             [After_acquire 0 filename x0 ?data ?tmp],
              timers = [], settled = []\<rparr>"
  let ?w3 = "?w2\<lparr>microtasks := [After_acquire 0 filename x0 ?data ?tmp],
                  timers := timers ?w2 @ sleeps clock filename xs ixs\<rparr>"
  let ?w4 = "?w3\<lparr>store := (store ?w3)\<lparr>files := ((files (store ?w3))(?tmp := None))
                                      (?p \<mapsto> JSON_stringify ?data),
                                   fileLocks := (fileLocks (store ?w3))(filename := None)\<rparr>,
              microtasks := [],
              settled := settled ?w3 @ [(0, Return x0)]\<rparr>"
  have t1: "turn clock ?w1 = ?w2"
    using assms(2) s'(3) by (simp add: turn_def acquire_attempt_def)
  have "concurrent_inserts clock s filename new_items = run_loop clock ?w1"
    by (simp add: concurrent_inserts_def s'(1))
  also have "\<dots> = run_loop clock (turn clock ?w1)" by (intro run_loop_turn) simp
  also have "\<dots> = run_loop clock ?w3" unfolding t1 by (intro absorb_reads) simp_all
  also have "\<dots> = run_loop clock ?w4" by (intro write_and_settle) simp
  finally have r: "concurrent_inserts clock s filename new_items = run_loop clock ?w4" .
  have "\<exists>w'. run_loop clock ?w4 = Some w' \<and>
              settled w' = settled ?w4 @ map (\<lambda>(i, x). (i, Return x)) ixs \<and>
              files (store w') ?p =
                (if ixs = [] then files (store ?w4) ?p
                 else Some (JSON_stringify (JArr (xs @ [snd (last ixs)])))) \<and>
              fileLocks (store w') filename \<noteq> Some True \<and>
              microtasks w' = [] \<and> timers w' = []"
    by (intro wake_sleepers) simp_all
  then obtain w' where w': "run_loop clock ?w4 = Some w'"
      "settled w' = settled ?w4 @ map (\<lambda>(i, x). (i, Return x)) ixs"
      "files (store w') ?p = (if ixs = [] then files (store ?w4) ?p
                 else Some (JSON_stringify (JArr (xs @ [snd (last ixs)]))))"
      "fileLocks (store w') filename \<noteq> Some True" "microtasks w' = []" "timers w' = []"
    by blast
  have st: "settled w' = zip [0..<length new_items] (map Return new_items)"
    using w'(2) settled_zip[of x0 rest] by (simp add: items ixs_def)
  have fi: "files (store w') ?p = Some (JSON_stringify (JArr (xs @ [last new_items])))"
  proof (cases "rest = []")
    case True
    with w'(3) ixs_empty show ?thesis by (simp add: items)
  next
    case False
    then have "snd (last ixs) = last rest"
      using snd_last_zip[of rest "Suc 0"] by (simp add: ixs_def)
    with False w'(3) ixs_empty show ?thesis by (simp add: items)
  qed
  have "concurrent_inserts clock s filename new_items = Some w'"
    by (simp only: r w'(1))
  with st fi w'(4,5,6) show ?thesis by blast
qed

subsection \<open>One write at a time\<close>

text \<open>
  Every turn of the event loop keeps this: for each file at most one call of \<open>write\<close> is
  between taking the lock and writing, and while there is one the lock is held.
\<close>

lemma writers_acquire_attempt:
  assumes "one_writer w"
  shows "one_writer (acquire_attempt w i filename item data tempPath)"
proof (cases "fileLocks (store w) filename = Some True")
  case True
  with assms show ?thesis
    by (simp add: acquire_attempt_def one_writer_def writers_def)
next
  case False
  with assms have z: "writers w filename = 0"
    unfolding one_writer_def by (metis le_neq_implies_less less_one)
  show ?thesis
    unfolding one_writer_def
  proof (intro allI)
    fix f
    show "writers (acquire_attempt w i filename item data tempPath) f \<le> 1 \<and>
          (writers (acquire_attempt w i filename item data tempPath) f = 1 \<longrightarrow>
           fileLocks (store (acquire_attempt w i filename item data tempPath)) f = Some True)"
    proof (cases "f = filename")
      case True
      with False z show ?thesis by (simp add: acquire_attempt_def writers_def)
    next
      case neq: False
      with False assms show ?thesis
        by (simp add: acquire_attempt_def writers_def one_writer_def)
    qed
  qed
qed

lemma one_writer_settle:
  "one_writer (w\<lparr>settled := x\<rparr>) = one_writer w"
  by (simp add: one_writer_def writers_def)

lemma one_writer_resume:
  assumes "one_writer (w\<lparr>microtasks := c # microtasks w\<rparr>)"
  shows "one_writer (resume clock c w)"
proof (cases c)
  case (After_read i filename item r)
  from assms have w: "one_writer w"
    by (simp add: one_writer_def writers_def After_read)
  then show ?thesis
    by (simp add: After_read writers_acquire_attempt one_writer_settle split: outcome.splits)
next
  case (After_sleep i filename item data tempPath)
  from assms have w: "one_writer w"
    by (simp add: one_writer_def writers_def After_sleep)
  then show ?thesis by (simp add: After_sleep writers_acquire_attempt)
next
  case (After_acquire i filename item data tempPath)
  have one: "writers w filename = 0"
  proof -
    from assms have "writers (w\<lparr>microtasks := c # microtasks w\<rparr>) filename \<le> 1"
      by (simp add: one_writer_def)
    then show ?thesis by (simp add: writers_def After_acquire)
  qed
  show ?thesis
    unfolding one_writer_def
  proof (intro allI)
    fix f
    show "writers (resume clock c w) f \<le> 1 \<and>
          (writers (resume clock c w) f = 1 \<longrightarrow> fileLocks (store (resume clock c w)) f = Some True)"
    proof (cases "f = filename")
      case True
      with one show ?thesis
        by (simp add: After_acquire write_locked_ok writers_def)
    next
      case False
      from assms have "writers (w\<lparr>microtasks := c # microtasks w\<rparr>) f \<le> 1 \<and>
          (writers (w\<lparr>microtasks := c # microtasks w\<rparr>) f = 1 \<longrightarrow>
             fileLocks (store w) f = Some True)"
        by (simp add: one_writer_def)
      with False show ?thesis
        by (simp add: After_acquire write_locked_ok writers_def)
    qed
  qed
next
  case (After_write i item r)
  from assms have w: "one_writer w"
    by (simp add: one_writer_def writers_def After_write)
  then show ?thesis
    by (simp add: After_write one_writer_settle split: outcome.splits)
qed

lemma one_writer_turn:
  assumes "one_writer w"
  shows "one_writer (turn clock w)"
proof (cases "microtasks w")
  case (Cons c cs)
  have "w\<lparr>microtasks := cs\<rparr>\<lparr>microtasks := c # microtasks (w\<lparr>microtasks := cs\<rparr>)\<rparr> = w"
    using Cons by (cases w) simp
  with assms have "one_writer (w\<lparr>microtasks := cs\<rparr>\<lparr>microtasks := c # microtasks (w\<lparr>microtasks := cs\<rparr>)\<rparr>)"
    by simp
  from one_writer_resume[OF this] show ?thesis by (simp add: turn_def Cons)
next
  case Nil
  show ?thesis
  proof (cases "timers w")
    case Nil': Nil
    with Nil assms show ?thesis by (simp add: turn_def)
  next
    case (Cons c cs)
    with Nil assms show ?thesis
      by (simp add: turn_def one_writer_def writers_def)
  qed
qed

lemma one_writer_call_insert:
  "one_writer w \<Longrightarrow> one_writer (call_insert w i filename item)"
  using read_snd_files[of no_faults "store w" filename "JArr []"]
  by (auto simp: call_insert_def one_writer_def writers_def split: prod.splits)

lemma one_writer_call_all:
  "one_writer w \<Longrightarrow> one_writer (call_all w i filename new_items)"
  by (induction new_items arbitrary: w i) (simp_all add: one_writer_call_insert)

lemma one_writer_turns:
  "one_writer w \<Longrightarrow> one_writer ((turn clock ^^ k) w)"
  by (induction k) (simp_all add: one_writer_turn)

lemma one_writer_start:
  "one_writer \<lparr>store = s, microtasks = [], timers = [], settled = []\<rparr>"
  by (simp add: one_writer_def writers_def)

subsection \<open>The last call wins\<close>

text \<open>
  C1, as the code has it. \<open>insert\<close> is called for each of one or more records without
  awaiting the calls, on a collection that reads as \<open>xs\<close> and whose lock is free. Every call
  returns its record, the lock is free at the end, and after every turn of the event loop
  at most one write per file is between taking the lock and writing. But every call has
  read \<open>xs\<close> before any of them writes, and each writes \<open>xs\<close> with its own record appended:
  the collection ends as \<open>xs\<close> followed by the record of the last call alone. Of N calls on
  an empty collection one record is left.
\<close>

theorem concurrent_inserts_keep_last:
  assumes "fst (read no_faults s filename (JArr [])) = Return (JArr xs)"
      and "fileLocks s filename \<noteq> Some True"
      and "new_items \<noteq> []"
  shows "\<exists>w. concurrent_inserts clock s filename new_items = Some w \<and>
             settled w = zip [0..<length new_items] (map Return new_items) \<and>
             fst (read no_faults (store w) filename (JArr [])) =
               Return (JArr (xs @ [last new_items])) \<and>
             fileLocks (store w) filename \<noteq> Some True \<and>
             microtasks w = [] \<and> timers w = [] \<and>
             (\<forall>k. one_writer ((turn clock ^^ k)
                     (call_all \<lparr>store = s, microtasks = [], timers = [], settled = []\<rparr>
                        0 filename new_items)))"
proof -
  have inv: "\<forall>k. one_writer ((turn clock ^^ k)
                     (call_all \<lparr>store = s, microtasks = [], timers = [], settled = []\<rparr>
                        0 filename new_items))"
    by (intro allI one_writer_turns one_writer_call_all one_writer_start)
  from concurrent_inserts_last_wins[OF assms, of clock] obtain w where
    w: "concurrent_inserts clock s filename new_items = Some w"
       "settled w = zip [0..<length new_items] (map Return new_items)"
       "files (store w) (path_join DATA_DIR filename) =
          Some (JSON_stringify (JArr (xs @ [last new_items])))"
       "fileLocks (store w) filename \<noteq> Some True" "microtasks w = []" "timers w = []"
    by blast
  from w(3) have "fst (read no_faults (store w) filename (JArr [])) =
               Return (JArr (xs @ [last new_items]))"
    by (simp add: read_cases no_faults_def JSON_stringify_def)
  with w inv show ?thesis by blast
qed

theorem concurrent_inserts_keep_last_witness:
  "fst (read no_faults empty_store ''lessons.json'' (JArr [])) = Return (JArr []) \<and>
   fileLocks empty_store ''lessons.json'' \<noteq> Some True \<and>
   [with_id 1, with_id 2, with_id 3] \<noteq> [] \<and>
   final_results (concurrent_inserts clock0 empty_store ''lessons.json'' [with_id 1, with_id 2, with_id 3]) =
     Some [(0, Return (with_id 1)), (1, Return (with_id 2)), (2, Return (with_id 3))] \<and>
   final_collection ''lessons.json''
     (concurrent_inserts clock0 empty_store ''lessons.json'' [with_id 1, with_id 2, with_id 3]) =
     Some (Return (JArr [with_id 3]))"
proof -
  have r: "fst (read no_faults empty_store ''lessons.json'' (JArr [])) = Return (JArr [])"
    by (simp add: read_cases empty_store_def)
  have l: "fileLocks empty_store ''lessons.json'' \<noteq> Some True" by (simp add: empty_store_def)
  have n: "[with_id 1, with_id 2, with_id 3] \<noteq> []" by simp
  from concurrent_inserts_keep_last[OF r l n, of clock0] obtain w where
    w: "concurrent_inserts clock0 empty_store ''lessons.json'' [with_id 1, with_id 2, with_id 3] = Some w"
       "settled w = zip [0..<length [with_id 1, with_id 2, with_id 3]]
                      (map Return [with_id 1, with_id 2, with_id 3])"
       "fst (read no_faults (store w) ''lessons.json'' (JArr [])) =
          Return (JArr ([] @ [last [with_id 1, with_id 2, with_id 3]]))"
    by blast
  have z: "zip [0..<length [with_id 1, with_id 2, with_id 3]] (map Return [with_id 1, with_id 2, with_id 3]) =
           [(0, Return (with_id 1)), (1, Return (with_id 2)), (2, Return (with_id 3))]"
    by (simp add: upt_rec)
  from r l w z show ?thesis by (simp add: final_results_def final_collection_def)
qed

text \<open>
  Twenty records with distinct ids inserted side by side into an empty collection: all
  twenty calls return their record, and the collection holds one record, the last.
\<close>

theorem concurrent_inserts_lose_updates:
  "distinct (map with_id [0..<20]) \<and>
   final_results (concurrent_inserts clock0 empty_store ''lessons.json'' (map with_id [0..<20])) =
     Some (zip [0..<20] (map Return (map with_id [0..<20]))) \<and>
   final_collection ''lessons.json''
     (concurrent_inserts clock0 empty_store ''lessons.json'' (map with_id [0..<20])) =
     Some (Return (JArr [with_id 19])) \<and>
   length [with_id 19] \<noteq> 20"
proof -
  have r: "fst (read no_faults empty_store ''lessons.json'' (JArr [])) = Return (JArr [])"
    by (simp add: read_cases empty_store_def)
  have l: "fileLocks empty_store ''lessons.json'' \<noteq> Some True" by (simp add: empty_store_def)
  have n: "map with_id [0..<20] \<noteq> []" by simp
  from concurrent_inserts_last_wins[OF r l n, of clock0] obtain w where
    w: "concurrent_inserts clock0 empty_store ''lessons.json'' (map with_id [0..<20]) = Some w"
       "settled w = zip [0..<length (map with_id [0..<20])] (map Return (map with_id [0..<20]))"
       "files (store w) (path_join DATA_DIR ''lessons.json'') =
          Some (JSON_stringify (JArr ([] @ [last (map with_id [0..<20])])))"
    by blast
  have la: "last (map with_id [0..<20]) = with_id 19" by (simp add: last_map)
  from w(3) la have c: "fst (read no_faults (store w) ''lessons.json'' (JArr [])) = Return (JArr [with_id 19])"
    by (simp add: read_cases no_faults_def JSON_stringify_def)
  have d: "distinct (map with_id [0..<20])"
    by (simp add: distinct_map inj_on_def with_id_def)
  from w(1,2) c d show ?thesis by (simp add: final_results_def final_collection_def)
qed

end
